theory Spec2Isabelle
  imports Complex_Main "HOL-Library.AList"
begin

section \<open>Numeric conventions\<close>

text \<open>
  Spectral data (magnitudes, phases, envelopes, the \<open>process_t\<close> buffers) are modelled as
  real numbers.  The ratios of the engine and every \<open>double\<close> computation whose result
  is converted to an integer (the input hop, the start skip, the target duration) are
  modelled in IEEE 754 double precision, below.  Sample counts and indices held in \<open>int\<close>
  and \<open>size_t\<close> variables are integers; where the source converts between the two
  types (\<open>retrieve\<close>) or from a \<open>double\<close>, the conversion is written out, for a 32-bit
  \<open>int\<close> and a 64-bit \<open>size_t\<close>.

  C's \<open>round\<close> rounds halfway cases away from zero.
\<close>

definition c_round :: "real \<Rightarrow> int" where
  "c_round x = (if 0 \<le> x then \<lfloor>x + 1/2\<rfloor> else \<lceil>x - 1/2\<rceil>)"

text \<open>
  What the source can do besides returning: \<open>std::map::at\<close> and \<open>std::vector::at\<close> throw
  \<open>std::out_of_range\<close>; indexing a buffer outside its bounds and converting a NaN, an
  infinity or an out-of-range \<open>double\<close> to an integer type are undefined behaviour; and
  the frame loop of \<open>consume\<close> is run on a finite supply of frames.
\<close>

datatype error = OutOfRange | UndefinedBehaviour | FramesExhausted

definition returns :: "error + 'a \<Rightarrow> bool" where
  "returns r = (case r of Inl e \<Rightarrow> False | Inr y \<Rightarrow> True)"

definition inBounds :: "int \<Rightarrow> 'a list \<Rightarrow> bool" where
  "inBounds i xs = (0 \<le> i \<and> i < int (length xs))"

text \<open>Clamping a real number to \<open>[lo, hi]\<close>.\<close>

definition clamp :: "real \<Rightarrow> real \<Rightarrow> real \<Rightarrow> real" where
  "clamp lo hi x = max lo (min hi x)"

section \<open>IEEE 754 double precision\<close>

text \<open>
  A \<open>double\<close> is a finite number, a negative zero, an infinity or a NaN; \<open>Finite 0\<close> is
  the positive zero.  The finite doubles are the numbers \<open>m * 2^q\<close> with \<open>\<bar>m\<bar> < 2^53\<close>
  and \<open>-1074 \<le> q \<le> 971\<close>.
\<close>

datatype double = Finite real | NegZero | PosInf | NegInf | NaN

fun valueOf :: "double \<Rightarrow> real" where
  "valueOf (Finite x) = x"
| "valueOf NegZero = 0"
| "valueOf PosInf = 0"
| "valueOf NegInf = 0"
| "valueOf NaN = 0"

fun signBit :: "double \<Rightarrow> bool" where
  "signBit (Finite x) = (x < 0)"
| "signBit NegZero = True"
| "signBit PosInf = False"
| "signBit NegInf = True"
| "signBit NaN = False"

definition isInf :: "double \<Rightarrow> bool" where
  "isInf d = (d = PosInf \<or> d = NegInf)"

definition isZero :: "double \<Rightarrow> bool" where
  "isZero d = (d = Finite 0 \<or> d = NegZero)"

definition signedZero :: "bool \<Rightarrow> double" where
  "signedZero negative = (if negative then NegZero else Finite 0)"

definition signedInf :: "bool \<Rightarrow> double" where
  "signedInf negative = (if negative then NegInf else PosInf)"

text \<open>
  Rounding to nearest, ties to even.  \<open>rne\<close> is the nearest integer; the unit in the last
  place of a real \<open>x\<close> is \<open>2^(e - 52)\<close>, \<open>e\<close> the binary exponent of \<open>x\<close> and at least
  \<open>-1022\<close> (below that the doubles are subnormal and evenly spaced); \<open>fl x\<close> is the
  multiple of that unit nearest to \<open>x\<close>.  A rounded magnitude of \<open>2^1024\<close> or more
  overflows to an infinity; a zero result carries the sign the operation gives it.
\<close>

definition rne :: "real \<Rightarrow> int" where
  "rne x =
     (let f = \<lfloor>x\<rfloor>; d = x - of_int f
      in if d < 1/2 then f else if d > 1/2 then f + 1 else if even f then f else f + 1)"

definition ulpExponent :: "real \<Rightarrow> int" where
  "ulpExponent x = max \<lfloor>log 2 \<bar>x\<bar>\<rfloor> (- 1022) - 52"

definition fl :: "real \<Rightarrow> real" where
  "fl x =
     (if x = 0 then 0
      else sgn x * of_int (rne (\<bar>x\<bar> / 2 powr of_int (ulpExponent x)))
             * 2 powr of_int (ulpExponent x))"

definition rounded :: "real \<Rightarrow> bool \<Rightarrow> double" where
  "rounded x negative =
     (if x = 0 then signedZero negative
      else if 2 ^ 1024 \<le> \<bar>fl x\<bar> then signedInf (x < 0)
      else if fl x = 0 then signedZero (x < 0)
      else Finite (fl x))"

text \<open>
  The arithmetic operations: the exact result, rounded; and the special cases.  Each
  operation of the source is rounded on its own (no fused multiply-add, no extended
  precision), as on x86-64 with SSE2 arithmetic.
\<close>

definition d_mul :: "double \<Rightarrow> double \<Rightarrow> double" where
  "d_mul x y =
     (if x = NaN \<or> y = NaN then NaN
      else if isInf x \<or> isInf y then
        (if isZero x \<or> isZero y then NaN else signedInf (signBit x \<noteq> signBit y))
      else rounded (valueOf x * valueOf y) (signBit x \<noteq> signBit y))"

definition d_div :: "double \<Rightarrow> double \<Rightarrow> double" where
  "d_div x y =
     (if x = NaN \<or> y = NaN then NaN
      else if isInf x then (if isInf y then NaN else signedInf (signBit x \<noteq> signBit y))
      else if isInf y then signedZero (signBit x \<noteq> signBit y)
      else if isZero y then (if isZero x then NaN else signedInf (signBit x \<noteq> signBit y))
      else rounded (valueOf x / valueOf y) (signBit x \<noteq> signBit y))"

definition d_add :: "double \<Rightarrow> double \<Rightarrow> double" where
  "d_add x y =
     (if x = NaN \<or> y = NaN then NaN
      else if isInf x then (if isInf y \<and> x \<noteq> y then NaN else x)
      else if isInf y then y
      else rounded (valueOf x + valueOf y) (signBit x \<and> signBit y))"

fun d_neg :: "double \<Rightarrow> double" where
  "d_neg (Finite x) = (if x = 0 then NegZero else Finite (- x))"
| "d_neg NegZero = Finite 0"
| "d_neg PosInf = NegInf"
| "d_neg NegInf = PosInf"
| "d_neg NaN = NaN"

definition d_sub :: "double \<Rightarrow> double \<Rightarrow> double" where
  "d_sub x y = d_add x (d_neg y)"

text \<open>
  The comparisons \<open><\<close>, \<open><=\<close>, \<open>>\<close> and \<open>!=\<close>.  A comparison with a NaN is false, but for
  \<open>!=\<close>, which is true; the two zeros are equal.
\<close>

fun rank :: "double \<Rightarrow> int" where
  "rank PosInf = 1"
| "rank NegInf = - 1"
| "rank (Finite x) = 0"
| "rank NegZero = 0"
| "rank NaN = 0"

definition d_less :: "double \<Rightarrow> double \<Rightarrow> bool" where
  "d_less x y =
     (x \<noteq> NaN \<and> y \<noteq> NaN \<and> (rank x < rank y \<or> (rank x = rank y \<and> valueOf x < valueOf y)))"

definition d_le :: "double \<Rightarrow> double \<Rightarrow> bool" where
  "d_le x y =
     (x \<noteq> NaN \<and> y \<noteq> NaN \<and> (rank x < rank y \<or> (rank x = rank y \<and> valueOf x \<le> valueOf y)))"

definition d_greater :: "double \<Rightarrow> double \<Rightarrow> bool" where
  "d_greater x y = d_less y x"

definition d_differs :: "double \<Rightarrow> double \<Rightarrow> bool" where
  "d_differs x y = (x = NaN \<or> y = NaN \<or> rank x \<noteq> rank y \<or> valueOf x \<noteq> valueOf y)"

text \<open>\<open>floor\<close> and \<open>round\<close>, whose results are doubles.\<close>

fun d_floor :: "double \<Rightarrow> double" where
  "d_floor (Finite x) = Finite (of_int \<lfloor>x\<rfloor>)"
| "d_floor NegZero = NegZero"
| "d_floor PosInf = PosInf"
| "d_floor NegInf = NegInf"
| "d_floor NaN = NaN"

fun d_round :: "double \<Rightarrow> double" where
  "d_round (Finite x) = (if c_round x = 0 then signedZero (x < 0) else Finite (of_int (c_round x)))"
| "d_round NegZero = NegZero"
| "d_round PosInf = PosInf"
| "d_round NegInf = NegInf"
| "d_round NaN = NaN"

text \<open>
  The conversions \<open>int(d)\<close> and \<open>size_t(d)\<close> truncate towards zero; the behaviour is
  undefined if the truncated value is not a value of the integer type.  The conversion
  of an integer to \<open>double\<close> rounds.
\<close>

definition truncated :: "real \<Rightarrow> int" where
  "truncated x = (if 0 \<le> x then \<lfloor>x\<rfloor> else \<lceil>x\<rceil>)"

definition to_int :: "double \<Rightarrow> error + int" where
  "to_int d =
     (if d = NaN \<or> isInf d then Inl UndefinedBehaviour
      else if - (2 ^ 31) \<le> truncated (valueOf d) \<and> truncated (valueOf d) < 2 ^ 31
           then Inr (truncated (valueOf d))
      else Inl UndefinedBehaviour)"

definition to_size_t :: "double \<Rightarrow> error + int" where
  "to_size_t d =
     (if d = NaN \<or> isInf d then Inl UndefinedBehaviour
      else if 0 \<le> truncated (valueOf d) \<and> truncated (valueOf d) < 2 ^ 64
           then Inr (truncated (valueOf d))
      else Inl UndefinedBehaviour)"

definition d_of_int :: "int \<Rightarrow> double" where
  "d_of_int i = rounded (of_int i) False"

text \<open>
  The C library's \<open>pow\<close> and \<open>log10\<close> are not specified bit for bit; the model takes
  them as parameters.
\<close>

record Libm =
  pow :: "double \<Rightarrow> double \<Rightarrow> double"
  log10 :: "double \<Rightarrow> double"

text \<open>
  A stand-in for the examples: the values the C library documents for zeros and
  infinities, and elsewhere, for a positive finite base, the exact result rounded.
\<close>

definition exampleLibm :: Libm where
  "exampleLibm =
     \<lparr>pow = (\<lambda>x y. if x = Finite 1 \<or> isZero y then Finite 1
                     else if x = NaN \<or> y = NaN \<or> isInf x \<or> valueOf x \<le> 0 then NaN
                     else if y = PosInf then (if 1 < valueOf x then PosInf else Finite 0)
                     else if y = NegInf then (if 1 < valueOf x then Finite 0 else PosInf)
                     else rounded (valueOf x powr valueOf y) False),
      log10 = (\<lambda>x. if x = NaN then NaN
                    else if x = PosInf then PosInf
                    else if isZero x then NegInf
                    else if signBit x then NaN
                    else rounded (log 10 (valueOf x)) False)\<rparr>"

section \<open>Hop scheduling: \<open>R3Stretcher::calculateHop\<close>\<close>

text \<open>
  Modelled from the spec: \<open>getEffectiveRatio\<close> is declared in \<open>R3Stretcher.h\<close>, which
  is not among the sources.  Section 4.8 of the specification and its glossary define the
  effective ratio used for hop pacing as the product of time ratio and pitch scale.
\<close>

definition getEffectiveRatio :: "double \<Rightarrow> double \<Rightarrow> double" where
  "getEffectiveRatio timeRatio pitchScale = d_mul timeRatio pitchScale"

text \<open>
  \<open>proposedOuthop\<close> follows lines 281--288 of \<open>R3Stretcher.cpp\<close>, \<open>ratio\<close> being the
  value \<open>getEffectiveRatio()\<close> returned: the default of 256, the two logarithmic
  branches, then the two clamping statements in the source's order.
\<close>

definition proposedOuthop :: "Libm \<Rightarrow> double \<Rightarrow> double" where
  "proposedOuthop M ratio =
     (let p0 = (if d_greater ratio (Finite (3/2)) then
                  pow M (Finite 2)
                    (d_add (Finite 8) (d_mul (Finite 2) (log10 M (d_sub ratio (Finite (1/2))))))
                else if d_less ratio (Finite 1) then
                  pow M (Finite 2) (d_add (Finite 8) (d_mul (Finite 2) (log10 M ratio)))
                else Finite 256);
          p1 = (if d_greater p0 (Finite 512) then Finite 512 else p0);
          p2 = (if d_less p1 (Finite 128) then Finite 128 else p1)
      in p2)"

text \<open>
  Lines 292--302: the ideal input hop, its two guarded corrections, each of which logs a
  warning at level 0, and the stored value \<open>m_inhop = int(floor(inhop))\<close>.
\<close>

definition idealInhop :: "Libm \<Rightarrow> double \<Rightarrow> double" where
  "idealInhop M ratio =
     (let i0 = d_div (proposedOuthop M ratio) ratio;
          i1 = (if d_less i0 (Finite 1) then Finite 1 else i0);
          i2 = (if d_greater i1 (Finite 1024) then Finite 1024 else i1)
      in i2)"

definition hopWarnings :: "Libm \<Rightarrow> double \<Rightarrow> string list" where
  "hopWarnings M ratio =
     (let i0 = d_div (proposedOuthop M ratio) ratio;
          i1 = (if d_less i0 (Finite 1) then Finite 1 else i0)
      in (if d_less i0 (Finite 1)
          then [''WARNING: Extreme ratio yields ideal inhop < 1, results may be suspect'']
          else [])
         @ (if d_greater i1 (Finite 1024)
            then [''WARNING: Extreme ratio yields ideal inhop > 1024, results may be suspect'']
            else []))"

definition calculateHop :: "Libm \<Rightarrow> double \<Rightarrow> error + int" where
  "calculateHop M ratio = to_int (d_floor (idealInhop M ratio))"

subsection \<open>The hop formula in the specification's words\<close>

text \<open>Clamping to \<open>[lo, hi]\<close>; a NaN is neither below \<open>lo\<close> nor above \<open>hi\<close>.\<close>

definition d_clamp :: "double \<Rightarrow> double \<Rightarrow> double \<Rightarrow> double" where
  "d_clamp lo hi x = (if d_less x lo then lo else if d_greater x hi then hi else x)"

definition spec_outhop :: "Libm \<Rightarrow> double \<Rightarrow> double" where
  "spec_outhop M r =
     (if d_le (Finite 1) r \<and> d_le r (Finite (3/2)) then Finite 256
      else if d_greater r (Finite (3/2)) then
        pow M (Finite 2) (d_add (Finite 8) (d_mul (Finite 2) (log10 M (d_sub r (Finite (1/2))))))
      else pow M (Finite 2) (d_add (Finite 8) (d_mul (Finite 2) (log10 M r))))"

definition spec_inhop :: "Libm \<Rightarrow> double \<Rightarrow> error + int" where
  "spec_inhop M r =
     to_int (d_floor (d_clamp (Finite 1) (Finite 1024)
                        (d_div (d_clamp (Finite 128) (Finite 512) (spec_outhop M r)) r)))"

section \<open>Per-channel spectral data\<close>

text \<open>
  The structures below are declared in headers that are not among the sources
  (\<open>R3Stretcher.h\<close>, \<open>Guide.h\<close>); their fields are the ones \<open>R3Stretcher.cpp\<close> reads and
  writes.  \<open>real\<close> and \<open>imag\<close> carry a suffix because \<open>real\<close> is a HOL constant.
  Buffers are lists; the \<open>scales\<close> map of a channel, a \<open>std::map\<close> keyed by FFT size, is an
  association list in key order, looked up with \<open>map_of\<close> and updated in place with
  \<open>AList.update\<close>.
\<close>

record BandLimits =
  fftSize :: int
  b0min :: int
  b1max :: int

record FftBand =
  fftSize :: int
  f0 :: real
  f1 :: real

record Range =
  present :: bool
  f0 :: real
  f1 :: real

record Guidance =
  fftBands :: "FftBand list"
  kick :: Range
  preKick :: Range

record ClassificationReadaheadData =
  timeDomain :: "real list"
  mag :: "real list"
  phase :: "real list"

record ChannelScaleData =
  bufSize :: int
  timeDomain :: "real list"
  real_buf :: "real list"
  imag_buf :: "real list"
  mag :: "real list"
  phase :: "real list"
  prevMag :: "real list"
  pendingKick :: "real list"

record FormantData =
  fftSize :: int

record ChannelData =
  scales :: "(int \<times> ChannelScaleData) list"
  readahead :: ClassificationReadaheadData
  haveReadahead :: bool
  formant :: FormantData
  guidance :: Guidance

text \<open>
  Modelled from the spec: \<open>binForFrequency\<close> is declared in \<open>R3Stretcher.h\<close>, which is
  not among the sources.  Section 4.4: frequencies are mapped to bins by
  \<open>round(f * fftSize / sampleRate)\<close>.
\<close>

definition binForFrequency :: "real \<Rightarrow> int \<Rightarrow> real \<Rightarrow> int" where
  "binForFrequency f n sampleRate = c_round (f * real_of_int n / sampleRate)"

section \<open>Transient deferral: \<open>R3Stretcher::adjustPreKick\<close>\<close>

text \<open>
  The body of the pre-kick loop (lines 1147--1151) at bin \<open>i\<close>, and the loop
  \<open>for (int i = from; i <= to; ++i)\<close> around it.
\<close>

definition preKickBin :: "int \<Rightarrow> ChannelScaleData \<Rightarrow> error + ChannelScaleData" where
  "preKickBin i scale =
     (if inBounds i (mag scale) \<and> inBounds i (prevMag scale) then
        (let diff = mag scale ! nat i - prevMag scale ! nat i in
         if diff > 0 then
           (if inBounds i (pendingKick scale) then
              Inr (scale\<lparr>pendingKick := (pendingKick scale)[nat i := diff],
                         mag :=
                           (mag scale)
                             [nat i := mag scale ! nat i - diff]\<rparr>)
            else Inl UndefinedBehaviour)
         else Inr scale)
      else Inl UndefinedBehaviour)"

function preKickLoop :: "int \<Rightarrow> int \<Rightarrow> ChannelScaleData \<Rightarrow> error + ChannelScaleData" where
  "preKickLoop i to scale =
     (if i \<le> to then
        (case preKickBin i scale of
           Inl e \<Rightarrow> Inl e
         | Inr scale' \<Rightarrow> preKickLoop (i + 1) to scale')
      else Inr scale)"
  by pat_completeness auto
termination
  by (relation "measure (\<lambda>(i, to, scale). nat (to + 1 - i))") auto

declare preKickLoop.simps [simp del]

text \<open>The body of the kick loop (lines 1160--1161) and its loop.\<close>

definition kickBin :: "int \<Rightarrow> ChannelScaleData \<Rightarrow> error + ChannelScaleData" where
  "kickBin i scale =
     (if inBounds i (mag scale) \<and> inBounds i (pendingKick scale) then
        Inr (scale\<lparr>mag :=
                     (mag scale)
                       [nat i := mag scale ! nat i + pendingKick scale ! nat i],
                   pendingKick := (pendingKick scale)[nat i := 0]\<rparr>)
      else Inl UndefinedBehaviour)"

function kickLoop :: "int \<Rightarrow> int \<Rightarrow> ChannelScaleData \<Rightarrow> error + ChannelScaleData" where
  "kickLoop i to scale =
     (if i \<le> to then
        (case kickBin i scale of
           Inl e \<Rightarrow> Inl e
         | Inr scale' \<Rightarrow> kickLoop (i + 1) to scale')
      else Inr scale)"
  by pat_completeness auto
termination
  by (relation "measure (\<lambda>(i, to, scale). nat (to + 1 - i))") auto

declare kickLoop.simps [simp del]

text \<open>
  \<open>adjustPreKick\<close> on the channel data selected by \<open>m_channelData.at(c)\<close>.
  \<open>fftBands[0]\<close> of an empty band list is undefined behaviour; \<open>scales.at(fftSize)\<close>
  throws when the channel has no such scale.  Both branches take their bin range from
  \<open>guidance.preKick\<close>.
\<close>

definition adjustPreKick :: "real \<Rightarrow> ChannelData \<Rightarrow> error + ChannelData" where
  "adjustPreKick sampleRate cd =
     (case fftBands (guidance cd) of
        [] \<Rightarrow> Inl UndefinedBehaviour
      | band # _ \<Rightarrow>
          (let n = FftBand.fftSize band in
           if present (preKick (guidance cd)) then
             (case map_of (scales cd) n of
                None \<Rightarrow> Inl OutOfRange
              | Some scale \<Rightarrow>
                  (let from = binForFrequency (Range.f0 (preKick (guidance cd))) n sampleRate;
                       to = binForFrequency (Range.f1 (preKick (guidance cd))) n sampleRate
                   in case preKickLoop from to scale of
                        Inl e \<Rightarrow> Inl e
                      | Inr scale' \<Rightarrow> Inr (cd\<lparr>scales := AList.update n scale' (scales cd)\<rparr>)))
           else if present (kick (guidance cd)) then
             (case map_of (scales cd) n of
                None \<Rightarrow> Inl OutOfRange
              | Some scale \<Rightarrow>
                  (let from = binForFrequency (Range.f0 (preKick (guidance cd))) n sampleRate;
                       to = binForFrequency (Range.f1 (preKick (guidance cd))) n sampleRate
                   in case kickLoop from to scale of
                        Inl e \<Rightarrow> Inl e
                      | Inr scale' \<Rightarrow> Inr (cd\<lparr>scales := AList.update n scale' (scales cd)\<rparr>)))
           else Inr cd))"

definition inRange :: "int \<Rightarrow> int \<Rightarrow> nat \<Rightarrow> bool" where
  "inRange from to k = (from \<le> int k \<and> int k \<le> to)"

subsection \<open>Two frames of a four-bin scale\<close>

text \<open>
  A pre-kick frame at FFT size 4 and sample rate 100: \<open>preKick.f0 = 25\<close> and
  \<open>preKick.f1 = 75\<close> are bins 1 and 3.  \<open>afterPreKickFrame\<close> is what \<open>adjustPreKick\<close>
  leaves.  The frame that follows has new magnitudes, keeps the pending buffer, and
  carries neither a pre-kick nor a kick.
\<close>

definition preKickGuidance :: Guidance where
  "preKickGuidance =
     \<lparr>fftBands = [\<lparr>FftBand.fftSize = 4, FftBand.f0 = 0, FftBand.f1 = 100\<rparr>],
      kick = \<lparr>present = False, f0 = 0, f1 = 0\<rparr>,
      preKick = \<lparr>present = True, f0 = 25, f1 = 75\<rparr>\<rparr>"

definition quietGuidance :: Guidance where
  "quietGuidance =
     \<lparr>fftBands = [\<lparr>FftBand.fftSize = 4, FftBand.f0 = 0, FftBand.f1 = 100\<rparr>],
      kick = \<lparr>present = False, f0 = 0, f1 = 0\<rparr>,
      preKick = \<lparr>present = False, f0 = 25, f1 = 75\<rparr>\<rparr>"

definition exampleScale :: "real list \<Rightarrow> real list \<Rightarrow> real list \<Rightarrow> ChannelScaleData" where
  "exampleScale m pm pk =
     \<lparr>bufSize = 4, timeDomain = [], real_buf = [], imag_buf = [],
      mag = m, phase = [], prevMag = pm, pendingKick = pk\<rparr>"

definition exampleChannel :: "Guidance \<Rightarrow> ChannelScaleData \<Rightarrow> ChannelData" where
  "exampleChannel g sc =
     \<lparr>scales = [(4, sc)],
      readahead = \<lparr>ClassificationReadaheadData.timeDomain = [],
                   ClassificationReadaheadData.mag = [],
                   ClassificationReadaheadData.phase = []\<rparr>,
      haveReadahead = False,
      formant = \<lparr>FormantData.fftSize = 4\<rparr>,
      guidance = g\<rparr>"

definition preKickFrame :: ChannelData where
  "preKickFrame = exampleChannel preKickGuidance (exampleScale [1, 5, 2, 7] [1, 3, 4, 1] [0, 0, 0, 0])"

definition afterPreKickFrame :: ChannelData where
  "afterPreKickFrame = exampleChannel preKickGuidance (exampleScale [1, 3, 2, 1] [1, 3, 4, 1] [0, 2, 0, 6])"

definition quietFrame :: ChannelData where
  "quietFrame = exampleChannel quietGuidance (exampleScale [1, 2, 5, 2] [1, 3, 2, 1] [0, 2, 0, 6])"

text \<open>A kick frame whose guidance still carries the pre-kick frame's \<open>preKick.f0\<close> and \<open>preKick.f1\<close>.\<close>

definition matchingKickGuidance :: Guidance where
  "matchingKickGuidance =
     \<lparr>fftBands = [\<lparr>FftBand.fftSize = 4, FftBand.f0 = 0, FftBand.f1 = 100\<rparr>],
      kick = \<lparr>present = True, f0 = 0, f1 = 75\<rparr>,
      preKick = \<lparr>present = False, f0 = 25, f1 = 75\<rparr>\<rparr>"

definition matchingKickFrame :: ChannelData where
  "matchingKickFrame =
     exampleChannel matchingKickGuidance (exampleScale [1, 4, 4, 4] [1, 3, 2, 1] [0, 2, 0, 6])"

section \<open>Formant adjustment: \<open>R3Stretcher::adjustFormant\<close>\<close>

text \<open>
  \<open>FormantData::envelopeAt\<close> is declared in \<open>R3Stretcher.h\<close>, which is not among the
  sources; the functions below take it as the parameter \<open>envelopeAt\<close>.

  Lines 1125--1127: the ratio of source to target envelope, limited by the two statements
  \<open>if (ratio < minRatio) ratio = minRatio; if (ratio > maxRatio) ratio = maxRatio\<close>.
\<close>

definition formantRatio :: "real \<Rightarrow> real \<Rightarrow> real" where
  "formantRatio source target =
     (let maxRatio = 60;
          minRatio = 1 / maxRatio;
          r0 = source / target;
          r1 = (if r0 < minRatio then minRatio else r0);
          r2 = (if r1 > maxRatio then maxRatio else r1)
      in r2)"

text \<open>The loop body, lines 1122--1129, at bin \<open>i\<close>.\<close>

definition formantBin ::
  "(real \<Rightarrow> real) \<Rightarrow> real \<Rightarrow> real \<Rightarrow> int \<Rightarrow> ChannelScaleData \<Rightarrow> error + ChannelScaleData" where
  "formantBin envelope sourceFactor targetFactor i scale =
     (let source = envelope (real_of_int i * sourceFactor);
          target = envelope (real_of_int i * targetFactor)
      in if target > 0 then
           (if inBounds i (mag scale) then
              Inr (scale\<lparr>mag := (mag scale)[nat i := mag scale ! nat i * formantRatio source target]\<rparr>)
            else Inl UndefinedBehaviour)
         else Inr scale)"

text \<open>The loop \<open>for (int i = b.b0min; i < b.b1max && i < highBin; ++i)\<close>.\<close>

function formantBinLoop ::
  "(real \<Rightarrow> real) \<Rightarrow> real \<Rightarrow> real \<Rightarrow> int \<Rightarrow> int \<Rightarrow> int \<Rightarrow> ChannelScaleData
     \<Rightarrow> error + ChannelScaleData" where
  "formantBinLoop envelope sourceFactor targetFactor i hi highBin scale =
     (if i < hi \<and> i < highBin then
        (case formantBin envelope sourceFactor targetFactor i scale of
           Inl e \<Rightarrow> Inl e
         | Inr scale' \<Rightarrow> formantBinLoop envelope sourceFactor targetFactor (i + 1) hi highBin scale')
      else Inr scale)"
  by pat_completeness auto
termination
  by (relation "measure (\<lambda>(envelope, sourceFactor, targetFactor, i, hi, highBin, scale). nat (hi - i))")
    auto

declare formantBinLoop.simps [simp del]

text \<open>
  The loop over \<open>m_guideConfiguration.fftBandLimits\<close>: a band of another FFT size is
  passed over (\<open>continue\<close>), every band of this FFT size has its bins adjusted.
\<close>

fun formantBands ::
  "(real \<Rightarrow> real) \<Rightarrow> real \<Rightarrow> real \<Rightarrow> int \<Rightarrow> int \<Rightarrow> BandLimits list \<Rightarrow> ChannelScaleData
     \<Rightarrow> error + ChannelScaleData" where
  "formantBands envelope sourceFactor targetFactor highBin n [] scale = Inr scale"
| "formantBands envelope sourceFactor targetFactor highBin n (b # bs) scale =
     (if BandLimits.fftSize b \<noteq> n then
        formantBands envelope sourceFactor targetFactor highBin n bs scale
      else
        (case formantBinLoop envelope sourceFactor targetFactor (b0min b) (b1max b) highBin scale of
           Inl e \<Rightarrow> Inl e
         | Inr scale' \<Rightarrow> formantBands envelope sourceFactor targetFactor highBin n bs scale'))"

text \<open>
  The body of the loop over the channel's scales, lines 1108--1131, for the scale of FFT
  size \<open>n\<close>: the 10 kHz bin limit, the two factors, then the bands.
\<close>

definition formantHighBin :: "real \<Rightarrow> int \<Rightarrow> int" where
  "formantHighBin sampleRate n = \<lfloor>real_of_int n * 10000 / sampleRate\<rfloor>"

definition formantTargetFactor :: "FormantData \<Rightarrow> int \<Rightarrow> real" where
  "formantTargetFactor f n = real_of_int (FormantData.fftSize f) / real_of_int n"

definition formantSourceFactor :: "FormantData \<Rightarrow> real \<Rightarrow> real \<Rightarrow> int \<Rightarrow> real" where
  "formantSourceFactor f formantScale pitchScale n =
     (let formantScale' = (if formantScale = 0 then 1 / pitchScale else formantScale)
      in formantTargetFactor f n / formantScale')"

definition adjustFormantScale ::
  "(FormantData \<Rightarrow> real \<Rightarrow> real) \<Rightarrow> real \<Rightarrow> real \<Rightarrow> real \<Rightarrow> BandLimits list \<Rightarrow> FormantData
     \<Rightarrow> int \<Rightarrow> ChannelScaleData \<Rightarrow> error + ChannelScaleData" where
  "adjustFormantScale envelopeAt sampleRate formantScale pitchScale fftBandLimits f n scale =
     formantBands (envelopeAt f)
       (formantSourceFactor f formantScale pitchScale n) (formantTargetFactor f n)
       (formantHighBin sampleRate n) n fftBandLimits scale"

fun adjustFormantScales ::
  "(FormantData \<Rightarrow> real \<Rightarrow> real) \<Rightarrow> real \<Rightarrow> real \<Rightarrow> real \<Rightarrow> BandLimits list \<Rightarrow> FormantData
     \<Rightarrow> (int \<times> ChannelScaleData) list \<Rightarrow> error + (int \<times> ChannelScaleData) list" where
  "adjustFormantScales envelopeAt sampleRate formantScale pitchScale fftBandLimits f [] = Inr []"
| "adjustFormantScales envelopeAt sampleRate formantScale pitchScale fftBandLimits f ((n, scale) # rest) =
     (case adjustFormantScale envelopeAt sampleRate formantScale pitchScale fftBandLimits f n scale of
        Inl e \<Rightarrow> Inl e
      | Inr scale' \<Rightarrow>
          (case adjustFormantScales envelopeAt sampleRate formantScale pitchScale fftBandLimits f rest of
             Inl e \<Rightarrow> Inl e
           | Inr rest' \<Rightarrow> Inr ((n, scale') # rest')))"

definition adjustFormant ::
  "(FormantData \<Rightarrow> real \<Rightarrow> real) \<Rightarrow> real \<Rightarrow> real \<Rightarrow> real \<Rightarrow> BandLimits list
     \<Rightarrow> ChannelData \<Rightarrow> error + ChannelData" where
  "adjustFormant envelopeAt sampleRate formantScale pitchScale fftBandLimits cd =
     (case adjustFormantScales envelopeAt sampleRate formantScale pitchScale fftBandLimits
             (formant cd) (scales cd) of
        Inl e \<Rightarrow> Inl e
      | Inr scales' \<Rightarrow> Inr (cd\<lparr>scales := scales'\<rparr>))"

text \<open>
  Lines 990--993 of \<open>analyseChannel\<close>: the formant stage runs only under
  \<open>OptionFormantPreserved\<close>.  (\<open>analyseFormant\<close>, which runs first, fills the envelope that
  \<open>envelopeAt\<close> reads and touches no magnitude.)
\<close>

definition formantStage ::
  "bool \<Rightarrow> (FormantData \<Rightarrow> real \<Rightarrow> real) \<Rightarrow> real \<Rightarrow> real \<Rightarrow> real \<Rightarrow> BandLimits list
     \<Rightarrow> ChannelData \<Rightarrow> error + ChannelData" where
  "formantStage optionFormantPreserved envelopeAt sampleRate formantScale pitchScale fftBandLimits cd =
     (if optionFormantPreserved
      then adjustFormant envelopeAt sampleRate formantScale pitchScale fftBandLimits cd
      else Inr cd)"

subsection \<open>The formant range in the specification's words\<close>

definition formantRangeTop :: "real \<Rightarrow> BandLimits \<Rightarrow> int" where
  "formantRangeTop sampleRate b =
     min (b1max b) \<lfloor>real_of_int (BandLimits.fftSize b) * 10000 / sampleRate\<rfloor>"

definition formantGain :: "(FormantData \<Rightarrow> real \<Rightarrow> real) \<Rightarrow> FormantData \<Rightarrow> real \<Rightarrow> real \<Rightarrow> int \<Rightarrow> nat \<Rightarrow> real" where
  "formantGain envelopeAt f formantScale pitchScale n k =
     (let targetFactor = real_of_int (FormantData.fftSize f) / real_of_int n;
          formantScale_eff = (if formantScale \<noteq> 0 then formantScale else 1 / pitchScale);
          sourceFactor = targetFactor / formantScale_eff
      in clamp (1/60) 60 (envelopeAt f (real k * sourceFactor) / envelopeAt f (real k * targetFactor)))"

definition formantTarget :: "(FormantData \<Rightarrow> real \<Rightarrow> real) \<Rightarrow> FormantData \<Rightarrow> int \<Rightarrow> nat \<Rightarrow> real" where
  "formantTarget envelopeAt f n k =
     envelopeAt f (real k * (real_of_int (FormantData.fftSize f) / real_of_int n))"

subsection \<open>A channel with two scales\<close>

text \<open>
  Sample rate 40000, formant FFT size 16, formant scale 2, an envelope that rises as
  \<open>x + 1\<close>.  The scale of size 8 has the band \<open>[0, 4]\<close> and the 10 kHz limit at bin 2; the
  scale of size 16 has the band \<open>[1, 3]\<close> and the limit at bin 4.
\<close>

definition rampEnvelope :: "FormantData \<Rightarrow> real \<Rightarrow> real" where
  "rampEnvelope f x = x + 1"

definition formantBandLimits :: "BandLimits list" where
  "formantBandLimits =
     [\<lparr>BandLimits.fftSize = 8, b0min = 0, b1max = 4\<rparr>,
      \<lparr>BandLimits.fftSize = 16, b0min = 1, b1max = 3\<rparr>]"

definition formantScaleExample :: "real list \<Rightarrow> ChannelScaleData" where
  "formantScaleExample m =
     \<lparr>bufSize = int (length m), timeDomain = [], real_buf = [], imag_buf = [],
      mag = m, phase = [], prevMag = [], pendingKick = []\<rparr>"

definition formantChannel :: "real list \<Rightarrow> real list \<Rightarrow> ChannelData" where
  "formantChannel m8 m16 =
     \<lparr>scales = [(8, formantScaleExample m8), (16, formantScaleExample m16)],
      readahead = \<lparr>ClassificationReadaheadData.timeDomain = [],
                   ClassificationReadaheadData.mag = [],
                   ClassificationReadaheadData.phase = []\<rparr>,
      haveReadahead = False,
      formant = \<lparr>FormantData.fftSize = 16\<rparr>,
      guidance = \<lparr>fftBands = [], kick = \<lparr>present = False, f0 = 0, f1 = 0\<rparr>,
                  preKick = \<lparr>present = False, f0 = 0, f1 = 0\<rparr>\<rparr>\<rparr>"

section \<open>Ring buffers\<close>

text \<open>
  Modelled from the spec: \<open>RingBuffer\<close> is an external collaborator whose source is not
  among the files; section 6 gives its contract (a sized capacity; read, write, skip and
  zero of \<open>n\<close> samples; \<open>getSize\<close>, \<open>getReadSpace\<close>, \<open>getWriteSpace\<close>; \<open>resized\<close> keeps the
  unread data).  A buffer is the list of its unread samples, oldest first, and its
  capacity.  An operation on \<open>n\<close> samples acts on as many as the space allows and reports
  that number; a negative \<open>n\<close>, of which the contract says nothing, moves no sample (and
  \<open>read\<close> reports it as it is).  A caller's sample array, passed by pointer, is a function from index to
  sample.
\<close>

record RingBuffer =
  unread :: "real list"
  capacity :: nat

definition getReadSpace :: "RingBuffer \<Rightarrow> int" where
  "getReadSpace rb = int (length (unread rb))"

definition getWriteSpace :: "RingBuffer \<Rightarrow> int" where
  "getWriteSpace rb = int (capacity rb) - int (length (unread rb))"

definition getSize :: "RingBuffer \<Rightarrow> int" where
  "getSize rb = int (capacity rb)"

definition rb_write :: "(nat \<Rightarrow> real) \<Rightarrow> int \<Rightarrow> RingBuffer \<Rightarrow> RingBuffer" where
  "rb_write source n rb =
     rb\<lparr>unread := unread rb @ map source [0 ..< nat (min n (getWriteSpace rb))]\<rparr>"

definition rb_zero :: "int \<Rightarrow> RingBuffer \<Rightarrow> RingBuffer" where
  "rb_zero n rb = rb\<lparr>unread := unread rb @ replicate (nat (min n (getWriteSpace rb))) 0\<rparr>"

definition rb_skip :: "int \<Rightarrow> RingBuffer \<Rightarrow> RingBuffer" where
  "rb_skip n rb = rb\<lparr>unread := drop (nat (min n (getReadSpace rb))) (unread rb)\<rparr>"

definition rb_read :: "int \<Rightarrow> RingBuffer \<Rightarrow> real list \<times> int \<times> RingBuffer" where
  "rb_read n rb =
     (let k = min n (getReadSpace rb)
      in (take (nat k) (unread rb), k, rb\<lparr>unread := drop (nat k) (unread rb)\<rparr>))"

definition resized :: "int \<Rightarrow> RingBuffer \<Rightarrow> RingBuffer" where
  "resized newSize rb = rb\<lparr>capacity := nat newSize\<rparr>"

section \<open>The stretcher's stream state\<close>

text \<open>
  The part of \<open>R3Stretcher\<close> that \<open>process\<close>, \<open>consume\<close>, \<open>available\<close>, \<open>retrieve\<close> and
  \<open>updateRatioFromMap\<close> read and write.  Channel 0 is dereferenced unconditionally by
  these functions (\<open>m_channelData[0]\<close>), so the state holds it apart from the further
  channels.  Of the spectral data only the fill counter of channel 0's accumulator at the
  longest FFT size enters: \<open>consume\<close> reads it.  \<open>realTime\<close> is \<open>isRealTime()\<close>;
  \<open>warnings\<close> holds the messages logged at level 0.
\<close>

datatype ProcessMode = JustCreated | Studying | Processing | Finished

record ChannelStreams =
  inbuf :: RingBuffer
  outbuf :: RingBuffer

record R3Stretcher =
  realTime :: bool
  optionPitchHighConsistency :: bool
  timeRatio :: double
  pitchScale :: double
  longestFftSize :: int
  channel0 :: ChannelStreams
  otherChannels :: "ChannelStreams list"
  accumulatorFill :: int
  haveResampler :: bool
  inhop :: int
  prevInhop :: int
  prevOuthop :: int
  startSkip :: int
  studyInputDuration :: int
  suppliedInputDuration :: int
  totalTargetDuration :: int
  consumedInputDuration :: int
  lastKeyFrameSurpassed :: int
  totalOutputDuration :: int
  keyFrameMap :: "(int \<times> int) list"
  mode :: ProcessMode
  warnings :: "string list"

definition channelData :: "R3Stretcher \<Rightarrow> ChannelStreams list" where
  "channelData s = channel0 s # otherChannels s"

text \<open>A loop \<open>for (int c = 0; c < channels; ++c)\<close> that updates channel \<open>c\<close> by \<open>f c\<close>.\<close>

definition forChannels :: "(nat \<Rightarrow> ChannelStreams \<Rightarrow> ChannelStreams) \<Rightarrow> R3Stretcher \<Rightarrow> R3Stretcher" where
  "forChannels f s =
     s\<lparr>channel0 := f 0 (channel0 s),
       otherChannels := map (\<lambda>i. f (Suc i) (otherChannels s ! i)) [0 ..< length (otherChannels s)]\<rparr>"

definition log0 :: "string \<Rightarrow> R3Stretcher \<Rightarrow> R3Stretcher" where
  "log0 message s = s\<lparr>warnings := warnings s @ [message]\<rparr>"

subsection \<open>\<open>calculateHop\<close> on the state\<close>

text \<open>
  \<open>calculateHop\<close> reads the ratio through \<open>getEffectiveRatio()\<close>, logs its warnings
  (lines 293--300) and stores \<open>m_inhop\<close>; the conversion of a NaN to \<open>int\<close> is undefined.
\<close>

definition calculateHopState :: "Libm \<Rightarrow> R3Stretcher \<Rightarrow> error + R3Stretcher" where
  "calculateHopState M s =
     (let ratio = getEffectiveRatio (timeRatio s) (pitchScale s)
      in case calculateHop M ratio of
           Inl e \<Rightarrow> Inl e
         | Inr h \<Rightarrow> Inr (s\<lparr>inhop := h, warnings := warnings s @ hopWarnings M ratio\<rparr>))"

section \<open>Key-frame map: \<open>R3Stretcher::updateRatioFromMap\<close>\<close>

text \<open>
  \<open>m_keyFrameMap\<close> is a \<open>std::map\<close> from input sample index to output sample index: an
  association list in key order.  \<open>upper_bound k\<close> is the part of the map from the first
  key greater than \<open>k\<close> on; the end iterator is the empty list.
\<close>

definition upper_bound :: "(int \<times> int) list \<Rightarrow> int \<Rightarrow> (int \<times> int) list" where
  "upper_bound m k = dropWhile (\<lambda>(a, b). a \<le> k) m"

text \<open>
  In the first branch the ratio is \<open>double(second) / double(first)\<close>, whatever \<open>first\<close>
  is: with \<open>first = 0\<close> the quotient is a NaN (for \<open>second = 0\<close>) or \<open>+inf\<close>, and it
  is stored in \<open>m_timeRatio\<close> like any other.  The denominator of the second branch is
  positive by its guard.
\<close>

definition updateRatioFromMap :: "Libm \<Rightarrow> R3Stretcher \<Rightarrow> error + R3Stretcher" where
  "updateRatioFromMap M s =
     (case keyFrameMap s of
        [] \<Rightarrow> Inr s
      | (first, second) # _ \<Rightarrow>
          if consumedInputDuration s = 0 then
            (case calculateHopState M (s\<lparr>timeRatio := d_div (d_of_int second) (d_of_int first)\<rparr>) of
               Inl e \<Rightarrow> Inl e
             | Inr s' \<Rightarrow> Inr (s'\<lparr>lastKeyFrameSurpassed := 0\<rparr>))
          else
            (case upper_bound (keyFrameMap s) (lastKeyFrameSurpassed s) of
               [] \<Rightarrow> Inr s
             | (i0first, i0second) # _ \<Rightarrow>
                 if consumedInputDuration s \<ge> i0first then
                   (let (keyFrameAtInput, keyFrameAtOutput) =
                          (case upper_bound (keyFrameMap s) (consumedInputDuration s) of
                             [] \<Rightarrow> (studyInputDuration s, totalTargetDuration s)
                           | i1 # _ \<Rightarrow> i1);
                        ratio =
                          (if keyFrameAtInput > i0first then
                             (let toKeyFrameAtInput = keyFrameAtInput - i0first;
                                  toKeyFrameAtOutput =
                                    (if keyFrameAtOutput > i0second
                                     then keyFrameAtOutput - i0second else 1)
                              in d_div (d_of_int toKeyFrameAtOutput) (d_of_int toKeyFrameAtInput))
                           else Finite 1)
                    in case calculateHopState M (s\<lparr>timeRatio := ratio\<rparr>) of
                         Inl e \<Rightarrow> Inl e
                       | Inr s' \<Rightarrow> Inr (s'\<lparr>lastKeyFrameSurpassed := i0first\<rparr>))
                 else Inr s))"

section \<open>\<open>R3Stretcher::available\<close> and \<open>R3Stretcher::retrieve\<close>\<close>

definition available :: "R3Stretcher \<Rightarrow> int" where
  "available s =
     (let av = getReadSpace (outbuf (channel0 s))
      in if av = 0 \<and> mode s = Finished then -1 else av)"

definition imbalanceWarning :: string where
  "imbalanceWarning = ''R3Stretcher::retrieve: WARNING: channel imbalance detected''"

text \<open>
  The loop of \<open>retrieve\<close> over the channels from channel \<open>c\<close> on, with the running count
  \<open>got\<close>: the updated count, the channels after the read, the samples delivered to each
  \<open>output[c]\<close>, and the warnings logged.
\<close>

fun retrieveChannels ::
  "nat \<Rightarrow> int \<Rightarrow> ChannelStreams list \<Rightarrow> int \<times> ChannelStreams list \<times> real list list \<times> string list" where
  "retrieveChannels c got [] = (got, [], [], [])"
| "retrieveChannels c got (cd # cds) =
     (let (delivered, gotHere, ob) = rb_read got (outbuf cd);
          message = (if gotHere < got \<and> c > 0 then [imbalanceWarning] else []);
          got' = (if gotHere < got then min got (max gotHere 0) else got);
          (result, cds', output, messages) = retrieveChannels (Suc c) got' cds
      in (result, cd\<lparr>outbuf := ob\<rparr> # cds', delivered # output, message @ messages))"

text \<open>
  \<open>retrieve\<close> takes the count as a \<open>size_t\<close>, keeps it in \<open>int got = samples\<close> and
  returns \<open>got\<close> as a \<open>size_t\<close>: the first conversion keeps the low 32 bits as a
  two's-complement number, the second is modulo \<open>2^64\<close>.
\<close>

definition narrowToInt :: "int \<Rightarrow> int" where
  "narrowToInt n = (let m = n mod 2 ^ 32 in if m < 2 ^ 31 then m else m - 2 ^ 32)"

definition widenToSizeT :: "int \<Rightarrow> int" where
  "widenToSizeT g = g mod 2 ^ 64"

definition retrieve :: "nat \<Rightarrow> R3Stretcher \<Rightarrow> nat \<times> real list list \<times> R3Stretcher" where
  "retrieve samples s =
     (let (got, cds, output, messages) =
            retrieveChannels 0 (narrowToInt (int samples)) (channelData s)
      in (nat (widenToSizeT got), output,
          s\<lparr>channel0 := hd cds, otherChannels := tl cds, warnings := warnings s @ messages\<rparr>))"

subsection \<open>The result of \<open>retrieve\<close> in the specification's words\<close>

text \<open>
  What channel \<open>c\<close> is asked for: the requested count on channel 0, and on a later channel
  what the channel before it delivered.
\<close>

definition askedOf :: "int \<Rightarrow> real list list \<Rightarrow> nat \<Rightarrow> int" where
  "askedOf n output c = (if c = 0 then n else int (length (output ! (c - 1))))"

section \<open>\<open>R3Stretcher::process\<close>\<close>

text \<open>
  The offline block of \<open>process\<close>, lines 528--575, in its three steps.  First the
  target duration, from the studied or the expected input duration:
\<close>

definition targetFor :: "int \<Rightarrow> double \<Rightarrow> error + int" where
  "targetFor duration ratio = to_size_t (d_round (d_mul (d_of_int duration) ratio))"

definition setTargetDuration :: "R3Stretcher \<Rightarrow> error + R3Stretcher" where
  "setTargetDuration s =
     (if mode s = Studying then
        (case targetFor (studyInputDuration s) (timeRatio s) of
           Inl e \<Rightarrow> Inl e
         | Inr target \<Rightarrow> Inr (s\<lparr>totalTargetDuration := target\<rparr>))
      else if mode s = JustCreated then
        (if suppliedInputDuration s \<noteq> 0 then
           (case targetFor (suppliedInputDuration s) (timeRatio s) of
              Inl e \<Rightarrow> Inl e
            | Inr target \<Rightarrow> Inr (s\<lparr>totalTargetDuration := target\<rparr>))
         else Inr s)
      else Inr s)"

text \<open>
  Last, on the first call (mode \<open>JustCreated\<close> or \<open>Studying\<close>): the resampler is created
  if the pitch scale asks for one, every input ring is prefilled with \<open>pad\<close> zeros, half
  the longest frame, and the start skip is set to \<open>int(round(pad / m_pitchScale))\<close>.  The
  longest FFT size is positive, so \<open>/ 2\<close> on it is \<open>div 2\<close>.
\<close>

definition startPadding :: "R3Stretcher \<Rightarrow> error + R3Stretcher" where
  "startPadding s =
     (if mode s = JustCreated \<or> mode s = Studying then
        (let s1 = (if d_differs (pitchScale s) (Finite 1) \<and> \<not> haveResampler s
                   then s\<lparr>haveResampler := True\<rparr> else s);
             pad = longestFftSize s1 div 2;
             s2 = forChannels (\<lambda>c cd. cd\<lparr>inbuf := rb_zero pad (inbuf cd)\<rparr>) s1
         in case to_int (d_round (d_div (d_of_int pad) (pitchScale s2))) of
              Inl e \<Rightarrow> Inl e
            | Inr skip \<Rightarrow> Inr (s2\<lparr>startSkip := skip\<rparr>))
      else Inr s)"

text \<open>Between the two, the key-frame update when the map is not empty.\<close>

definition prepareOffline :: "Libm \<Rightarrow> R3Stretcher \<Rightarrow> error + R3Stretcher" where
  "prepareOffline M s =
     (case setTargetDuration s of
        Inl e \<Rightarrow> Inl e
      | Inr s1 \<Rightarrow>
          (case (if keyFrameMap s1 \<noteq> [] then updateRatioFromMap M s1 else Inr s1) of
             Inl e \<Rightarrow> Inl e
           | Inr s2 \<Rightarrow> startPadding s2))"

text \<open>
  Lines 587--599: the input rings grow when the block does not fit, then take the block.
  \<open>input c\<close> is the caller's array for channel \<open>c\<close>.
\<close>

definition growWarning :: string where
  "growWarning = ''R3Stretcher::process: WARNING: Forced to increase input buffer size. Either setMaxProcessSize was not properly called or process is being called repeatedly without retrieve. Write space and samples''"

definition writeInput :: "(nat \<Rightarrow> nat \<Rightarrow> real) \<Rightarrow> int \<Rightarrow> R3Stretcher \<Rightarrow> R3Stretcher" where
  "writeInput input samples s =
     (let ws = getWriteSpace (inbuf (channel0 s));
          s1 = (if samples > ws then
                  (let newSize = getSize (inbuf (channel0 s)) - ws + samples
                   in forChannels (\<lambda>c cd. cd\<lparr>inbuf := resized newSize (inbuf cd)\<rparr>)
                        (log0 growWarning s))
                else s)
      in forChannels (\<lambda>c cd. cd\<lparr>inbuf := rb_write (input c) samples (inbuf cd)\<rparr>) s1)"

section \<open>\<open>R3Stretcher::consume\<close>\<close>

text \<open>
  The stretch calculator, the analysis, the guide, the phase advance, the synthesis and
  the resampler are collaborators.  What they hand to the bookkeeping of \<open>consume\<close> is
  the calculated output hop, a parameter of \<open>consume\<close>, and for each frame the content of
  every channel's mixdown (or resampled) buffer and the resampler's count:
\<close>

record FrameOutput =
  resampledCount :: int
  channelOutput :: "nat \<Rightarrow> nat \<Rightarrow> real"

text \<open>
  The head of the loop, lines 681--704: a frame is processed when channel 0's output ring
  has room for the output hop and the loop does not break for want of input.
\<close>

definition continues :: "int \<Rightarrow> R3Stretcher \<Rightarrow> bool" where
  "continues outhop s =
     (getWriteSpace (outbuf (channel0 s)) \<ge> outhop \<and>
      (let readSpace = getReadSpace (inbuf (channel0 s))
       in if readSpace < longestFftSize s then
            (if mode s = Finished then
               (if readSpace = 0 then accumulatorFill s \<noteq> 0 else True)
             else False)
          else True))"

text \<open>
  Modelled from the spec: the size of the accumulator is set in the constructor of
  \<open>ChannelScaleData\<close>, which is not among the sources; by section 3 it is the longest FFT
  size.  The fill counter after \<open>synthesiseChannel\<close>, lines 1251--1261, with
  \<open>draining = (readSpace == 0)\<close>:
\<close>

definition synthesise :: "int \<Rightarrow> R3Stretcher \<Rightarrow> R3Stretcher" where
  "synthesise outhop s =
     (let draining = (getReadSpace (inbuf (channel0 s)) = 0)
      in s\<lparr>accumulatorFill :=
             (if draining then
                (if accumulatorFill s > outhop then accumulatorFill s - outhop else 0)
              else longestFftSize s)\<rparr>)"

text \<open>Lines 748--788: whether the frame is resampled, and the number of samples to write.\<close>

definition resampling :: "R3Stretcher \<Rightarrow> bool" where
  "resampling s =
     (haveResampler s \<and> (d_differs (pitchScale s) (Finite 1) \<or> optionPitchHighConsistency s))"

definition proposedWriteCount :: "int \<Rightarrow> FrameOutput \<Rightarrow> R3Stretcher \<Rightarrow> int" where
  "proposedWriteCount outhop f s = (if resampling s then resampledCount f else outhop)"

definition frameWriteCount :: "int \<Rightarrow> FrameOutput \<Rightarrow> R3Stretcher \<Rightarrow> int" where
  "frameWriteCount outhop f s =
     (let writeCount = proposedWriteCount outhop f s
      in if \<not> realTime s then
           (if totalTargetDuration s > 0
               \<and> totalOutputDuration s + writeCount > totalTargetDuration s
            then totalTargetDuration s - totalOutputDuration s
            else writeCount)
         else writeCount)"

text \<open>Lines 790--810: the input advance, the writes and skips, the two counters.\<close>

definition shortReadWarning :: string where
  "shortReadWarning = ''WARNING: readSpace < inhop when processing is not yet finished''"

definition frameAdvanceCount :: "R3Stretcher \<Rightarrow> int" where
  "frameAdvanceCount s =
     (let readSpace = getReadSpace (inbuf (channel0 s))
      in if inhop s > readSpace then readSpace else inhop s)"

definition emit :: "int \<Rightarrow> FrameOutput \<Rightarrow> R3Stretcher \<Rightarrow> R3Stretcher" where
  "emit outhop f s =
     (let writeCount = frameWriteCount outhop f s;
          advanceCount = frameAdvanceCount s;
          s1 = (if inhop s > getReadSpace (inbuf (channel0 s)) \<and> mode s \<noteq> Finished
                then log0 shortReadWarning s else s);
          s2 = forChannels
                 (\<lambda>c cd. cd\<lparr>outbuf := rb_write (channelOutput f c) writeCount (outbuf cd),
                             inbuf := rb_skip advanceCount (inbuf cd)\<rparr>) s1
      in s2\<lparr>consumedInputDuration := consumedInputDuration s2 + advanceCount,
            totalOutputDuration := totalOutputDuration s2 + writeCount\<rparr>)"

text \<open>Lines 812--820: the start skip.\<close>

definition skipStart :: "R3Stretcher \<Rightarrow> R3Stretcher" where
  "skipStart s =
     (if startSkip s > 0 then
        (let rs = getReadSpace (outbuf (channel0 s));
             toSkip = min (startSkip s) rs;
             s1 = forChannels (\<lambda>c cd. cd\<lparr>outbuf := rb_skip toSkip (outbuf cd)\<rparr>) s
         in s1\<lparr>startSkip := startSkip s - toSkip, totalOutputDuration := rs - toSkip\<rparr>)
      else s)"

definition processFrame :: "int \<Rightarrow> FrameOutput \<Rightarrow> R3Stretcher \<Rightarrow> R3Stretcher" where
  "processFrame outhop f s =
     (skipStart (emit outhop f (synthesise outhop s)))\<lparr>prevInhop := inhop s, prevOuthop := outhop\<rparr>"

text \<open>
  The loop runs on the frames it is given, one per iteration; \<open>FramesExhausted\<close> says
  that it wanted another.
\<close>

fun consumeLoop :: "int \<Rightarrow> FrameOutput list \<Rightarrow> R3Stretcher \<Rightarrow> error + R3Stretcher" where
  "consumeLoop outhop [] s = (if continues outhop s then Inl FramesExhausted else Inr s)"
| "consumeLoop outhop (f # fs) s =
     (if continues outhop s then consumeLoop outhop fs (processFrame outhop f s) else Inr s)"

definition outhopWarning :: string where
  "outhopWarning = ''R3Stretcher::consume: WARNING: outhop calculated as''"

definition consume :: "int \<Rightarrow> FrameOutput list \<Rightarrow> R3Stretcher \<Rightarrow> error + R3Stretcher" where
  "consume calculatedOuthop frames s =
     (if calculatedOuthop < 1 then consumeLoop 1 frames (log0 outhopWarning s)
      else consumeLoop calculatedOuthop frames s)"

definition finishedWarning :: string where
  "finishedWarning = ''R3Stretcher::process: Cannot process again after final chunk''"

definition process ::
  "Libm \<Rightarrow> (nat \<Rightarrow> nat \<Rightarrow> real) \<Rightarrow> nat \<Rightarrow> bool \<Rightarrow> int \<Rightarrow> FrameOutput list \<Rightarrow> R3Stretcher
     \<Rightarrow> error + R3Stretcher" where
  "process M input samples final calculatedOuthop frames s =
     (if mode s = Finished then Inr (log0 finishedWarning s)
      else
        (case (if \<not> realTime s then prepareOffline M s else Inr s) of
           Inl e \<Rightarrow> Inl e
         | Inr s1 \<Rightarrow>
             consume calculatedOuthop frames
               (writeInput input (int samples)
                  (s1\<lparr>mode := (if final then Finished else Processing)\<rparr>))))"

subsection \<open>Invariants and bounds used in the statements\<close>

text \<open>
  The number of frames the loop can still want: one for every unread input sample, then
  the frames that drain the accumulator.
\<close>

definition drainFrames :: "int \<Rightarrow> nat" where
  "drainFrames fill = (if fill = 0 then 0 else Suc (nat fill))"

definition framesWanted :: "R3Stretcher \<Rightarrow> nat" where
  "framesWanted s =
     (let readSpace = getReadSpace (inbuf (channel0 s))
      in if readSpace > 0 then nat readSpace + drainFrames (longestFftSize s)
         else drainFrames (accumulatorFill s))"

text \<open>
  The output counter of an offline engine that knows its target: positive target, counter
  within it, and channel 0's output ring holding no more than has been counted.
\<close>

definition outputWithinTarget :: "R3Stretcher \<Rightarrow> bool" where
  "outputWithinTarget s =
     (\<not> realTime s \<and> 0 < totalTargetDuration s
      \<and> 0 \<le> totalOutputDuration s \<and> totalOutputDuration s \<le> totalTargetDuration s
      \<and> getReadSpace (outbuf (channel0 s)) \<le> totalOutputDuration s)"

text \<open>A sequence of \<open>process\<close> calls, each with its block, flag, calculated hop and frames.\<close>

record ProcessCall =
  callInput :: "nat \<Rightarrow> nat \<Rightarrow> real"
  callSamples :: nat
  callFinal :: bool
  callOuthop :: int
  callFrames :: "FrameOutput list"

fun processCalls :: "Libm \<Rightarrow> ProcessCall list \<Rightarrow> R3Stretcher \<Rightarrow> error + R3Stretcher" where
  "processCalls M [] s = Inr s"
| "processCalls M (c # cs) s =
     (case process M (callInput c) (callSamples c) (callFinal c) (callOuthop c) (callFrames c) s of
        Inl e \<Rightarrow> Inl e
      | Inr s' \<Rightarrow> processCalls M cs s')"

text \<open>
  Two states agree on the mode, the rings and the other fields the frame loop starts
  from, and the input hop stays at least 1.
\<close>

definition sameStreams :: "R3Stretcher \<Rightarrow> R3Stretcher \<Rightarrow> bool" where
  "sameStreams s s' =
     (mode s' = mode s \<and> realTime s' = realTime s \<and> channel0 s' = channel0 s
      \<and> otherChannels s' = otherChannels s \<and> longestFftSize s' = longestFftSize s
      \<and> accumulatorFill s' = accumulatorFill s \<and> pitchScale s' = pitchScale s
      \<and> haveResampler s' = haveResampler s \<and> startSkip s' = startSkip s
      \<and> (1 \<le> inhop s \<longrightarrow> 1 \<le> inhop s'))"

text \<open>
  What a frame drops from the head of the output rings: nothing once the start skip is
  used up, and before that the smaller of the start skip and the read space of channel
  0's output ring after the frame's write.
\<close>

definition startDrop :: "int \<Rightarrow> FrameOutput \<Rightarrow> R3Stretcher \<Rightarrow> int" where
  "startDrop outhop f s =
     (if startSkip s > 0
      then min (startSkip s)
               (getReadSpace (outbuf (channel0 (emit outhop f (synthesise outhop s)))))
      else 0)"

text \<open>
  The samples a frame's \<open>outbuf->write\<close> appends to channel \<open>c\<close>'s output ring, and those
  that all the frames of a run of \<open>consume\<close> append, frame after frame.
\<close>

definition frameChunk :: "int \<Rightarrow> FrameOutput \<Rightarrow> R3Stretcher \<Rightarrow> nat \<Rightarrow> real list" where
  "frameChunk outhop f s c =
     map (channelOutput f c)
       [0 ..< nat (min (frameWriteCount outhop f s) (getWriteSpace (outbuf (channelData s ! c))))]"

fun emittedLoop :: "int \<Rightarrow> FrameOutput list \<Rightarrow> R3Stretcher \<Rightarrow> nat \<Rightarrow> real list" where
  "emittedLoop outhop [] s c = []"
| "emittedLoop outhop (f # fs) s c =
     (if continues outhop s
      then frameChunk outhop f s c @ emittedLoop outhop fs (processFrame outhop f s) c
      else [])"

definition emitted :: "int \<Rightarrow> FrameOutput list \<Rightarrow> R3Stretcher \<Rightarrow> nat \<Rightarrow> real list" where
  "emitted calculatedOuthop frames s c =
     (if calculatedOuthop < 1 then emittedLoop 1 frames (log0 outhopWarning s) c
      else emittedLoop calculatedOuthop frames s c)"

text \<open>
  The output rings of all channels hold equally many samples and have the same capacity,
  as they do from construction on.
\<close>

definition outputsAligned :: "R3Stretcher \<Rightarrow> bool" where
  "outputsAligned s =
     (\<forall>cd \<in> set (channelData s).
         length (unread (outbuf cd)) = length (unread (outbuf (channel0 s)))
       \<and> capacity (outbuf cd) = capacity (outbuf (channel0 s)))"

subsection \<open>A small engine\<close>

text \<open>
  An offline engine with longest FFT size 8 and input hop 2, one channel, empty rings of
  capacity 16 (input) and 128 (output), as constructed: mode \<open>JustCreated\<close>, all
  counters zero.
\<close>

definition ring :: "real list \<Rightarrow> nat \<Rightarrow> RingBuffer" where
  "ring xs n = \<lparr>unread = xs, capacity = n\<rparr>"

definition freshChannel :: ChannelStreams where
  "freshChannel = \<lparr>inbuf = ring [] 16, outbuf = ring [] 128\<rparr>"

definition freshStretcher :: R3Stretcher where
  "freshStretcher =
     \<lparr>realTime = False, optionPitchHighConsistency = False,
      timeRatio = Finite 1, pitchScale = Finite 1, longestFftSize = 8,
      channel0 = freshChannel, otherChannels = [],
      accumulatorFill = 0, haveResampler = False,
      inhop = 2, prevInhop = 2, prevOuthop = 2, startSkip = 0,
      studyInputDuration = 0, suppliedInputDuration = 0, totalTargetDuration = 0,
      consumedInputDuration = 0, lastKeyFrameSurpassed = 0, totalOutputDuration = 0,
      keyFrameMap = [], mode = JustCreated, warnings = []\<rparr>"

text \<open>Two channels whose output rings hold three and two samples.\<close>

definition unevenStretcher :: R3Stretcher where
  "unevenStretcher =
     freshStretcher\<lparr>channel0 := \<lparr>inbuf = ring [] 16, outbuf = ring [1, 2, 3] 128\<rparr>,
                    otherChannels := [\<lparr>inbuf = ring [] 16, outbuf = ring [4, 5] 128\<rparr>]\<rparr>"

text \<open>A block of ones for every channel, and a frame whose buffers hold 0.5 throughout.\<close>

definition onesInput :: "nat \<Rightarrow> nat \<Rightarrow> real" where
  "onesInput c i = 1"

definition halfFrame :: FrameOutput where
  "halfFrame = \<lparr>resampledCount = 0, channelOutput = (\<lambda>c i. 1/2)\<rparr>"

text \<open>A further call of \<open>process\<close> with eight samples, output hop 2 and one frame.\<close>

definition laterCall :: ProcessCall where
  "laterCall = \<lparr>callInput = onesInput, callSamples = 8, callFinal = False, callOuthop = 2,
                 callFrames = [halfFrame]\<rparr>"

text \<open>
  The small engine in mid-stream with a target of five samples, four of them emitted and
  two still in the output ring, and a full frame of input waiting.
\<close>

definition targetStretcher :: R3Stretcher where
  "targetStretcher =
     freshStretcher\<lparr>mode := Processing, totalTargetDuration := 5, totalOutputDuration := 4,
                    channel0 := \<lparr>inbuf = ring [1, 1, 1, 1, 1, 1, 1, 1] 16,
                                 outbuf = ring [1/2, 1/2] 128\<rparr>\<rparr>"

section \<open>Spectral analysis of a channel: \<open>R3Stretcher::analyseChannel\<close>\<close>

text \<open>
  The analysis windows, the FFT engines and the conversion of a complex number to its
  magnitude and phase are collaborators; the model takes them as parameters.
\<close>

record Collaborators =
  analysisWindow :: "int \<Rightarrow> real list"
  forward :: "int \<Rightarrow> real list \<Rightarrow> real list \<times> real list"
  magnitude :: "real \<Rightarrow> real \<Rightarrow> real"
  argument :: "real \<Rightarrow> real \<Rightarrow> real"

text \<open>
  A call \<open>m_scaleData.at(n)->fft.forward(frame, real, imag)\<close>: the engine of size \<open>n\<close>
  hands back the real and imaginary parts, and the call is entered in the record of the
  forward transforms made, which \<open>analyseChannel\<close> threads through its steps.
\<close>

type_synonym FftCall = "int \<times> real list"

definition fftForward ::
  "Collaborators \<Rightarrow> int \<Rightarrow> real list \<Rightarrow> FftCall list \<Rightarrow> (real list \<times> real list) \<times> FftCall list" where
  "fftForward E n frame calls = (forward E n frame, calls @ [(n, frame)])"

text \<open>
  Modelled from the spec: \<open>Window::cut\<close>, \<open>v_fftshift\<close>, \<open>v_copy\<close>, \<open>v_scale\<close> and
  \<open>convertToPolar\<close> are declared in headers that are not among the sources.  By section
  6, \<open>cut\<close> applies the window, copying input to output; by section 4.2 the FFT shift
  rotates a frame by half its length, the polar conversion computes magnitudes on the
  magnitude range and phases on the polar range of its \<open>ToPolarSpec\<close>, and magnitudes are
  scaled by \<open>1 / fftSize\<close>.  \<open>peekFrame\<close> is lines 836--842: the frame of \<open>longest\<close> samples
  peeked from the input ring, padded with zeros.
\<close>

definition window_cut :: "real list \<Rightarrow> real list \<Rightarrow> real list" where
  "window_cut window source = map (\<lambda>(w, x). x * w) (zip window source)"

definition v_fftshift :: "int \<Rightarrow> real list \<Rightarrow> real list" where
  "v_fftshift n xs =
     (let h = nat (n div 2) in take h (drop h xs) @ take h xs @ drop (2 * h) xs)"

definition v_copy :: "real list \<Rightarrow> real list \<Rightarrow> int \<Rightarrow> real list" where
  "v_copy dst src count = take (nat count) src @ drop (nat count) dst"

definition v_scale :: "real list \<Rightarrow> int \<Rightarrow> real \<Rightarrow> int \<Rightarrow> real list" where
  "v_scale xs from factor count =
     map (\<lambda>i. if from \<le> int i \<and> int i < from + count then xs ! i * factor else xs ! i)
         [0 ..< length xs]"

definition peekFrame :: "int \<Rightarrow> real list \<Rightarrow> real list" where
  "peekFrame longest input = take (nat longest) (input @ replicate (nat longest) 0)"

record ToPolarSpec =
  magFromBin :: int
  magBinCount :: int
  polarFromBin :: int
  polarBinCount :: int

definition inPolarRange :: "ToPolarSpec \<Rightarrow> nat \<Rightarrow> bool" where
  "inPolarRange spec i = (polarFromBin spec \<le> int i \<and> int i < polarFromBin spec + polarBinCount spec)"

definition inMagRange :: "ToPolarSpec \<Rightarrow> nat \<Rightarrow> bool" where
  "inMagRange spec i =
     ((magFromBin spec \<le> int i \<and> int i < magFromBin spec + magBinCount spec) \<or> inPolarRange spec i)"

definition convertToPolar ::
  "Collaborators \<Rightarrow> ToPolarSpec \<Rightarrow> real list \<Rightarrow> real list \<Rightarrow> real list \<Rightarrow> real list
     \<Rightarrow> real list \<times> real list" where
  "convertToPolar E spec m p re im =
     (map (\<lambda>i. if inMagRange spec i then magnitude E (re ! i) (im ! i) else m ! i) [0 ..< length m],
      map (\<lambda>i. if inPolarRange spec i then argument E (re ! i) (im ! i) else p ! i) [0 ..< length p])"

text \<open>
  Lines 834--884: the unwindowed longest frame, the windowed frames of the scales other
  than the classification and the longest scale, the windowed readahead one input hop
  further on, the windowed classification frame when the readahead is not valid, and the
  longest frame windowed in place.  The frame \<open>buf\<close> is the time-domain buffer of the
  longest scale.
\<close>

definition windowFrames ::
  "Collaborators \<Rightarrow> int \<Rightarrow> int \<Rightarrow> int \<Rightarrow> bool \<Rightarrow> real list \<Rightarrow> ChannelData \<Rightarrow> ChannelData" where
  "windowFrames E longest classify inhop' haveValidReadahead input cd =
     (let buf = peekFrame longest input;
          sc1 = AList.map_entry longest (\<lambda>sc. sc\<lparr>timeDomain := buf\<rparr>) (scales cd);
          sc2 = map (\<lambda>(n, sc).
                       if n = classify \<or> n = longest then (n, sc)
                       else (n, sc\<lparr>timeDomain :=
                                    window_cut (analysisWindow E n)
                                      (drop (nat ((longest - n) div 2)) buf)\<rparr>)) sc1;
          ra = (readahead cd)
                 \<lparr>ClassificationReadaheadData.timeDomain :=
                    window_cut (analysisWindow E classify)
                      (drop (nat ((longest - classify) div 2 + inhop')) buf)\<rparr>;
          sc3 = (if \<not> haveValidReadahead then
                   AList.map_entry classify
                     (\<lambda>sc. sc\<lparr>timeDomain :=
                               window_cut (analysisWindow E classify)
                                 (drop (nat ((longest - classify) div 2)) buf)\<rparr>) sc2
                 else sc2);
          sc4 = AList.map_entry longest
                  (\<lambda>sc. sc\<lparr>timeDomain := window_cut (analysisWindow E longest) (timeDomain sc)\<rparr>) sc3
      in cd\<lparr>scales := sc4, readahead := ra\<rparr>)"

text \<open>Lines 895--902: the previous readahead becomes the current classification frame.\<close>

definition reuseReadahead :: "int \<Rightarrow> ChannelData \<Rightarrow> ChannelData" where
  "reuseReadahead classify cd =
     cd\<lparr>scales :=
          AList.map_entry classify
            (\<lambda>sc. sc\<lparr>mag := v_copy (mag sc) (ClassificationReadaheadData.mag (readahead cd)) (bufSize sc),
                      phase := v_copy (phase sc) (ClassificationReadaheadData.phase (readahead cd))
                                 (bufSize sc)\<rparr>)
            (scales cd)\<rparr>"

text \<open>
  Lines 904--930: the readahead frame is shifted and transformed into the classification
  scale's \<open>real\<close> and \<open>imag\<close>, converted into the readahead's magnitudes and phases, and
  the classification scale's magnitudes are scaled.
\<close>

definition classifySpec :: "int \<Rightarrow> BandLimits \<Rightarrow> ToPolarSpec" where
  "classifySpec classify b =
     \<lparr>magFromBin = 0, magBinCount = classify div 2 + 1,
      polarFromBin = b0min b, polarBinCount = b1max b - b0min b + 1\<rparr>"

definition transformReadahead ::
  "Collaborators \<Rightarrow> BandLimits list \<Rightarrow> int \<Rightarrow> ChannelData \<Rightarrow> FftCall list
     \<Rightarrow> ChannelData \<times> FftCall list" where
  "transformReadahead E fftBandLimits classify cd calls =
     (let td = v_fftshift classify (ClassificationReadaheadData.timeDomain (readahead cd));
          ((re, im), calls') = fftForward E classify td calls;
          sc1 = AList.map_entry classify (\<lambda>sc. sc\<lparr>real_buf := re, imag_buf := im\<rparr>) (scales cd);
          ra1 = (readahead cd)\<lparr>ClassificationReadaheadData.timeDomain := td\<rparr>
      in case filter (\<lambda>b. BandLimits.fftSize b = classify) fftBandLimits of
           [] \<Rightarrow> (cd\<lparr>scales := sc1, readahead := ra1, haveReadahead := True\<rparr>, calls')
         | b # _ \<Rightarrow>
             (let (m, p) = convertToPolar E (classifySpec classify b)
                             (ClassificationReadaheadData.mag ra1)
                             (ClassificationReadaheadData.phase ra1) re im
              in (cd\<lparr>scales :=
                       AList.map_entry classify
                         (\<lambda>sc. sc\<lparr>mag := v_scale (mag sc) 0 (1 / real_of_int classify)
                                            (int (length (mag sc)))\<rparr>) sc1,
                     readahead := ra1\<lparr>ClassificationReadaheadData.mag := m,
                                      ClassificationReadaheadData.phase := p\<rparr>,
                     haveReadahead := True\<rparr>,
                  calls')))"

text \<open>The body of the loop over the scales, lines 943--987, for the scale of size \<open>n\<close>.\<close>

definition scaleSpec :: "int \<Rightarrow> int \<Rightarrow> BandLimits \<Rightarrow> ToPolarSpec" where
  "scaleSpec classify n b =
     (if n = classify then classifySpec classify b
      else \<lparr>magFromBin = b0min b, magBinCount = b1max b - b0min b + 1,
            polarFromBin = b0min b, polarBinCount = b1max b - b0min b + 1\<rparr>)"

definition transformScale ::
  "Collaborators \<Rightarrow> BandLimits list \<Rightarrow> int \<Rightarrow> int \<Rightarrow> ChannelScaleData \<Rightarrow> FftCall list
     \<Rightarrow> ChannelScaleData \<times> FftCall list" where
  "transformScale E fftBandLimits classify n sc calls =
     (let td = v_fftshift n (timeDomain sc);
          ((re, im), calls') = fftForward E n td calls;
          sc1 = sc\<lparr>timeDomain := td, real_buf := re, imag_buf := im\<rparr>
      in case filter (\<lambda>b. BandLimits.fftSize b = n) fftBandLimits of
           [] \<Rightarrow> (sc1, calls')
         | b # _ \<Rightarrow>
             (let spec = scaleSpec classify n b;
                  (m, p) = convertToPolar E spec (mag sc1) (phase sc1) re im
              in (sc1\<lparr>mag := v_scale m (magFromBin spec) (1 / real_of_int n) (magBinCount spec),
                      phase := p\<rparr>,
                  calls')))"

text \<open>
  The loop over the scales, lines 939--987, in key order: it passes over the
  classification scale exactly when the readahead is valid.
\<close>

fun transformScales ::
  "Collaborators \<Rightarrow> BandLimits list \<Rightarrow> int \<Rightarrow> bool \<Rightarrow> (int \<times> ChannelScaleData) list
     \<Rightarrow> FftCall list \<Rightarrow> (int \<times> ChannelScaleData) list \<times> FftCall list" where
  "transformScales E fftBandLimits classify haveValidReadahead [] calls = ([], calls)"
| "transformScales E fftBandLimits classify haveValidReadahead ((n, sc) # rest) calls =
     (if n = classify \<and> haveValidReadahead then
        (let (rest', calls') =
               transformScales E fftBandLimits classify haveValidReadahead rest calls
         in ((n, sc) # rest', calls'))
      else
        (let (sc', calls1) = transformScale E fftBandLimits classify n sc calls;
             (rest', calls') =
               transformScales E fftBandLimits classify haveValidReadahead rest calls1
         in ((n, sc') # rest', calls')))"

text \<open>
  Lines 830--988.  The readahead is valid if the channel has one and the input hop is the
  previous frame's.  \<open>scales.at\<close> throws for a missing scale.  The result is the channel
  and the forward transforms made, in order.
\<close>

definition analyseSpectra ::
  "Collaborators \<Rightarrow> BandLimits list \<Rightarrow> int \<Rightarrow> int \<Rightarrow> real list \<Rightarrow> int \<Rightarrow> int \<Rightarrow> ChannelData
     \<Rightarrow> error + ChannelData \<times> FftCall list" where
  "analyseSpectra E fftBandLimits longest classify input inhop' prevInhop' cd =
     (case map_of (scales cd) longest of
        None \<Rightarrow> Inl OutOfRange
      | Some longestScale \<Rightarrow>
          (case map_of (scales cd) classify of
             None \<Rightarrow> Inl OutOfRange
           | Some classifyScale \<Rightarrow>
               (let haveValidReadahead = (haveReadahead cd \<and> inhop' = prevInhop');
                    cd1 = windowFrames E longest classify inhop' haveValidReadahead input cd;
                    cd2 = (if haveValidReadahead then reuseReadahead classify cd1 else cd1);
                    (cd3, calls3) = transformReadahead E fftBandLimits classify cd2 [];
                    (scales4, calls4) =
                      transformScales E fftBandLimits classify haveValidReadahead
                        (scales cd3) calls3
                in Inr (cd3\<lparr>scales := scales4\<rparr>, calls4))))"

subsection \<open>A channel with a classification scale of size 4 and a longest scale of size 8\<close>

text \<open>
  Stand-ins for the collaborators: windows of ones, a transform that hands back the first
  half of the frame as real part and zeros as imaginary part, and the absolute real part
  and the imaginary part for magnitude and phase.  The channel's previous readahead holds
  the magnitudes 8, 4, 12 and the phases 1, 2, 3.
\<close>

definition plainCollaborators :: Collaborators where
  "plainCollaborators =
     \<lparr>analysisWindow = (\<lambda>n. replicate (nat n) 1),
      forward = (\<lambda>n xs. (take (nat (n div 2 + 1)) xs, replicate (nat (n div 2 + 1)) 0)),
      magnitude = (\<lambda>re im. \<bar>re\<bar>),
      argument = (\<lambda>re im. im)\<rparr>"

definition analysisBandLimits :: "BandLimits list" where
  "analysisBandLimits =
     [\<lparr>BandLimits.fftSize = 4, b0min = 0, b1max = 2\<rparr>,
      \<lparr>BandLimits.fftSize = 8, b0min = 0, b1max = 4\<rparr>]"

definition analysisScale4 :: ChannelScaleData where
  "analysisScale4 =
     \<lparr>bufSize = 3, timeDomain = [5, 5, 5, 5],
      real_buf = [5, 5, 5], imag_buf = [5, 5, 5], mag = [5, 5, 5], phase = [5, 5, 5],
      prevMag = [0, 0, 0], pendingKick = [0, 0, 0]\<rparr>"

definition analysisScale8 :: ChannelScaleData where
  "analysisScale8 =
     \<lparr>bufSize = 5, timeDomain = [6, 6, 6, 6, 6, 6, 6, 6],
      real_buf = [6, 6, 6, 6, 6], imag_buf = [6, 6, 6, 6, 6],
      mag = [6, 6, 6, 6, 6], phase = [6, 6, 6, 6, 6],
      prevMag = [0, 0, 0, 0, 0], pendingKick = [0, 0, 0, 0, 0]\<rparr>"

definition analysisChannel :: ChannelData where
  "analysisChannel =
     \<lparr>scales = [(4, analysisScale4), (8, analysisScale8)],
      readahead = \<lparr>ClassificationReadaheadData.timeDomain = [0, 0, 0, 0],
                   ClassificationReadaheadData.mag = [8, 4, 12],
                   ClassificationReadaheadData.phase = [1, 2, 3]\<rparr>,
      haveReadahead = True,
      formant = \<lparr>FormantData.fftSize = 8\<rparr>,
      guidance = \<lparr>fftBands = [], kick = \<lparr>present = False, f0 = 0, f1 = 0\<rparr>,
                  preKick = \<lparr>present = False, f0 = 0, f1 = 0\<rparr>\<rparr>\<rparr>"

section \<open>Properties of the double arithmetic\<close>

lemma floor_log2:
  fixes x :: real
  assumes "2 powr of_int e \<le> x" and "x < 2 powr of_int (e + 1)"
  shows "\<lfloor>log 2 x\<rfloor> = e"
proof -
  have pos: "0 < x" using assms(1) by (smt (verit) powr_gt_zero)
  show ?thesis using floor_log_eq_powr_iff [of x 2 e] pos assms by simp
qed

lemma rne_int [simp]: "rne (of_int n) = n"
  by (simp add: rne_def)

lemma rne_numeral [simp]: "rne (numeral n) = numeral n"
  using rne_int [of "numeral n"] by simp

lemma rne_lower: "of_int a \<le> x \<Longrightarrow> a \<le> rne x"
proof -
  assume "of_int a \<le> x"
  then have "a \<le> \<lfloor>x\<rfloor>" by (simp add: le_floor_iff)
  moreover have "\<lfloor>x\<rfloor> \<le> rne x" by (simp add: rne_def Let_def)
  ultimately show ?thesis by simp
qed

lemma rne_upper: "x \<le> of_int b \<Longrightarrow> rne x \<le> b"
proof -
  assume b: "x \<le> of_int b"
  have f: "\<lfloor>x\<rfloor> \<le> b" using b by (simp add: floor_le_iff)
  show ?thesis
  proof (cases "x = of_int \<lfloor>x\<rfloor>")
    case True
    then have "rne x = \<lfloor>x\<rfloor>" by (simp add: rne_def)
    with f show ?thesis by simp
  next
    case False
    then have "of_int \<lfloor>x\<rfloor> < x" by (metis of_int_floor_le order_less_le)
    with b have "of_int \<lfloor>x\<rfloor> < (of_int b :: real)" by linarith
    then have "\<lfloor>x\<rfloor> < b" by simp
    then show ?thesis by (auto simp: rne_def Let_def)
  qed
qed

text \<open>
  The rounding of a number of binary exponent \<open>e\<close> between 0 and 52, by integer
  arithmetic.
\<close>

lemma fl_eval:
  fixes x :: real
  assumes "2 ^ e \<le> \<bar>x\<bar>" and "\<bar>x\<bar> < 2 ^ Suc e" and "e \<le> 52"
  shows "fl x = sgn x * of_int (rne (\<bar>x\<bar> * 2 ^ (52 - e))) / 2 ^ (52 - e)"
proof -
  have "2 powr of_int (int e) \<le> \<bar>x\<bar>" using assms(1) by (simp add: powr_realpow)
  moreover have "\<bar>x\<bar> < 2 powr of_int (int e + 1)"
    using assms(2) by (simp add: powr_realpow powr_add)
  ultimately have fl2: "\<lfloor>log 2 \<bar>x\<bar>\<rfloor> = int e" by (rule floor_log2)
  have u: "ulpExponent x = - int (52 - e)"
    using assms(3) by (simp add: ulpExponent_def fl2)
  have p: "(2::real) powr of_int (ulpExponent x) = 1 / 2 ^ (52 - e)"
    by (simp add: u powr_minus powr_realpow divide_simps)
  have nz: "x \<noteq> 0"
  proof
    assume "x = 0"
    with assms(1) have "(2::real) ^ e \<le> 0" by simp
    moreover have "(0::real) < 2 ^ e" by (rule zero_less_power) simp
    ultimately show False by linarith
  qed
  show ?thesis using nz by (simp add: fl_def p)
qed

lemma rounded_eval:
  fixes x :: real
  assumes "2 ^ e \<le> \<bar>x\<bar>" and "\<bar>x\<bar> < 2 ^ Suc e" and "e \<le> 52"
  shows "rounded x b = Finite (sgn x * of_int (rne (\<bar>x\<bar> * 2 ^ (52 - e))) / 2 ^ (52 - e))"
proof -
  let ?k = "52 - e"
  let ?n = "rne (\<bar>x\<bar> * 2 ^ ?k)"
  note f = fl_eval [OF assms]
  have e: "e + ?k = 52" using assms(3) by simp
  have "(2::real) ^ e * 2 ^ ?k \<le> \<bar>x\<bar> * 2 ^ ?k" using assms(1) by simp
  then have "of_int (2 ^ 52) \<le> \<bar>x\<bar> * 2 ^ ?k" by (simp add: power_add [symmetric] e)
  then have lo: "2 ^ 52 \<le> ?n" by (rule rne_lower)
  have "\<bar>x\<bar> * 2 ^ ?k \<le> (2::real) ^ Suc e * 2 ^ ?k" using assms(2) by simp
  also have "\<dots> = 2 ^ 53" using e by (simp add: power_add [symmetric])
  finally have "\<bar>x\<bar> * 2 ^ ?k \<le> of_int (2 ^ 53)" by simp
  then have hi: "?n \<le> 2 ^ 53" by (rule rne_upper)
  have nz: "x \<noteq> 0"
  proof
    assume "x = 0"
    with assms(1) have "(2::real) ^ e \<le> 0" by simp
    moreover have "(0::real) < 2 ^ e" by (rule zero_less_power) simp
    ultimately show False by linarith
  qed
  have a: "\<bar>fl x\<bar> = of_int ?n / 2 ^ ?k"
    using lo nz by (simp add: f abs_mult)
  have "of_int ?n / (2::real) ^ ?k \<le> of_int ?n"
    using lo by (simp add: divide_le_eq mult_le_cancel_left1)
  also have "\<dots> \<le> 2 ^ 53" using hi by (metis of_int_le_iff of_int_numeral of_int_power)
  also have "\<dots> < (2::real) ^ 1024" by simp
  finally have small: "\<bar>fl x\<bar> < 2 ^ 1024" by (simp add: a)
  have "0 < of_int ?n / (2::real) ^ ?k" using lo by simp
  then have "fl x \<noteq> 0" using a by auto
  with small nz show ?thesis by (simp add: rounded_def f)
qed

lemma rounded_of_int:
  assumes "i \<noteq> 0" and "\<bar>i\<bar> < 2 ^ 53"
  shows "rounded (of_int i) b = Finite (of_int i)"
proof -
  have "1 \<le> nat \<bar>i\<bar>" using assms(1) by simp
  from ex_power_ivl1 [OF _ this, of 2]
  obtain e where e: "2 ^ e \<le> nat \<bar>i\<bar>" "nat \<bar>i\<bar> < 2 ^ (e + 1)" by auto
  have "int (nat \<bar>i\<bar>) < int (2 ^ 53)" using assms(2) by simp
  then have "nat \<bar>i\<bar> < 2 ^ 53" by (simp only: of_nat_less_iff)
  with e(1) have lt: "(2::nat) ^ e < 2 ^ 53" by linarith
  have "e < 53" by (rule power_less_imp_less_exp [of 2]) (use lt in simp_all)
  then have e52: "e \<le> 52" by simp
  have r: "real (nat \<bar>i\<bar>) = \<bar>of_int i\<bar>" by simp
  have lo: "2 ^ e \<le> \<bar>of_int i :: real\<bar>"
    using e(1) unfolding r [symmetric] by (metis of_nat_le_iff of_nat_numeral of_nat_power)
  have hi: "\<bar>of_int i :: real\<bar> < 2 ^ Suc e"
    using e(2) unfolding r [symmetric] by (metis Suc_eq_plus1 of_nat_less_iff of_nat_numeral of_nat_power)
  have "\<bar>of_int i :: real\<bar> * 2 ^ (52 - e) = of_int (\<bar>i\<bar> * 2 ^ (52 - e))" by simp
  then have n: "rne (\<bar>of_int i :: real\<bar> * 2 ^ (52 - e)) = \<bar>i\<bar> * 2 ^ (52 - e)"
    by (simp only: rne_int)
  have "sgn (of_int i :: real) * of_int \<bar>i\<bar> = of_int i"
    by (simp add: sgn_if)
  then show ?thesis
    by (simp add: rounded_eval [OF lo hi e52] n)
qed

lemma d_of_int_small: "\<bar>i\<bar> < 2 ^ 53 \<Longrightarrow> d_of_int i = Finite (of_int i)"
  by (cases "i = 0") (simp_all add: d_of_int_def rounded_of_int, simp add: rounded_def signedZero_def)

lemma rounded_not_NaN [simp]: "rounded x b \<noteq> NaN"
  by (simp add: rounded_def signedZero_def signedInf_def)

text \<open>Division by one is exact.\<close>

lemma d_div_one:
  assumes "i \<noteq> 0" and "\<bar>i\<bar> < 2 ^ 53"
  shows "d_div (Finite (of_int i)) (Finite 1) = Finite (of_int i)"
  using assms by (simp add: d_div_def isInf_def isZero_def rounded_of_int)

section \<open>Properties of the hop scheduler\<close>

lemma proposedOuthop_clamp:
  "r \<noteq> NaN \<Longrightarrow> proposedOuthop M r = d_clamp (Finite 128) (Finite 512) (spec_outhop M r)"
  by (cases r)
     (auto simp: proposedOuthop_def d_clamp_def spec_outhop_def Let_def d_less_def d_le_def
        d_greater_def)

lemma idealInhop_clamp:
  "idealInhop M r = d_clamp (Finite 1) (Finite 1024) (d_div (proposedOuthop M r) r)"
  by (cases "d_div (proposedOuthop M r) r")
     (auto simp: idealInhop_def d_clamp_def Let_def d_less_def d_greater_def)

lemma d_mul_positive:
  assumes "d_greater t (Finite 0)" and "d_greater p (Finite 0)"
  shows "d_mul t p \<noteq> NaN"
  using assms
  by (cases t; cases p)
     (auto simp: d_mul_def d_greater_def d_less_def isInf_def isZero_def signedInf_def)

text \<open>
  The stored hop lies between 1 and 1024; the conversion to \<open>int\<close> is undefined exactly
  when the ideal input hop is a NaN.
\<close>

lemma idealInhop_range:
  "idealInhop M r = NaN \<or> (\<exists>v. idealInhop M r = Finite v \<and> 1 \<le> v \<and> v \<le> 1024)"
  by (cases "d_div (proposedOuthop M r) r")
     (auto simp: idealInhop_def Let_def d_less_def d_greater_def)

lemma calculateHop_range:
  "calculateHop M r = Inr h \<Longrightarrow> 1 \<le> h \<and> h \<le> 1024"
  using idealInhop_range [of M r]
  by (auto simp: calculateHop_def to_int_def isInf_def truncated_def le_floor_iff floor_le_iff
      split: if_splits)

lemma calculateHop_defined:
  "idealInhop M r \<noteq> NaN \<Longrightarrow> \<exists>h. calculateHop M r = Inr h"
  using idealInhop_range [of M r]
  by (auto simp: calculateHop_def to_int_def isInf_def truncated_def le_floor_iff floor_less_iff)

text \<open>Two hops of the examples: ratios 81/64 and 1.\<close>

lemma hop_example_product:
  "calculateHop M (Finite (81/64)) = Inr 202" "hopWarnings M (Finite (81/64)) = []"
proof -
  have r: "rounded (16384/81) False = Finite (7116799411153376 / 2 ^ 45)"
    by (subst rounded_eval [where e = 7]) (simp_all add: rne_def Let_def)
  have i: "d_div (proposedOuthop M (Finite (81/64))) (Finite (81/64)) = Finite (7116799411153376 / 2 ^ 45)"
    using r by (simp add: proposedOuthop_def d_div_def d_less_def d_greater_def isInf_def isZero_def)
  show "calculateHop M (Finite (81/64)) = Inr 202"
    by (simp add: calculateHop_def idealInhop_def i d_less_def d_greater_def to_int_def
        isInf_def truncated_def)
  show "hopWarnings M (Finite (81/64)) = []"
    by (simp add: hopWarnings_def i d_less_def d_greater_def)
qed

lemma hop_example_one: "calculateHop M (Finite 1) = Inr 256" "hopWarnings M (Finite 1) = []"
proof -
  have i: "d_div (proposedOuthop M (Finite 1)) (Finite 1) = Finite 256"
    using d_div_one [of 256]
    by (simp add: proposedOuthop_def d_less_def d_greater_def)
  show "calculateHop M (Finite 1) = Inr 256"
    by (simp add: calculateHop_def idealInhop_def i d_less_def d_greater_def to_int_def
        isInf_def truncated_def)
  show "hopWarnings M (Finite 1) = []"
    by (simp add: hopWarnings_def i d_less_def d_greater_def)
qed

text \<open>
  The double nearest to 1.28 is \<open>5764607523034235 / 2^52\<close>, a little above 1.28 (\<open>2^52 = 4503599627370496\<close>).  With it
  as time ratio and a pitch scale of 1 the exact quotient \<open>256 / ratio\<close> lies just below
  200; the quotient in double precision is 200, and 200 is the hop stored.
\<close>

lemma hop_example_rounding:
  "256 / (5764607523034235 / 4503599627370496) < (200 :: real)"
  "calculateHop M (getEffectiveRatio (Finite (5764607523034235 / 4503599627370496)) (Finite 1)) = Inr 200"
proof -
  show "256 / (5764607523034235 / 4503599627370496) < (200 :: real)" by simp
  have m: "rounded (5764607523034235 / 4503599627370496) False = Finite (5764607523034235 / 4503599627370496)"
    by (subst rounded_eval [where e = 0]) (simp_all add: rne_def Let_def)
  have e: "getEffectiveRatio (Finite (5764607523034235 / 4503599627370496)) (Finite 1)
             = Finite (5764607523034235 / 4503599627370496)"
    using m by (simp add: getEffectiveRatio_def d_mul_def isInf_def)
  have r: "rounded (256 / (5764607523034235 / 4503599627370496)) False = Finite 200"
    by (subst rounded_eval [where e = 7]) (simp_all add: rne_def Let_def)
  have i: "d_div (proposedOuthop M (Finite (5764607523034235 / 4503599627370496)))
                 (Finite (5764607523034235 / 4503599627370496)) = Finite 200"
    using r by (simp add: proposedOuthop_def d_div_def d_less_def d_greater_def isInf_def isZero_def)
  show "calculateHop M (getEffectiveRatio (Finite (5764607523034235 / 4503599627370496)) (Finite 1)) = Inr 200"
    by (simp add: e calculateHop_def idealInhop_def i d_less_def d_greater_def to_int_def
        isInf_def truncated_def)
qed

lemma ratio_example_product: "d_mul (Finite (9/8)) (Finite (9/8)) = Finite (81/64)"
proof -
  have "rounded (81/64) False = Finite (81/64)"
    by (subst rounded_eval [where e = 0]) (simp_all add: rne_def Let_def)
  then show ?thesis by (simp add: d_mul_def isInf_def)
qed

lemma ratio_example_quotient: "d_div (Finite (9/8)) (Finite (9/8)) = Finite 1"
  using rounded_of_int [of 1 False] by (simp add: d_div_def isInf_def isZero_def)




section \<open>Properties of the transient deferrer\<close>

lemma preKickBin_Inr:
  assumes "preKickBin i sc = Inr sc'"
  shows "prevMag sc' = prevMag sc"
    and "length (mag sc') = length (mag sc)"
    and "length (pendingKick sc') = length (pendingKick sc)"
    and "mag sc' ! k = (if int k = i \<and> mag sc ! k - prevMag sc ! k > 0
                        then mag sc ! k - (mag sc ! k - prevMag sc ! k) else mag sc ! k)"
    and "pendingKick sc' ! k = (if int k = i \<and> mag sc ! k - prevMag sc ! k > 0
                        then mag sc ! k - prevMag sc ! k else pendingKick sc ! k)"
  using assms
  by (auto simp: preKickBin_def inBounds_def Let_def nth_list_update split: if_splits)

lemma preKickLoop_Inr:
  assumes "preKickLoop i to sc = Inr sc'"
  shows "prevMag sc' = prevMag sc \<and> length (mag sc') = length (mag sc)
       \<and> length (pendingKick sc') = length (pendingKick sc)
       \<and> (\<forall>k. mag sc' ! k = (if i \<le> int k \<and> int k \<le> to \<and> mag sc ! k - prevMag sc ! k > 0
                        then mag sc ! k - (mag sc ! k - prevMag sc ! k) else mag sc ! k))
       \<and> (\<forall>k. pendingKick sc' ! k = (if i \<le> int k \<and> int k \<le> to \<and> mag sc ! k - prevMag sc ! k > 0
                        then mag sc ! k - prevMag sc ! k else pendingKick sc ! k))"
  using assms
proof (induction i to sc rule: preKickLoop.induct)
  case (1 i to sc)
  show ?case
  proof (cases "i \<le> to")
    case False
    with "1.prems" show ?thesis by (simp add: preKickLoop.simps [of i to sc])
  next
    case True
    with "1.prems" obtain sc1 where b: "preKickBin i sc = Inr sc1"
      and l: "preKickLoop (i + 1) to sc1 = Inr sc'"
      by (auto simp: preKickLoop.simps [of i to sc] split: sum.splits)
    note ih = "1.IH" [OF True b l]
    note st = preKickBin_Inr [OF b]
    show ?thesis
      using ih st(1,2,3) True
      apply (intro conjI allI)
          apply simp
         apply simp
        apply simp
      subgoal for k
        using st(4) [of k] st(5) [of k] by auto
      subgoal for k
        using st(4) [of k] st(5) [of k] by auto
      done
  qed
qed

lemma preKickLoop_succeeds:
  assumes "0 \<le> i" and "to < int (length (mag sc))"
    and "length (prevMag sc) = length (mag sc)"
    and "length (pendingKick sc) = length (mag sc)"
  shows "\<exists>sc'. preKickLoop i to sc = Inr sc'"
  using assms
proof (induction i to sc rule: preKickLoop.induct)
  case (1 i to sc)
  show ?case
  proof (cases "i \<le> to")
    case False
    then show ?thesis by (simp add: preKickLoop.simps [of i to sc])
  next
    case True
    have "\<exists>sc1. preKickBin i sc = Inr sc1"
      using True "1.prems" by (simp add: preKickBin_def inBounds_def Let_def)
    then obtain sc1 where b: "preKickBin i sc = Inr sc1" ..
    note st = preKickBin_Inr(1,2,3) [OF b]
    have "\<exists>sc'. preKickLoop (i + 1) to sc1 = Inr sc'"
      using "1.IH" [OF True b] "1.prems" st by simp
    with True b show ?thesis by (simp add: preKickLoop.simps [of i to sc])
  qed
qed

lemma kickBin_Inr:
  assumes "kickBin i sc = Inr sc'"
  shows "prevMag sc' = prevMag sc"
    and "length (mag sc') = length (mag sc)"
    and "length (pendingKick sc') = length (pendingKick sc)"
    and "mag sc' ! k = (if int k = i then mag sc ! k + pendingKick sc ! k else mag sc ! k)"
    and "pendingKick sc' ! k = (if int k = i then 0 else pendingKick sc ! k)"
  using assms
  by (auto simp: kickBin_def inBounds_def nth_list_update split: if_splits)

lemma kickLoop_Inr:
  assumes "kickLoop i to sc = Inr sc'"
  shows "prevMag sc' = prevMag sc \<and> length (mag sc') = length (mag sc)
       \<and> length (pendingKick sc') = length (pendingKick sc)
       \<and> (\<forall>k. mag sc' ! k = (if i \<le> int k \<and> int k \<le> to
                        then mag sc ! k + pendingKick sc ! k else mag sc ! k))
       \<and> (\<forall>k. pendingKick sc' ! k = (if i \<le> int k \<and> int k \<le> to
                        then 0 else pendingKick sc ! k))"
  using assms
proof (induction i to sc rule: kickLoop.induct)
  case (1 i to sc)
  show ?case
  proof (cases "i \<le> to")
    case False
    with "1.prems" show ?thesis by (simp add: kickLoop.simps [of i to sc])
  next
    case True
    with "1.prems" obtain sc1 where b: "kickBin i sc = Inr sc1"
      and l: "kickLoop (i + 1) to sc1 = Inr sc'"
      by (auto simp: kickLoop.simps [of i to sc] split: sum.splits)
    note ih = "1.IH" [OF True b l]
    note st = kickBin_Inr [OF b]
    show ?thesis
      using ih st(1,2,3) True
      apply (intro conjI allI)
          apply simp
         apply simp
        apply simp
      subgoal for k
        using st(4) [of k] st(5) [of k] by auto
      subgoal for k
        using st(4) [of k] st(5) [of k] by auto
      done
  qed
qed

lemma kickLoop_succeeds:
  assumes "0 \<le> i" and "to < int (length (mag sc))"
    and "length (pendingKick sc) = length (mag sc)"
  shows "\<exists>sc'. kickLoop i to sc = Inr sc'"
  using assms
proof (induction i to sc rule: kickLoop.induct)
  case (1 i to sc)
  show ?case
  proof (cases "i \<le> to")
    case False
    then show ?thesis by (simp add: kickLoop.simps [of i to sc])
  next
    case True
    have "\<exists>sc1. kickBin i sc = Inr sc1"
      using True "1.prems" by (simp add: kickBin_def inBounds_def)
    then obtain sc1 where b: "kickBin i sc = Inr sc1" ..
    note st = kickBin_Inr(1,2,3) [OF b]
    have "\<exists>sc'. kickLoop (i + 1) to sc1 = Inr sc'"
      using "1.IH" [OF True b] "1.prems" st by simp
    with True b show ?thesis by (simp add: kickLoop.simps [of i to sc])
  qed
qed

text \<open>
  What \<open>adjustPreKick\<close> does to a channel whose guidance names a scale the channel has and
  whose pre-kick bin range lies inside the buffers: it returns, touching only that scale.
\<close>

lemma adjustPreKick_char:
  assumes bands: "fftBands (guidance cd) = band # rest"
    and n: "n = FftBand.fftSize band"
    and sc: "map_of (scales cd) n = Some sc"
    and len: "length (prevMag sc) = length (mag sc)" "length (pendingKick sc) = length (mag sc)"
    and "from": "from = binForFrequency (f0 (preKick (guidance cd))) n sampleRate"
    and to: "to = binForFrequency (f1 (preKick (guidance cd))) n sampleRate"
    and bounds: "0 \<le> from" "to < int (length (mag sc))"
  shows "\<exists>sc'. adjustPreKick sampleRate cd = Inr (cd\<lparr>scales := AList.update n sc' (scales cd)\<rparr>)
           \<and> prevMag sc' = prevMag sc
           \<and> length (mag sc') = length (mag sc)
           \<and> length (pendingKick sc') = length (pendingKick sc)
           \<and> (if present (preKick (guidance cd)) then
                 \<forall>k. (inRange from to k \<and> mag sc ! k - prevMag sc ! k > 0 \<longrightarrow>
                        pendingKick sc' ! k = mag sc ! k - prevMag sc ! k
                      \<and> mag sc' ! k = mag sc ! k - (mag sc ! k - prevMag sc ! k))
                   \<and> (\<not> (inRange from to k \<and> mag sc ! k - prevMag sc ! k > 0) \<longrightarrow>
                        pendingKick sc' ! k = pendingKick sc ! k \<and> mag sc' ! k = mag sc ! k)
               else if present (kick (guidance cd)) then
                 \<forall>k. (inRange from to k \<longrightarrow>
                        mag sc' ! k = mag sc ! k + pendingKick sc ! k \<and> pendingKick sc' ! k = 0)
                   \<and> (\<not> inRange from to k \<longrightarrow>
                        mag sc' ! k = mag sc ! k \<and> pendingKick sc' ! k = pendingKick sc ! k)
               else sc' = sc)"
proof (cases "present (preKick (guidance cd))")
  case True
  obtain sc' where l: "preKickLoop from to sc = Inr sc'"
    using preKickLoop_succeeds [OF bounds len] by blast
  have r: "adjustPreKick sampleRate cd = Inr (cd\<lparr>scales := AList.update n sc' (scales cd)\<rparr>)"
    using True bands n sc l "from" to by (simp add: adjustPreKick_def Let_def)
  show ?thesis
    using r True preKickLoop_Inr [OF l] by (intro exI [of _ sc']) (simp add: inRange_def)
next
  case False
  note nopre = False
  show ?thesis
  proof (cases "present (kick (guidance cd))")
    case True
    obtain sc' where l: "kickLoop from to sc = Inr sc'"
      using kickLoop_succeeds [OF bounds len(2)] by blast
    have r: "adjustPreKick sampleRate cd = Inr (cd\<lparr>scales := AList.update n sc' (scales cd)\<rparr>)"
      using True nopre bands n sc l "from" to by (simp add: adjustPreKick_def Let_def)
    show ?thesis
      using r True nopre kickLoop_Inr [OF l] by (intro exI [of _ sc']) (simp add: inRange_def)
  next
    case False
    have "AList.update n sc (scales cd) = scales cd"
      using sc by (rule AList.update_triv)
    then have r: "adjustPreKick sampleRate cd = Inr (cd\<lparr>scales := AList.update n sc (scales cd)\<rparr>)"
      using False nopre bands by (simp add: adjustPreKick_def Let_def)
    show ?thesis
      using r False nopre by (intro exI [of _ sc]) simp
  qed
qed

lemma preKickFrame_run: "adjustPreKick 100 preKickFrame = Inr afterPreKickFrame"
  by (simp add: adjustPreKick_def preKickFrame_def afterPreKickFrame_def exampleChannel_def
      exampleScale_def preKickGuidance_def binForFrequency_def c_round_def Let_def
      preKickLoop.simps preKickBin_def inBounds_def)

text \<open>
  C4: the transient deferrer works on the scale of the lowest active band,
  \<open>guidance.fftBands[0].fftSize\<close>.  When \<open>guidance.preKick\<close> is present, every bin \<open>k\<close> of
  the range \<open>[round(f0 * fftSize / sampleRate), round(f1 * fftSize / sampleRate)]\<close> whose
  magnitude exceeds the previous magnitude gets that difference stored in \<open>pendingKick\<close>
  and subtracted from \<open>mag\<close>, and every other bin is left as it was.  Otherwise, when
  \<open>guidance.kick\<close> is present, every bin of the range derived from \<open>preKick.f0\<close> and
  \<open>preKick.f1\<close> has its pending value added to \<open>mag\<close> and cleared, and every other bin is
  left as it was.  With neither present nothing changes.
\<close>

theorem adjustPreKick_spec:
  assumes "fftBands (guidance cd) = band # rest"
    and "n = FftBand.fftSize band"
    and "map_of (scales cd) n = Some sc"
    and "length (prevMag sc) = length (mag sc)"
    and "length (pendingKick sc) = length (mag sc)"
    and "from = binForFrequency (f0 (preKick (guidance cd))) n sampleRate"
    and "to = binForFrequency (f1 (preKick (guidance cd))) n sampleRate"
    and "0 \<le> from" and "to < int (length (mag sc))"
  shows "\<exists>sc'. adjustPreKick sampleRate cd = Inr (cd\<lparr>scales := AList.update n sc' (scales cd)\<rparr>)
           \<and> prevMag sc' = prevMag sc
           \<and> (if present (preKick (guidance cd)) then
                 \<forall>k. (inRange from to k \<and> mag sc ! k - prevMag sc ! k > 0 \<longrightarrow>
                        pendingKick sc' ! k = mag sc ! k - prevMag sc ! k
                      \<and> mag sc' ! k = mag sc ! k - (mag sc ! k - prevMag sc ! k))
                   \<and> (\<not> (inRange from to k \<and> mag sc ! k - prevMag sc ! k > 0) \<longrightarrow>
                        pendingKick sc' ! k = pendingKick sc ! k \<and> mag sc' ! k = mag sc ! k)
               else if present (kick (guidance cd)) then
                 \<forall>k. (inRange from to k \<longrightarrow>
                        mag sc' ! k = mag sc ! k + pendingKick sc ! k \<and> pendingKick sc' ! k = 0)
                   \<and> (\<not> inRange from to k \<longrightarrow>
                        mag sc' ! k = mag sc ! k \<and> pendingKick sc' ! k = pendingKick sc ! k)
               else sc' = sc)"
proof -
  from adjustPreKick_char [OF assms]
  obtain sc' where r: "adjustPreKick sampleRate cd = Inr (cd\<lparr>scales := AList.update n sc' (scales cd)\<rparr>)"
    and p: "prevMag sc' = prevMag sc"
    and c: "if present (preKick (guidance cd)) then
                 \<forall>k. (inRange from to k \<and> mag sc ! k - prevMag sc ! k > 0 \<longrightarrow>
                        pendingKick sc' ! k = mag sc ! k - prevMag sc ! k
                      \<and> mag sc' ! k = mag sc ! k - (mag sc ! k - prevMag sc ! k))
                   \<and> (\<not> (inRange from to k \<and> mag sc ! k - prevMag sc ! k > 0) \<longrightarrow>
                        pendingKick sc' ! k = pendingKick sc ! k \<and> mag sc' ! k = mag sc ! k)
               else if present (kick (guidance cd)) then
                 \<forall>k. (inRange from to k \<longrightarrow>
                        mag sc' ! k = mag sc ! k + pendingKick sc ! k \<and> pendingKick sc' ! k = 0)
                   \<and> (\<not> inRange from to k \<longrightarrow>
                        mag sc' ! k = mag sc ! k \<and> pendingKick sc' ! k = pendingKick sc ! k)
               else sc' = sc"
    by blast
  from r p c show ?thesis by blast
qed

text \<open>
  The theorem at the pre-kick frame of the example: bins 1 to 3 are in range, bins 1 and 3
  rise (by 2 and by 6), bin 2 falls and bin 0 is out of range.
\<close>

theorem adjustPreKick_spec_witness:
  "\<exists>sc'. adjustPreKick 100 preKickFrame = Inr (preKickFrame\<lparr>scales := AList.update 4 sc' (scales preKickFrame)\<rparr>)
        \<and> pendingKick sc' ! 1 = 2 \<and> mag sc' ! 1 = 3
        \<and> pendingKick sc' ! 3 = 6 \<and> mag sc' ! 3 = 1
        \<and> pendingKick sc' ! 2 = 0 \<and> mag sc' ! 2 = 2
        \<and> pendingKick sc' ! 0 = 0 \<and> mag sc' ! 0 = 1"
proof -
  let ?sc = "exampleScale [1, 5, 2, 7] [1, 3, 4, 1] [0, 0, 0, 0]"
  let ?band = "\<lparr>FftBand.fftSize = 4, FftBand.f0 = 0, FftBand.f1 = 100\<rparr>"
  have h1: "fftBands (guidance preKickFrame) = ?band # []"
    by (simp add: preKickFrame_def exampleChannel_def preKickGuidance_def)
  have h2: "4 = FftBand.fftSize ?band" by simp
  have h3: "map_of (scales preKickFrame) 4 = Some ?sc"
    by (simp add: preKickFrame_def exampleChannel_def)
  have h4: "length (prevMag ?sc) = length (mag ?sc)" by (simp add: exampleScale_def)
  have h5: "length (pendingKick ?sc) = length (mag ?sc)" by (simp add: exampleScale_def)
  have h6: "1 = binForFrequency (f0 (preKick (guidance preKickFrame))) 4 100"
    by (simp add: preKickFrame_def exampleChannel_def preKickGuidance_def
        binForFrequency_def c_round_def)
  have h7: "3 = binForFrequency (f1 (preKick (guidance preKickFrame))) 4 100"
    by (simp add: preKickFrame_def exampleChannel_def preKickGuidance_def
        binForFrequency_def c_round_def)
  have h8: "(0::int) \<le> 1" by simp
  have h9: "3 < int (length (mag ?sc))" by (simp add: exampleScale_def)
  have p: "present (preKick (guidance preKickFrame))"
    by (simp add: preKickFrame_def exampleChannel_def preKickGuidance_def)
  from adjustPreKick_spec [OF h1 h2 h3 h4 h5 h6 h7 h8 h9] p
  obtain sc' where r: "adjustPreKick 100 preKickFrame
        = Inr (preKickFrame\<lparr>scales := AList.update 4 sc' (scales preKickFrame)\<rparr>)"
    and c: "\<And>k. (inRange 1 3 k \<and> mag ?sc ! k - prevMag ?sc ! k > 0 \<longrightarrow>
                        pendingKick sc' ! k = mag ?sc ! k - prevMag ?sc ! k
                      \<and> mag sc' ! k = mag ?sc ! k - (mag ?sc ! k - prevMag ?sc ! k))
                   \<and> (\<not> (inRange 1 3 k \<and> mag ?sc ! k - prevMag ?sc ! k > 0) \<longrightarrow>
                        pendingKick sc' ! k = pendingKick ?sc ! k \<and> mag sc' ! k = mag ?sc ! k)"
    by auto
  from c [of 0] c [of 1] c [of 2] c [of 3]
  have "pendingKick sc' ! 1 = 2 \<and> mag sc' ! 1 = 3
        \<and> pendingKick sc' ! 3 = 6 \<and> mag sc' ! 3 = 1
        \<and> pendingKick sc' ! 2 = 0 \<and> mag sc' ! 2 = 2
        \<and> pendingKick sc' ! 0 = 0 \<and> mag sc' ! 0 = 1"
    by (simp add: inRange_def exampleScale_def)
  with r show ?thesis by blast
qed


lemma matchingKickFrame_run:
  "adjustPreKick 100 matchingKickFrame
     = Inr (exampleChannel matchingKickGuidance (exampleScale [1, 6, 4, 10] [1, 3, 2, 1] [0, 0, 0, 0]))"
  by (simp add: adjustPreKick_def matchingKickFrame_def exampleChannel_def
      exampleScale_def matchingKickGuidance_def binForFrequency_def c_round_def Let_def
      kickLoop.simps kickBin_def inBounds_def)


section \<open>Properties of the formant adjustment\<close>

lemma clamp_two_steps:
  "(if (if x < lo then lo else x) > hi then hi else (if x < lo then lo else x)) = clamp lo hi x"
  if "lo \<le> hi" for x :: real
  using that by (auto simp: clamp_def max_def min_def)

lemma formantRatio_clamp: "formantRatio source target = clamp (1/60) 60 (source / target)"
proof -
  define x where "x = source / target"
  have "formantRatio source target
          = (if (if x < 1/60 then 1/60 else x) > 60 then 60 else (if x < 1/60 then 1/60 else x))"
    unfolding formantRatio_def Let_def x_def by (rule refl)
  also have "\<dots> = clamp (1/60) 60 x"
    by (rule clamp_two_steps) simp
  finally show ?thesis by (simp only: x_def)
qed

lemma formantBin_Inr:
  assumes "formantBin env sf tf i sc = Inr sc'"
  shows "length (mag sc') = length (mag sc)"
    and "mag sc' ! k = (if int k = i \<and> env (real k * tf) > 0
                        then mag sc ! k * formantRatio (env (real k * sf)) (env (real k * tf))
                        else mag sc ! k)"
  using assms
  by (auto simp: formantBin_def inBounds_def Let_def nth_list_update split: if_splits)

lemma formantBinLoop_Inr:
  assumes "formantBinLoop env sf tf i hi hb sc = Inr sc'"
  shows "length (mag sc') = length (mag sc)
       \<and> (\<forall>k. mag sc' ! k = (if i \<le> int k \<and> int k < hi \<and> int k < hb \<and> env (real k * tf) > 0
                        then mag sc ! k * formantRatio (env (real k * sf)) (env (real k * tf))
                        else mag sc ! k))"
  using assms
proof (induction env sf tf i hi hb sc rule: formantBinLoop.induct)
  case (1 env sf tf i hi hb sc)
  show ?case
  proof (cases "i < hi \<and> i < hb")
    case False
    with "1.prems" have "sc' = sc"
      by (simp add: formantBinLoop.simps [of env sf tf i hi hb sc])
    with False show ?thesis by auto
  next
    case True
    with "1.prems" obtain sc1 where b: "formantBin env sf tf i sc = Inr sc1"
      and l: "formantBinLoop env sf tf (i + 1) hi hb sc1 = Inr sc'"
      by (auto simp: formantBinLoop.simps [of env sf tf i hi hb sc] split: sum.splits)
    note ih = "1.IH" [OF True b l]
    note st = formantBin_Inr [OF b]
    show ?thesis
    proof (intro conjI allI)
      show "length (mag sc') = length (mag sc)" using ih st(1) by simp
    next
      fix k
      show "mag sc' ! k = (if i \<le> int k \<and> int k < hi \<and> int k < hb \<and> env (real k * tf) > 0
                        then mag sc ! k * formantRatio (env (real k * sf)) (env (real k * tf))
                        else mag sc ! k)"
        using ih st(2) [of k] True by auto
    qed
  qed
qed

lemma formantBinLoop_succeeds:
  assumes "0 \<le> i" and "min hi hb \<le> int (length (mag sc))"
  shows "\<exists>sc'. formantBinLoop env sf tf i hi hb sc = Inr sc'"
  using assms
proof (induction env sf tf i hi hb sc rule: formantBinLoop.induct)
  case (1 env sf tf i hi hb sc)
  show ?case
  proof (cases "i < hi \<and> i < hb")
    case False
    then show ?thesis using formantBinLoop.simps [of env sf tf i hi hb sc] by auto
  next
    case True
    have "i < int (length (mag sc))"
      using True "1.prems"(2) by linarith
    then have "\<exists>sc1. formantBin env sf tf i sc = Inr sc1"
      using "1.prems"(1) by (simp add: formantBin_def inBounds_def Let_def)
    then obtain sc1 where b: "formantBin env sf tf i sc = Inr sc1" ..
    have "\<exists>sc'. formantBinLoop env sf tf (i + 1) hi hb sc1 = Inr sc'"
      using "1.IH" [OF True b] "1.prems" formantBin_Inr(1) [OF b] by simp
    with True b show ?thesis by (simp add: formantBinLoop.simps [of env sf tf i hi hb sc])
  qed
qed

lemma formantBands_filter:
  "formantBands env sf tf hb n bands sc
     = formantBands env sf tf hb n (filter (\<lambda>b. BandLimits.fftSize b = n) bands) sc"
  by (induction bands arbitrary: sc) (auto split: sum.splits)

lemma formantBands_succeeds:
  assumes "\<forall>b \<in> set bands. BandLimits.fftSize b = n \<longrightarrow>
             0 \<le> b0min b \<and> min (b1max b) hb \<le> int (length (mag sc))"
  shows "\<exists>sc'. formantBands env sf tf hb n bands sc = Inr sc' \<and> length (mag sc') = length (mag sc)"
  using assms
proof (induction bands arbitrary: sc)
  case Nil
  then show ?case by simp
next
  case (Cons b bs)
  show ?case
  proof (cases "BandLimits.fftSize b = n")
    case False
    with Cons show ?thesis by simp
  next
    case True
    with Cons.prems have "0 \<le> b0min b" "min (b1max b) hb \<le> int (length (mag sc))" by simp_all
    from formantBinLoop_succeeds [OF this]
    obtain sc1 where l: "formantBinLoop env sf tf (b0min b) (b1max b) hb sc = Inr sc1" by blast
    have len: "length (mag sc1) = length (mag sc)" using formantBinLoop_Inr [OF l] by simp
    have "\<exists>sc'. formantBands env sf tf hb n bs sc1 = Inr sc' \<and> length (mag sc') = length (mag sc1)"
      using Cons.IH [of sc1] Cons.prems len by simp
    with True l len show ?thesis by simp
  qed
qed

lemma adjustFormantScales_succeeds:
  assumes "\<forall>(n, sc) \<in> set al. \<exists>sc'. adjustFormantScale ea sr fs ps bands f n sc = Inr sc'"
  shows "\<exists>al'. adjustFormantScales ea sr fs ps bands f al = Inr al'"
  using assms
proof (induction al)
  case Nil
  then show ?case by simp
next
  case (Cons p al)
  obtain n sc where p: "p = (n, sc)" by (cases p)
  from Cons.prems p obtain sc' where s: "adjustFormantScale ea sr fs ps bands f n sc = Inr sc'"
    by auto
  from Cons obtain al' where r: "adjustFormantScales ea sr fs ps bands f al = Inr al'"
    by auto
  from p s r show ?case by simp
qed

lemma adjustFormantScales_lookup:
  assumes "adjustFormantScales ea sr fs ps bands f al = Inr al'"
  shows "map fst al' = map fst al
       \<and> (\<forall>n sc. map_of al n = Some sc \<longrightarrow>
             (\<exists>sc'. adjustFormantScale ea sr fs ps bands f n sc = Inr sc' \<and> map_of al' n = Some sc'))"
  using assms
proof (induction al arbitrary: al')
  case Nil
  then show ?case by simp
next
  case (Cons p al)
  obtain n sc where p: "p = (n, sc)" by (cases p)
  from Cons.prems p obtain sc' rest' where
    s: "adjustFormantScale ea sr fs ps bands f n sc = Inr sc'"
    and r: "adjustFormantScales ea sr fs ps bands f al = Inr rest'"
    and al': "al' = (n, sc') # rest'"
    by (auto split: sum.splits)
  from Cons.IH [OF r] p s al' show ?case by auto
qed

text \<open>
  One band of FFT size \<open>n\<close>: the scale's magnitudes are rescaled on the half-open bin
  range from \<open>b0min\<close> up to, and without, the smaller of \<open>b1max\<close> and the 10 kHz bin.
\<close>

lemma adjustFormantScale_one_band:
  assumes band: "filter (\<lambda>b. BandLimits.fftSize b = n) bands = [b]"
    and r: "adjustFormantScale ea sr fs ps bands f n sc = Inr sc'"
  shows "mag sc' ! k =
          (if b0min b \<le> int k \<and> int k < formantRangeTop sr b \<and> 0 < formantTarget ea f n k
           then mag sc ! k * formantGain ea f fs ps n k else mag sc ! k)"
proof -
  have nb: "BandLimits.fftSize b = n"
  proof -
    have "b \<in> set (filter (\<lambda>b. BandLimits.fftSize b = n) bands)" using band by simp
    then show ?thesis by simp
  qed
  let ?sf = "formantSourceFactor f fs ps n" and ?tf = "formantTargetFactor f n"
  from r have "formantBands (ea f) ?sf ?tf (formantHighBin sr n) n
                 (filter (\<lambda>b. BandLimits.fftSize b = n) bands) sc = Inr sc'"
    unfolding adjustFormantScale_def by (subst formantBands_filter [symmetric])
  with band nb have "formantBinLoop (ea f) ?sf ?tf (b0min b) (b1max b) (formantHighBin sr n) sc = Inr sc'"
    by (simp split: sum.splits)
  from formantBinLoop_Inr [OF this]
  have "mag sc' ! k = (if b0min b \<le> int k \<and> int k < b1max b \<and> int k < formantHighBin sr n
                            \<and> (ea f) (real k * ?tf) > 0
                        then mag sc ! k * formantRatio ((ea f) (real k * ?sf)) ((ea f) (real k * ?tf))
                        else mag sc ! k)"
    by blast
  then show ?thesis
    using nb
    by (auto simp: formantRangeTop_def formantHighBin_def formantTarget_def formantGain_def
        formantTargetFactor_def formantSourceFactor_def formantRatio_clamp Let_def)
qed

lemma adjustFormant_char:
  assumes bounds: "\<forall>(m, s) \<in> set (scales cd). \<forall>b \<in> set bands. BandLimits.fftSize b = m \<longrightarrow>
                     0 \<le> b0min b \<and> formantRangeTop sr b \<le> int (length (mag s))"
    and sel: "map_of (scales cd) n = Some sc"
    and band: "filter (\<lambda>b. BandLimits.fftSize b = n) bands = [b]"
  shows "\<exists>cd' sc'. adjustFormant ea sr fs ps bands cd = Inr cd'
           \<and> map fst (scales cd') = map fst (scales cd)
           \<and> map_of (scales cd') n = Some sc'
           \<and> (\<forall>k. mag sc' ! k =
                 (if b0min b \<le> int k \<and> int k < formantRangeTop sr b
                     \<and> 0 < formantTarget ea (formant cd) n k
                  then mag sc ! k * formantGain ea (formant cd) fs ps n k else mag sc ! k))"
proof -
  have "\<forall>(m, s) \<in> set (scales cd). \<exists>s'. adjustFormantScale ea sr fs ps bands (formant cd) m s = Inr s'"
  proof (clarify)
    fix m s assume ms: "(m, s) \<in> set (scales cd)"
    have "\<forall>b \<in> set bands. BandLimits.fftSize b = m \<longrightarrow>
             0 \<le> b0min b \<and> min (b1max b) (formantHighBin sr m) \<le> int (length (mag s))"
      using bounds ms by (auto simp: formantRangeTop_def formantHighBin_def)
    from formantBands_succeeds [OF this]
    show "\<exists>s'. adjustFormantScale ea sr fs ps bands (formant cd) m s = Inr s'"
      unfolding adjustFormantScale_def by blast
  qed
  from adjustFormantScales_succeeds [OF this]
  obtain al' where al': "adjustFormantScales ea sr fs ps bands (formant cd) (scales cd) = Inr al'"
    by blast
  from adjustFormantScales_lookup [OF al'] sel
  obtain sc' where keys: "map fst al' = map fst (scales cd)"
    and s: "adjustFormantScale ea sr fs ps bands (formant cd) n sc = Inr sc'"
    and m: "map_of al' n = Some sc'"
    by blast
  have r: "adjustFormant ea sr fs ps bands cd = Inr (cd\<lparr>scales := al'\<rparr>)"
    using al' by (simp add: adjustFormant_def)
  show ?thesis
    using r keys m adjustFormantScale_one_band [OF band s]
    by (intro exI [of _ "cd\<lparr>scales := al'\<rparr>"] exI [of _ sc']) simp
qed

lemma formantExample_run:
  "formantStage True rampEnvelope 40000 2 1 formantBandLimits
         (formantChannel [15, 15, 15, 15, 15] [24, 24, 24, 24, 24, 24, 24, 24, 24])
       = Inr (formantChannel [15, 10, 15, 15, 15] [24, 18, 16, 24, 24, 24, 24, 24, 24])"
  by (simp add: formantStage_def adjustFormant_def adjustFormantScale_def formantChannel_def
      formantScaleExample_def formantBandLimits_def rampEnvelope_def formantHighBin_def
      formantTargetFactor_def formantSourceFactor_def formantBinLoop.simps formantBin_def
      formantRatio_def inBounds_def Let_def)




section \<open>Properties of \<open>retrieve\<close>\<close>

lemma rb_read_nonneg:
  assumes "0 \<le> got" and "rb_read got rb = (delivered, gotHere, ob)"
  shows "gotHere = min got (getReadSpace rb)" and "0 \<le> gotHere" and "gotHere \<le> got"
    and "int (length delivered) = gotHere"
    and "delivered = take (nat gotHere) (unread rb)"
    and "ob = rb\<lparr>unread := drop (nat gotHere) (unread rb)\<rparr>"
    and "(if gotHere < got then min got (max gotHere 0) else got) = gotHere"
  using assms by (auto simp: rb_read_def getReadSpace_def Let_def min_def split: if_splits)

lemma retrieveChannels_char:
  assumes "0 \<le> got" and "retrieveChannels c got cds = (result, cds', outs, messages)"
  shows "length outs = length cds \<and> length cds' = length cds
       \<and> 0 \<le> result \<and> result \<le> got
       \<and> result = Min (insert got (set (map (\<lambda>d. int (length d)) outs)))
       \<and> (\<forall>i < length cds.
             outs ! i = take (nat (min (askedOf got outs i) (getReadSpace (outbuf (cds ! i)))))
                               (unread (outbuf (cds ! i)))
           \<and> cds' ! i = (cds ! i)\<lparr>outbuf := (outbuf (cds ! i))
                             \<lparr>unread := drop (length (outs ! i)) (unread (outbuf (cds ! i)))\<rparr>\<rparr>)
       \<and> set messages \<subseteq> {imbalanceWarning}
       \<and> (messages \<noteq> [] \<longleftrightarrow>
             (\<exists>i < length cds. 0 < c + i \<and> int (length (outs ! i)) < askedOf got outs i))"
  using assms
proof (induction cds arbitrary: c got result cds' outs messages)
  case Nil
  then show ?case by simp
next
  case (Cons cd cds)
  obtain delivered gotHere ob where rd: "rb_read got (outbuf cd) = (delivered, gotHere, ob)"
    by (cases "rb_read got (outbuf cd)") auto
  note f = rb_read_nonneg [OF Cons.prems(1) rd]
  obtain r1 cds1 out1 msgs1 where rec: "retrieveChannels (Suc c) gotHere cds = (r1, cds1, out1, msgs1)"
    by (cases "retrieveChannels (Suc c) gotHere cds") auto
  note ih = Cons.IH [OF f(2) rec]
  have ih_len: "length out1 = length cds" "length cds1 = length cds" using ih by blast+
  have ih_rng: "0 \<le> r1" "r1 \<le> gotHere" using ih by blast+
  have ih_min: "r1 = Min (insert gotHere (set (map (\<lambda>d. int (length d)) out1)))" using ih by blast
  have ih_pt: "out1 ! j = take (nat (min (askedOf gotHere out1 j) (getReadSpace (outbuf (cds ! j)))))
                               (unread (outbuf (cds ! j)))
           \<and> cds1 ! j = (cds ! j)\<lparr>outbuf := (outbuf (cds ! j))
                             \<lparr>unread := drop (length (out1 ! j)) (unread (outbuf (cds ! j)))\<rparr>\<rparr>"
    if "j < length cds" for j using ih that by blast
  have ih_ms: "set msgs1 \<subseteq> {imbalanceWarning}" using ih by blast
  have ih_ex: "(msgs1 \<noteq> []) \<longleftrightarrow> (\<exists>j < length cds. int (length (out1 ! j)) < askedOf gotHere out1 j)"
    using ih by simp
  from Cons.prems(2) rd rec f(7)
  have res: "result = r1" "cds' = cd\<lparr>outbuf := ob\<rparr> # cds1" "outs = delivered # out1"
    "messages = (if gotHere < got \<and> c > 0 then [imbalanceWarning] else []) @ msgs1"
    by auto
  have asked0: "askedOf got outs 0 = got" by (simp add: askedOf_def)
  have askedS: "askedOf got outs (Suc i) = askedOf gotHere out1 i" for i
    using res(3) f(4) by (cases i) (simp_all add: askedOf_def)
  have len: "length outs = length (cd # cds) \<and> length cds' = length (cd # cds)"
    using ih_len res by simp
  have rng: "0 \<le> result \<and> result \<le> got" using ih_rng res(1) f(3) by simp
  have mn: "result = Min (insert got (set (map (\<lambda>d. int (length d)) outs)))"
  proof -
    have a: "Min (insert got (set (map (\<lambda>d. int (length d)) outs))) = min got r1"
      using res(3) f(4) ih_min by simp
    have b: "min got r1 = r1" using ih_rng(2) f(3) by simp
    show ?thesis by (simp only: a b res(1))
  qed
  have pt: "outs ! i = take (nat (min (askedOf got outs i) (getReadSpace (outbuf ((cd # cds) ! i)))))
                               (unread (outbuf ((cd # cds) ! i)))
           \<and> cds' ! i = ((cd # cds) ! i)\<lparr>outbuf := (outbuf ((cd # cds) ! i))
                \<lparr>unread := drop (length (outs ! i)) (unread (outbuf ((cd # cds) ! i)))\<rparr>\<rparr>"
    if "i < length (cd # cds)" for i
  proof (cases i)
    case 0
    have "outs ! 0 = delivered" "cds' ! 0 = cd\<lparr>outbuf := ob\<rparr>" using res by simp_all
    moreover have "length delivered = nat gotHere" using f(4) by simp
    ultimately show ?thesis using 0 f(1,5,6) asked0 by simp
  next
    case (Suc j)
    with that have j: "j < length cds" by simp
    have "outs ! i = out1 ! j" "cds' ! i = cds1 ! j" "(cd # cds) ! i = cds ! j"
      using Suc res by simp_all
    then show ?thesis using ih_pt [OF j] askedS [of j] Suc by simp
  qed
  have ms: "set messages \<subseteq> {imbalanceWarning}" using ih_ms res(4) by auto
  have ex: "(messages \<noteq> []) \<longleftrightarrow>
             (\<exists>i < length (cd # cds). 0 < c + i \<and> int (length (outs ! i)) < askedOf got outs i)"
  proof -
    have "(\<exists>i < length (cd # cds). 0 < c + i \<and> int (length (outs ! i)) < askedOf got outs i)
          \<longleftrightarrow> (0 < c \<and> gotHere < got)
              \<or> (\<exists>j < length cds. int (length (out1 ! j)) < askedOf gotHere out1 j)"
      (is "?L \<longleftrightarrow> ?A \<or> ?B")
    proof
      assume ?L
      then obtain i where i: "i < length (cd # cds)" "0 < c + i"
        "int (length (outs ! i)) < askedOf got outs i" by blast
      show "?A \<or> ?B"
      proof (cases i)
        case 0
        with i(2,3) res(3) f(4) asked0 show ?thesis by simp
      next
        case (Suc j)
        with i(1) have "j < length cds" by simp
        moreover have "int (length (out1 ! j)) < askedOf gotHere out1 j"
          using i(3) Suc res(3) askedS [of j] by simp
        ultimately show ?thesis by blast
      qed
    next
      assume "?A \<or> ?B"
      then show ?L
      proof
        assume ?A
        then have "0 < length (cd # cds) \<and> 0 < c + 0
                   \<and> int (length (outs ! 0)) < askedOf got outs 0"
          using res(3) f(4) asked0 by simp
        then show ?L by blast
      next
        assume ?B
        then obtain j where j: "j < length cds" "int (length (out1 ! j)) < askedOf gotHere out1 j"
          by blast
        then have "Suc j < length (cd # cds) \<and> 0 < c + Suc j
                   \<and> int (length (outs ! Suc j)) < askedOf got outs (Suc j)"
          using res(3) askedS [of j] by simp
        then show ?L by blast
      qed
    qed
    with ih_ex res(4) show ?thesis by auto
  qed
  from len rng mn pt ms ex show ?case by blast
qed

lemma narrowToInt_small: "0 \<le> n \<Longrightarrow> n < 2 ^ 31 \<Longrightarrow> narrowToInt n = n"
  by (simp add: narrowToInt_def Let_def)

lemma narrowToInt_le: "0 \<le> n \<Longrightarrow> 0 \<le> narrowToInt n \<Longrightarrow> narrowToInt n \<le> n"
proof -
  assume n: "0 \<le> n" and "0 \<le> narrowToInt n"
  have "n mod 2 ^ 32 \<le> n" using n by (rule zmod_le_nonneg_dividend)
  moreover have "narrowToInt n \<le> n mod 2 ^ 32" by (simp add: narrowToInt_def Let_def)
  ultimately show ?thesis by simp
qed

lemma narrowToInt_range: "- (2 ^ 31) \<le> narrowToInt n \<and> narrowToInt n < 2 ^ 31"
proof -
  have "0 \<le> n mod 2 ^ 32" "n mod 2 ^ 32 < 2 ^ 32" by simp_all
  then show ?thesis by (auto simp: narrowToInt_def Let_def)
qed

lemma widenToSizeT_small: "0 \<le> g \<Longrightarrow> g < 2 ^ 31 \<Longrightarrow> widenToSizeT g = g"
  by (simp add: widenToSizeT_def)

lemma retrieve_char:
  assumes r: "retrieve n s = (got, outs, s')" and nn: "0 \<le> narrowToInt (int n)"
  shows "length outs = length (channelData s)"
    and "int got = Min (set (map (\<lambda>d. int (length d)) outs))"
    and "got \<le> n"
    and "\<forall>c < length (channelData s).
           outs ! c = take (nat (min (askedOf (narrowToInt (int n)) outs c)
                                     (getReadSpace (outbuf (channelData s ! c)))))
                           (unread (outbuf (channelData s ! c)))
         \<and> channelData s' ! c = (channelData s ! c)\<lparr>outbuf := (outbuf (channelData s ! c))
               \<lparr>unread := drop (length (outs ! c)) (unread (outbuf (channelData s ! c)))\<rparr>\<rparr>"
    and "\<exists>k. warnings s' = warnings s @ replicate k imbalanceWarning"
    and "warnings s' \<noteq> warnings s \<longleftrightarrow>
           (\<exists>c. 0 < c \<and> c < length outs \<and> length (outs ! c) < length (outs ! (c - 1)))"
proof -
  let ?n = "narrowToInt (int n)"
  obtain g cds msgs where rc: "retrieveChannels 0 ?n (channelData s) = (g, cds, outs, msgs)"
    and got: "got = nat (widenToSizeT g)"
    and s': "s' = s\<lparr>channel0 := hd cds, otherChannels := tl cds, warnings := warnings s @ msgs\<rparr>"
    using r by (auto simp: retrieve_def split: prod.splits)
  note ch = retrieveChannels_char [OF nn rc]
  have len: "length outs = length (channelData s)" "length cds = length (channelData s)"
    using ch by blast+
  have rng: "0 \<le> g" "g \<le> ?n" using ch by blast+
  have "g < 2 ^ 31" using rng(2) narrowToInt_range [of "int n"] by simp
  with rng(1) have wg: "widenToSizeT g = g" by (rule widenToSizeT_small)
  have got': "got = nat g" using got wg by simp
  have nle: "?n \<le> int n" using nn by (simp add: narrowToInt_le)
  have mn: "g = Min (insert ?n (set (map (\<lambda>d. int (length d)) outs)))" using ch by blast
  have pt: "outs ! c = take (nat (min (askedOf ?n outs c)
                                     (getReadSpace (outbuf (channelData s ! c)))))
                           (unread (outbuf (channelData s ! c)))
         \<and> cds ! c = (channelData s ! c)\<lparr>outbuf := (outbuf (channelData s ! c))
               \<lparr>unread := drop (length (outs ! c)) (unread (outbuf (channelData s ! c)))\<rparr>\<rparr>"
    if "c < length (channelData s)" for c using ch that by blast
  have ms: "set msgs \<subseteq> {imbalanceWarning}" using ch by blast
  have ex: "msgs \<noteq> [] \<longleftrightarrow>
       (\<exists>i < length (channelData s). 0 < 0 + i \<and> int (length (outs ! i)) < askedOf ?n outs i)"
    using ch by blast
  have ne: "cds \<noteq> []" "outs \<noteq> []" using len by (auto simp: channelData_def)
  then have cd': "channelData s' = cds" using s' by (simp add: channelData_def)
  show "length outs = length (channelData s)" by (rule len(1))
  show "got \<le> n" using got' rng nle by simp
  show "int got = Min (set (map (\<lambda>d. int (length d)) outs))"
  proof -
    let ?S = "set (map (\<lambda>d. int (length d)) outs)"
    have fin: "finite ?S" "?S \<noteq> {}" using ne by simp_all
    have "0 < length (channelData s)" by (simp add: channelData_def)
    from pt [OF this] have "int (length (outs ! 0)) \<le> ?n"
      using nn by (simp add: askedOf_def)
    moreover have "int (length (outs ! 0)) \<in> ?S" using ne by (cases outs) simp_all
    ultimately have le: "Min ?S \<le> ?n" using fin by (meson Min_le order_trans)
    have "Min (insert ?n ?S) = min ?n (Min ?S)" by (rule Min_insert [OF fin])
    also have "\<dots> = Min ?S" using le by (rule min_absorb2)
    finally have "g = Min ?S" using mn by (simp only:)
    then show ?thesis using got' rng(1) by (simp only: int_nat_eq if_True)
  qed
  show "\<forall>c < length (channelData s).
           outs ! c = take (nat (min (askedOf ?n outs c)
                                     (getReadSpace (outbuf (channelData s ! c)))))
                           (unread (outbuf (channelData s ! c)))
         \<and> channelData s' ! c = (channelData s ! c)\<lparr>outbuf := (outbuf (channelData s ! c))
               \<lparr>unread := drop (length (outs ! c)) (unread (outbuf (channelData s ! c)))\<rparr>\<rparr>"
    using pt cd' by simp
  have w: "warnings s' = warnings s @ msgs" using s' by simp
  have "msgs = replicate (length msgs) imbalanceWarning"
    using ms by (metis replicate_length_same singletonD subsetD)
  with w show "\<exists>k. warnings s' = warnings s @ replicate k imbalanceWarning" by metis
  have "(\<exists>i < length (channelData s). 0 < 0 + i \<and> int (length (outs ! i)) < askedOf ?n outs i)
        \<longleftrightarrow> (\<exists>c. 0 < c \<and> c < length outs \<and> length (outs ! c) < length (outs ! (c - 1)))"
    using len(1) by (auto simp: askedOf_def)
  with ex w show "warnings s' \<noteq> warnings s \<longleftrightarrow>
           (\<exists>c. 0 < c \<and> c < length outs \<and> length (outs ! c) < length (outs ! (c - 1)))"
    by simp
qed

text \<open>
  C10, as stated, holds for every requested count.  A request for \<open>2^31\<close> samples becomes
  \<open>int got = -2^31\<close>; whatever a channel's \<open>read\<close> then returns, \<open>got\<close> keeps that value
  (\<open>std::min(got, std::max(gotHere, 0))\<close> is \<open>got\<close>), and it is returned as the \<open>size_t\<close>
  \<open>2^64 - 2^31\<close>, more than was requested.
\<close>

theorem retrieve_beyond_int_counterexample:
  "narrowToInt 2147483648 = - 2147483648
   \<and> fst (retrieve 2147483648 unevenStretcher) = 18446744071562067968
   \<and> (2147483648 :: nat) < fst (retrieve 2147483648 unevenStretcher)"
  by (simp add: retrieve_def unevenStretcher_def freshStretcher_def channelData_def
      rb_read_def getReadSpace_def ring_def Let_def narrowToInt_def widenToSizeT_def)

text \<open>
  C10 (amended): for every requested sample count \<open>n\<close> whose conversion to \<open>int\<close> is not
  negative, as it is for every \<open>n\<close> up to \<open>INT_MAX\<close>, \<open>retrieve\<close> returns the minimum over
  all channels of the number of samples read from that channel's output ring, a number
  that is not negative and does not exceed \<open>n\<close>.  Channel 0 is asked for the converted
  count and each later channel for what the channel before it delivered; each delivers
  what its ring holds of that.  The only messages logged are channel-imbalance warnings,
  and one is logged exactly when a channel after the first delivers fewer samples than
  the channel before it; a shortfall of channel 0 against the count is not reported.
\<close>

theorem retrieve_spec:
  assumes "retrieve n s = (got, outs, s')" and "0 \<le> narrowToInt (int n)"
  shows "length outs = length (channelData s)
       \<and> int got = Min (set (map (\<lambda>d. int (length d)) outs))
       \<and> 0 \<le> int got \<and> got \<le> n
       \<and> (n < 2 ^ 31 \<longrightarrow> narrowToInt (int n) = int n)
       \<and> (\<forall>c < length (channelData s).
             outs ! c = take (nat (min (askedOf (narrowToInt (int n)) outs c)
                                       (getReadSpace (outbuf (channelData s ! c)))))
                             (unread (outbuf (channelData s ! c)))
           \<and> channelData s' ! c = (channelData s ! c)\<lparr>outbuf := (outbuf (channelData s ! c))
                 \<lparr>unread := drop (length (outs ! c)) (unread (outbuf (channelData s ! c)))\<rparr>\<rparr>)
       \<and> (\<exists>k. warnings s' = warnings s @ replicate k imbalanceWarning)
       \<and> (warnings s' \<noteq> warnings s \<longleftrightarrow>
             (\<exists>c. 0 < c \<and> c < length outs \<and> length (outs ! c) < length (outs ! (c - 1))))"
proof -
  have "n < 2 ^ 31 \<longrightarrow> narrowToInt (int n) = int n"
    using narrowToInt_small [of "int n"] by auto
  with retrieve_char [OF assms] show ?thesis by simp
qed

lemma unevenStretcher_retrieve:
  "retrieve 5 unevenStretcher
     = (2, [[1, 2, 3], [4, 5]],
        unevenStretcher\<lparr>channel0 := \<lparr>inbuf = ring [] 16, outbuf = ring [] 128\<rparr>,
                       otherChannels := [\<lparr>inbuf = ring [] 16, outbuf = ring [] 128\<rparr>],
                       warnings := [imbalanceWarning]\<rparr>)"
  by (simp add: retrieve_def unevenStretcher_def freshStretcher_def channelData_def
      rb_read_def getReadSpace_def ring_def Let_def narrowToInt_def widenToSizeT_def)

text \<open>
  The theorem at the two-channel example with \<open>n = 5\<close>: channel 0 delivers its three
  samples without a warning, channel 1 delivers two and is reported, and 2 is returned.
\<close>

theorem retrieve_spec_witness:
  "retrieve 5 unevenStretcher
     = (2, [[1, 2, 3], [4, 5]],
        unevenStretcher\<lparr>channel0 := \<lparr>inbuf = ring [] 16, outbuf = ring [] 128\<rparr>,
                       otherChannels := [\<lparr>inbuf = ring [] 16, outbuf = ring [] 128\<rparr>],
                       warnings := [imbalanceWarning]\<rparr>)
   \<and> 0 \<le> narrowToInt (int 5)
   \<and> int 2 = Min (set (map (\<lambda>d. int (length d)) [[1, 2, 3], [4, 5 :: real]]))
   \<and> (2 :: nat) \<le> 5"
proof -
  have n: "0 \<le> narrowToInt (int 5)" by (simp add: narrowToInt_def)
  from retrieve_spec [OF unevenStretcher_retrieve n] unevenStretcher_retrieve n
  show ?thesis by simp
qed

section \<open>Properties of the key-frame update\<close>

text \<open>
  With no input consumed yet, the update sets the time ratio to the quotient of the first
  entry's output and input index, recomputes the hop and sets \<open>lastKeyFrameSurpassed\<close> to
  0, provided the hop calculation is defined for that ratio.
\<close>

lemma updateRatioFromMap_first:
  assumes "keyFrameMap s = (a, b) # rest" and "consumedInputDuration s = 0"
    and "calculateHop M (getEffectiveRatio (d_div (d_of_int b) (d_of_int a)) (pitchScale s)) = Inr h"
  shows "updateRatioFromMap M s
           = Inr (s\<lparr>timeRatio := d_div (d_of_int b) (d_of_int a),
                    inhop := h,
                    warnings := warnings s
                      @ hopWarnings M (getEffectiveRatio (d_div (d_of_int b) (d_of_int a)) (pitchScale s)),
                    lastKeyFrameSurpassed := 0\<rparr>)"
  using assms by (simp add: updateRatioFromMap_def calculateHopState_def)

lemma ratio_example_keyframe: "d_div (d_of_int 60000) (d_of_int 48000) = Finite (5/4)"
proof -
  have "rounded (5/4) False = Finite (5/4)"
    by (subst rounded_eval [where e = 0]) (simp_all add: rne_def Let_def)
  then show ?thesis by (simp add: d_of_int_small d_div_def isInf_def isZero_def)
qed

lemma hop_example_keyframe:
  "calculateHop M (getEffectiveRatio (Finite (5/4)) (Finite 1)) = Inr 204"
  "hopWarnings M (getEffectiveRatio (Finite (5/4)) (Finite 1)) = []"
proof -
  have m: "rounded (5/4) False = Finite (5/4)"
    by (subst rounded_eval [where e = 0]) (simp_all add: rne_def Let_def)
  have e: "getEffectiveRatio (Finite (5/4)) (Finite 1) = Finite (5/4)"
    using m by (simp add: getEffectiveRatio_def d_mul_def isInf_def)
  have r: "rounded (1024/5) False = Finite (7205759403792794 / 2 ^ 45)"
    by (subst rounded_eval [where e = 7]) (simp_all add: rne_def Let_def)
  have i: "d_div (proposedOuthop M (Finite (5/4))) (Finite (5/4)) = Finite (7205759403792794 / 2 ^ 45)"
    using r by (simp add: proposedOuthop_def d_div_def d_less_def d_greater_def isInf_def isZero_def)
  show "calculateHop M (getEffectiveRatio (Finite (5/4)) (Finite 1)) = Inr 204"
    by (simp add: e calculateHop_def idealInhop_def i d_less_def d_greater_def to_int_def
        isInf_def truncated_def)
  show "hopWarnings M (getEffectiveRatio (Finite (5/4)) (Finite 1)) = []"
    by (simp add: e hopWarnings_def i d_less_def d_greater_def)
qed

lemma updateRatioFromMap_first_example:
  "updateRatioFromMap M (freshStretcher\<lparr>keyFrameMap := [(48000, 60000), (96000, 120000)]\<rparr>)
     = Inr (freshStretcher\<lparr>keyFrameMap := [(48000, 60000), (96000, 120000)],
                          timeRatio := Finite (5/4), inhop := 204\<rparr>)"
  by (simp add: updateRatioFromMap_def calculateHopState_def ratio_example_keyframe
      hop_example_keyframe freshStretcher_def)

text \<open>
  A first entry \<open>(0, 96000)\<close>: the quotient is \<open>+inf\<close>, the proposed output hop 512, the
  ideal input hop 0, and the update returns with the input hop 1 and the warning.
\<close>

lemma updateRatioFromMap_infinite_example:
  "updateRatioFromMap exampleLibm (freshStretcher\<lparr>keyFrameMap := [(0, 96000)]\<rparr>)
     = Inr (freshStretcher\<lparr>keyFrameMap := [(0, 96000)], timeRatio := PosInf, inhop := 1,
              warnings := [''WARNING: Extreme ratio yields ideal inhop < 1, results may be suspect'']\<rparr>)"
proof -
  have q: "d_div (d_of_int 96000) (d_of_int 0) = PosInf"
    by (simp add: d_of_int_small d_div_def isInf_def isZero_def signedInf_def)
  have e: "getEffectiveRatio PosInf (Finite 1) = PosInf"
    by (simp add: getEffectiveRatio_def d_mul_def isInf_def isZero_def signedInf_def)
  have p: "proposedOuthop exampleLibm PosInf = Finite 512"
    by (simp add: proposedOuthop_def exampleLibm_def d_sub_def d_add_def d_mul_def isInf_def
        isZero_def signedInf_def d_greater_def d_less_def)
  have i: "d_div (Finite 512) PosInf = Finite 0"
    by (simp add: d_div_def isInf_def signedZero_def)
  have h: "calculateHop exampleLibm PosInf = Inr 1"
    by (simp add: calculateHop_def idealInhop_def p i d_less_def d_greater_def to_int_def
        isInf_def truncated_def)
  have w: "hopWarnings exampleLibm PosInf
             = [''WARNING: Extreme ratio yields ideal inhop < 1, results may be suspect'']"
    by (simp add: hopWarnings_def p i d_less_def d_greater_def)
  show ?thesis
    by (simp add: updateRatioFromMap_def calculateHopState_def q e h w freshStretcher_def)
qed

text \<open>
  C8 claims the update for every non-empty key-frame map, one whose first entry has input
  index 0 included.  The map \<open>{(0, 0), (48000, 96000), (96000, 120000)}\<close> of the
  specification's sixth scenario, before any input is consumed: the quotient
  \<open>double(0) / double(0)\<close> is a NaN, it is stored as the time ratio without a check, every
  comparison of \<open>calculateHop\<close> fails on it and the NaN reaches \<open>int(floor(inhop))\<close>, a
  conversion the language leaves undefined: no hop is set.
\<close>

theorem updateRatioFromMap_zero_index:
  "d_div (d_of_int 0) (d_of_int 0) = NaN
   \<and> updateRatioFromMap exampleLibm
        (freshStretcher\<lparr>keyFrameMap := [(0, 0), (48000, 96000), (96000, 120000)]\<rparr>)
       = Inl UndefinedBehaviour"
proof -
  have q: "d_div (d_of_int 0) (d_of_int 0) = NaN"
    by (simp add: d_of_int_small d_div_def isInf_def isZero_def)
  have e: "getEffectiveRatio NaN (Finite 1) = NaN"
    by (simp add: getEffectiveRatio_def d_mul_def)
  have h: "calculateHop exampleLibm NaN = Inl UndefinedBehaviour"
    by (simp add: calculateHop_def idealInhop_def proposedOuthop_def d_div_def d_less_def
        d_greater_def to_int_def)
  show ?thesis
    by (simp add: updateRatioFromMap_def calculateHopState_def q e h freshStretcher_def)
qed

section \<open>Properties of \<open>process\<close> and \<open>consume\<close>\<close>

lemma forChannels_fields [simp]:
  "channel0 (forChannels f s) = f 0 (channel0 s)"
  "length (otherChannels (forChannels f s)) = length (otherChannels s)"
  "mode (forChannels f s) = mode s"
  "realTime (forChannels f s) = realTime s"
  "optionPitchHighConsistency (forChannels f s) = optionPitchHighConsistency s"
  "timeRatio (forChannels f s) = timeRatio s"
  "pitchScale (forChannels f s) = pitchScale s"
  "longestFftSize (forChannels f s) = longestFftSize s"
  "accumulatorFill (forChannels f s) = accumulatorFill s"
  "haveResampler (forChannels f s) = haveResampler s"
  "inhop (forChannels f s) = inhop s"
  "startSkip (forChannels f s) = startSkip s"
  "totalTargetDuration (forChannels f s) = totalTargetDuration s"
  "totalOutputDuration (forChannels f s) = totalOutputDuration s"
  "consumedInputDuration (forChannels f s) = consumedInputDuration s"
  "keyFrameMap (forChannels f s) = keyFrameMap s"
  "warnings (forChannels f s) = warnings s"
  by (simp_all add: forChannels_def)

lemma forChannels_nth:
  "c < length (channelData s) \<Longrightarrow> channelData (forChannels f s) ! c = f c (channelData s ! c)"
  by (cases c) (simp_all add: forChannels_def channelData_def)

lemma forChannels_length [simp]: "length (channelData (forChannels f s)) = length (channelData s)"
  by (simp add: channelData_def)

lemma log0_fields [simp]:
  "channel0 (log0 m s) = channel0 s"
  "otherChannels (log0 m s) = otherChannels s"
  "mode (log0 m s) = mode s"
  "realTime (log0 m s) = realTime s"
  "optionPitchHighConsistency (log0 m s) = optionPitchHighConsistency s"
  "pitchScale (log0 m s) = pitchScale s"
  "longestFftSize (log0 m s) = longestFftSize s"
  "accumulatorFill (log0 m s) = accumulatorFill s"
  "haveResampler (log0 m s) = haveResampler s"
  "inhop (log0 m s) = inhop s"
  "startSkip (log0 m s) = startSkip s"
  "totalTargetDuration (log0 m s) = totalTargetDuration s"
  "totalOutputDuration (log0 m s) = totalOutputDuration s"
  "consumedInputDuration (log0 m s) = consumedInputDuration s"
  "keyFrameMap (log0 m s) = keyFrameMap s"
  "warnings (log0 m s) = warnings s @ [m]"
  by (simp_all add: log0_def)

lemma channelData_log0 [simp]: "channelData (log0 m s) = channelData s"
  by (simp add: channelData_def)

lemma getReadSpace_nonneg [simp]: "0 \<le> getReadSpace rb"
  by (simp add: getReadSpace_def)

lemma getReadSpace_skip:
  "getReadSpace (rb_skip n rb) = getReadSpace rb - max 0 (min n (getReadSpace rb))"
  by (simp add: rb_skip_def getReadSpace_def min_def max_def)

lemma getReadSpace_not_minus1 [simp]: "getReadSpace rb \<noteq> - 1"
  by (simp add: getReadSpace_def)

lemma getReadSpace_pos: "getReadSpace rb \<noteq> 0 \<Longrightarrow> 0 < getReadSpace rb"
  by (simp add: getReadSpace_def)

lemma getReadSpace_write:
  "getReadSpace (rb_write src n rb) = getReadSpace rb + max 0 (min n (getWriteSpace rb))"
  by (simp add: rb_write_def getReadSpace_def max_def)

text \<open>What a frame leaves of the fields the loop head reads.\<close>

lemma processFrame_fields [simp]:
  "mode (processFrame outhop f s) = mode s"
  "realTime (processFrame outhop f s) = realTime s"
  "longestFftSize (processFrame outhop f s) = longestFftSize s"
  "inhop (processFrame outhop f s) = inhop s"
  "totalTargetDuration (processFrame outhop f s) = totalTargetDuration s"
  "length (channelData (processFrame outhop f s)) = length (channelData s)"
  by (simp_all add: processFrame_def skipStart_def emit_def synthesise_def Let_def channelData_def)

lemma processFrame_fill:
  "accumulatorFill (processFrame outhop f s)
     = (if getReadSpace (inbuf (channel0 s)) = 0
        then (if accumulatorFill s > outhop then accumulatorFill s - outhop else 0)
        else longestFftSize s)"
  by (simp add: processFrame_def skipStart_def emit_def synthesise_def Let_def)

lemma processFrame_inbuf:
  "inbuf (channel0 (processFrame outhop f s)) = rb_skip (frameAdvanceCount s) (inbuf (channel0 s))"
  by (simp add: processFrame_def skipStart_def emit_def synthesise_def Let_def frameAdvanceCount_def)

lemma continues_wanted:
  assumes "continues outhop s" and "1 \<le> longestFftSize s"
  shows "0 < framesWanted s"
  using assms getReadSpace_pos [of "inbuf (channel0 s)"]
  by (auto simp: continues_def framesWanted_def drainFrames_def Let_def split: if_splits)

lemma drainFrames_step:
  assumes "fill \<noteq> 0" and "1 \<le> outhop"
  shows "drainFrames (if fill > outhop then fill - outhop else 0) < drainFrames fill"
  using assms by (auto simp: drainFrames_def)

lemma processFrame_wanted:
  assumes c: "continues outhop s" and o: "1 \<le> outhop" and i: "1 \<le> inhop s"
    and l: "1 \<le> longestFftSize s"
  shows "framesWanted (processFrame outhop f s) < framesWanted s"
proof (cases "getReadSpace (inbuf (channel0 s)) = 0")
  case True
  with c l have "accumulatorFill s \<noteq> 0" by (auto simp: continues_def Let_def split: if_splits)
  from drainFrames_step [OF this o] True i show ?thesis
    by (simp add: framesWanted_def processFrame_fill processFrame_inbuf frameAdvanceCount_def
        getReadSpace_skip Let_def)
next
  case False
  then have pos: "0 < getReadSpace (inbuf (channel0 s))"
    by (rule getReadSpace_pos)
  have adv: "1 \<le> frameAdvanceCount s" "frameAdvanceCount s \<le> getReadSpace (inbuf (channel0 s))"
    using pos i by (auto simp: frameAdvanceCount_def Let_def)
  then have rs': "getReadSpace (inbuf (channel0 (processFrame outhop f s)))
              = getReadSpace (inbuf (channel0 s)) - frameAdvanceCount s"
    by (simp add: processFrame_inbuf getReadSpace_skip)
  show ?thesis
    using pos adv rs' False
    by (simp add: framesWanted_def processFrame_fill Let_def)
qed

lemma consumeLoop_returns:
  assumes "1 \<le> outhop" and "1 \<le> inhop s" and "1 \<le> longestFftSize s"
    and "framesWanted s \<le> length frames"
  shows "\<exists>s'. consumeLoop outhop frames s = Inr s'"
  using assms
proof (induction frames arbitrary: s)
  case Nil
  then have "\<not> continues outhop s" using continues_wanted [of outhop s] by auto
  then show ?case by simp
next
  case (Cons f fs)
  show ?case
  proof (cases "continues outhop s")
    case False
    then show ?thesis by simp
  next
    case True
    from processFrame_wanted [OF True Cons.prems(1,2,3), of f] Cons.prems(4)
    have "framesWanted (processFrame outhop f s) \<le> length fs" by simp
    from Cons.IH [OF Cons.prems(1) _ _ this] Cons.prems(2,3) True
    show ?thesis by simp
  qed
qed

lemma consumeLoop_mode:
  "consumeLoop outhop frames s = Inr s' \<Longrightarrow> mode s' = mode s"
  by (induction frames arbitrary: s) (auto split: if_splits)

lemma returns_Inr [simp]: "returns (Inr y)"
  by (simp add: returns_def)

lemma returns_Inl [simp]: "\<not> returns (Inl e)"
  by (simp add: returns_def)

lemma returnsE: "returns r \<Longrightarrow> \<exists>y. r = Inr y"
  by (cases r) simp_all

lemma sameStreams_refl: "sameStreams s s"
  by (simp add: sameStreams_def)

lemma sameStreams_trans: "sameStreams a b \<Longrightarrow> sameStreams b c \<Longrightarrow> sameStreams a c"
  by (simp add: sameStreams_def)

lemma sameStreams_calculateHopState:
  assumes "calculateHopState M (s\<lparr>timeRatio := r\<rparr>) = Inr s'"
  shows "sameStreams s (s'\<lparr>lastKeyFrameSurpassed := k\<rparr>)"
proof -
  let ?ratio = "getEffectiveRatio r (pitchScale s)"
  from assms obtain h where h: "calculateHop M ?ratio = Inr h"
    and s': "s' = s\<lparr>timeRatio := r, inhop := h, warnings := warnings s @ hopWarnings M ?ratio\<rparr>"
    by (auto simp: calculateHopState_def Let_def split: sum.splits)
  from calculateHop_range [OF h] show ?thesis by (simp add: sameStreams_def s')
qed

lemma updateRatioFromMap_same:
  assumes "updateRatioFromMap M s = Inr s'"
  shows "sameStreams s s'"
proof (cases "keyFrameMap s")
  case Nil
  with assms show ?thesis by (simp add: updateRatioFromMap_def sameStreams_refl)
next
  case (Cons p rest)
  obtain a b where p: "p = (a, b)" by (cases p)
  show ?thesis
  proof (cases "consumedInputDuration s = 0")
    case True
    with assms Cons p show ?thesis
      by (auto simp: updateRatioFromMap_def sameStreams_calculateHopState split: sum.splits)
  next
    case False
    show ?thesis
    proof (cases "upper_bound (keyFrameMap s) (lastKeyFrameSurpassed s)")
      case Nil
      with assms Cons p False show ?thesis by (simp add: updateRatioFromMap_def sameStreams_refl)
    next
      case (Cons q rest')
      obtain c d where q: "q = (c, d)" by (cases q)
      show ?thesis
      proof (cases "consumedInputDuration s \<ge> c")
        case True
        with assms \<open>keyFrameMap s = p # rest\<close> p False Cons q show ?thesis
          by (auto simp: updateRatioFromMap_def Let_def sameStreams_calculateHopState
              split: prod.splits sum.splits)
      next
        case False
        with assms \<open>keyFrameMap s = p # rest\<close> p \<open>consumedInputDuration s \<noteq> 0\<close> Cons q
        show ?thesis by (simp add: updateRatioFromMap_def sameStreams_refl)
      qed
    qed
  qed
qed

lemma setTargetDuration_same:
  "setTargetDuration s = Inr s' \<Longrightarrow> sameStreams s s'"
  by (auto simp: setTargetDuration_def sameStreams_def split: if_splits sum.splits)

lemma startPadding_Inr:
  assumes "startPadding s = Inr s'"
  shows "mode s' = mode s" "realTime s' = realTime s" "longestFftSize s' = longestFftSize s"
    "inhop s' = inhop s" "accumulatorFill s' = accumulatorFill s" "pitchScale s' = pitchScale s"
    "length (channelData s') = length (channelData s)"
  using assms
  by (auto simp: startPadding_def Let_def channelData_def split: if_splits sum.splits)

lemma prepareOffline_steps:
  assumes "prepareOffline M s = Inr s1"
  shows "\<exists>s2. sameStreams s s2 \<and> startPadding s2 = Inr s1"
proof -
  from assms obtain sa where a: "setTargetDuration s = Inr sa"
    by (auto simp: prepareOffline_def split: sum.splits)
  with assms obtain sb where
    b: "(if keyFrameMap sa \<noteq> [] then updateRatioFromMap M sa else Inr sa) = Inr sb"
    and c: "startPadding sb = Inr s1"
    by (auto simp: prepareOffline_def split: sum.splits)
  have "sameStreams sa sb"
    using b updateRatioFromMap_same [of M sa sb] by (auto simp: sameStreams_refl split: if_splits)
  with setTargetDuration_same [OF a] have "sameStreams s sb" by (rule sameStreams_trans)
  with c show ?thesis by blast
qed

lemma prepareOffline_Inr:
  assumes "prepareOffline M s = Inr s1"
  shows "mode s1 = mode s" "realTime s1 = realTime s" "longestFftSize s1 = longestFftSize s"
    "1 \<le> inhop s \<Longrightarrow> 1 \<le> inhop s1" "accumulatorFill s1 = accumulatorFill s"
    "pitchScale s1 = pitchScale s" "length (channelData s1) = length (channelData s)"
proof -
  from prepareOffline_steps [OF assms]
  obtain s2 where ss: "sameStreams s s2" and p: "startPadding s2 = Inr s1" by blast
  note f = startPadding_Inr [OF p]
  show "mode s1 = mode s" "realTime s1 = realTime s" "longestFftSize s1 = longestFftSize s"
    "accumulatorFill s1 = accumulatorFill s" "pitchScale s1 = pitchScale s"
    "length (channelData s1) = length (channelData s)"
    using ss f by (simp_all add: sameStreams_def channelData_def)
  show "1 \<le> inhop s \<Longrightarrow> 1 \<le> inhop s1" using ss f by (simp add: sameStreams_def)
qed

lemma writeInput_fields [simp]:
  "mode (writeInput input n s) = mode s"
  "realTime (writeInput input n s) = realTime s"
  "longestFftSize (writeInput input n s) = longestFftSize s"
  "inhop (writeInput input n s) = inhop s"
  "accumulatorFill (writeInput input n s) = accumulatorFill s"
  by (simp_all add: writeInput_def Let_def)

lemma consume_returns:
  assumes "1 \<le> inhop s" and "1 \<le> longestFftSize s" and "framesWanted s \<le> length frames"
  shows "\<exists>s'. consume outhop frames s = Inr s' \<and> mode s' = mode s"
proof (cases "outhop < 1")
  case True
  have w: "framesWanted (log0 outhopWarning s) = framesWanted s"
    by (simp add: framesWanted_def Let_def)
  from consumeLoop_returns [of 1 "log0 outhopWarning s" frames] assms w
  obtain s' where r: "consumeLoop 1 frames (log0 outhopWarning s) = Inr s'" by auto
  from consumeLoop_mode [OF r] r True show ?thesis by (simp add: consume_def)
next
  case False
  then have "1 \<le> outhop" by simp
  from consumeLoop_returns [OF this assms]
  obtain s' where r: "consumeLoop outhop frames s = Inr s'" by auto
  from consumeLoop_mode [OF r] r False show ?thesis by (simp add: consume_def)
qed

lemma process_returns:
  assumes m: "mode s \<noteq> Finished" and k: "realTime s \<or> returns (prepareOffline M s)"
    and i: "1 \<le> inhop s" and l: "1 \<le> longestFftSize s"
  shows "\<exists>N. \<forall>frames. N \<le> length frames \<longrightarrow>
           (\<exists>s'. process M input n final outhop frames s = Inr s'
                 \<and> mode s' = (if final then Finished else Processing))"
proof -
  let ?m = "if final then Finished else Processing"
  have "\<exists>s1. (if \<not> realTime s then prepareOffline M s else Inr s) = Inr s1
           \<and> 1 \<le> inhop s1 \<and> 1 \<le> longestFftSize s1"
  proof (cases "realTime s")
    case True
    with i l show ?thesis by simp
  next
    case False
    with k have "returns (prepareOffline M s)" by simp
    then obtain s1 where p: "prepareOffline M s = Inr s1" by (auto dest: returnsE)
    from prepareOffline_Inr(3,4) [OF p] i l have "1 \<le> inhop s1 \<and> 1 \<le> longestFftSize s1"
      by simp
    with p False show ?thesis by simp
  qed
  then obtain s1 where p: "(if \<not> realTime s then prepareOffline M s else Inr s) = Inr s1"
    and i1: "1 \<le> inhop s1" and l1: "1 \<le> longestFftSize s1" by blast
  let ?s2 = "writeInput input (int n) (s1\<lparr>mode := ?m\<rparr>)"
  have i2: "1 \<le> inhop ?s2" and l2: "1 \<le> longestFftSize ?s2" and m2: "mode ?s2 = ?m"
    using i1 l1 by simp_all
  have "\<exists>s'. process M input n final outhop frames s = Inr s' \<and> mode s' = ?m"
    if "framesWanted ?s2 \<le> length frames" for frames
  proof -
    from consume_returns [OF i2 l2 that, of outhop]
    obtain s' where "consume outhop frames ?s2 = Inr s'" and "mode s' = mode ?s2" by blast
    with m p m2 show ?thesis by (simp add: process_def)
  qed
  then show ?thesis by blast
qed

lemma process_Finished:
  "mode s = Finished \<Longrightarrow> process M input n final outhop frames s = Inr (log0 finishedWarning s)"
  by (simp add: process_def)

lemma processCalls_Finished:
  "mode s = Finished \<Longrightarrow>
     processCalls M calls s
       = Inr (s\<lparr>warnings := warnings s @ replicate (length calls) finishedWarning\<rparr>)"
proof (induction calls arbitrary: s)
  case Nil
  then show ?case by simp
next
  case (Cons c cs)
  have "mode (log0 finishedWarning s) = Finished" using Cons.prems by simp
  from Cons.IH [OF this] Cons.prems show ?case
    by (simp add: process_Finished log0_def replicate_append_same)
qed

lemma available_char:
  "available s = (if mode s = Finished \<and> getReadSpace (outbuf (channel0 s)) = 0 then - 1
                  else getReadSpace (outbuf (channel0 s)))"
  by (simp add: available_def Let_def)

text \<open>
  C6: a \<open>process\<close> call with \<open>final = true\<close> on an engine that is not finished returns,
  once the frames it wants are supplied, with the mode \<open>Finished\<close>, provided the
  preparation of an offline call is defined (no NaN, infinity or out-of-range value is
  converted to an integer).  From then on every
  \<open>process\<close> call, whatever its arguments, returns at once: it appends the warning to the
  log and leaves everything else, the input rings included, as it was.  \<open>available\<close>
  returns -1 exactly when the mode is \<open>Finished\<close> and channel 0's output ring holds no
  sample; otherwise it returns that ring's read space, which is not negative.
\<close>

theorem process_final_spec:
  assumes "mode s \<noteq> Finished" and "realTime s \<or> returns (prepareOffline M s)"
    and "1 \<le> inhop s" and "1 \<le> longestFftSize s"
  shows "(\<exists>N. \<forall>frames. N \<le> length frames \<longrightarrow>
            (\<exists>s'. process M input n True outhop frames s = Inr s' \<and> mode s' = Finished
                  \<and> processCalls M calls s'
                      = Inr (s'\<lparr>warnings := warnings s' @ replicate (length calls) finishedWarning\<rparr>)))
       \<and> (available t = - 1 \<longleftrightarrow> mode t = Finished \<and> getReadSpace (outbuf (channel0 t)) = 0)
       \<and> (available t \<noteq> - 1 \<longrightarrow>
             available t = getReadSpace (outbuf (channel0 t)) \<and> 0 \<le> available t)"
proof -
  from process_returns [OF assms, of input n True outhop]
  obtain N where N: "\<And>frames. N \<le> length frames \<Longrightarrow>
      \<exists>s'. process M input n True outhop frames s = Inr s' \<and> mode s' = Finished"
    by auto
  have "\<exists>s'. process M input n True outhop frames s = Inr s' \<and> mode s' = Finished
            \<and> processCalls M calls s'
                 = Inr (s'\<lparr>warnings := warnings s' @ replicate (length calls) finishedWarning\<rparr>)"
    if "N \<le> length frames" for frames
  proof -
    from N [OF that] obtain s' where "process M input n True outhop frames s = Inr s'"
      and "mode s' = Finished" by blast
    with processCalls_Finished [of s' M calls] show ?thesis by blast
  qed
  moreover have "available t = - 1 \<longleftrightarrow> mode t = Finished \<and> getReadSpace (outbuf (channel0 t)) = 0"
    by (auto simp: available_char)
  moreover have "available t \<noteq> - 1 \<longrightarrow>
             available t = getReadSpace (outbuf (channel0 t)) \<and> 0 \<le> available t"
    by (auto simp: available_char)
  ultimately show ?thesis by blast
qed

lemma startSkip_example: "to_int (d_round (d_div (d_of_int 4) (Finite 1))) = Inr 4"
  using d_div_one [of 4]
  by (simp add: d_of_int_small to_int_def isInf_def truncated_def c_round_def)

text \<open>
  The double nearest to 1.6 is \<open>7205759403792794 / 2^52\<close>, a little above 1.6 (\<open>2^52 = 4503599627370496\<close>).  With it as
  pitch scale and a longest FFT size of 8 the exact quotient \<open>4 / pitchScale\<close> lies just
  below 2.5; the quotient in double precision is 2.5, and the start skip is 3.
\<close>

lemma startSkip_rounding_example:
  "4 / (7205759403792794 / 4503599627370496) < (5/2 :: real)"
  "to_int (d_round (d_div (d_of_int 4) (Finite (7205759403792794 / 4503599627370496)))) = Inr 3"
proof -
  show "4 / (7205759403792794 / 4503599627370496) < (5/2 :: real)" by simp
  have r: "rounded (4 / (7205759403792794 / 4503599627370496)) False = Finite (5/2)"
    by (subst rounded_eval [where e = 1]) (simp_all add: rne_def Let_def)
  have "d_div (d_of_int 4) (Finite (7205759403792794 / 4503599627370496)) = Finite (5/2)"
    using r by (simp add: d_of_int_small d_div_def isInf_def isZero_def)
  then show "to_int (d_round (d_div (d_of_int 4) (Finite (7205759403792794 / 4503599627370496)))) = Inr 3"
    by (simp add: c_round_def to_int_def isInf_def truncated_def)
qed

lemmas stream_defs = process_def prepareOffline_def setTargetDuration_def startPadding_def
  startSkip_example d_differs_def
  writeInput_def consume_def processFrame_def skipStart_def emit_def synthesise_def
  continues_def frameWriteCount_def proposedWriteCount_def frameAdvanceCount_def
  resampling_def forChannels_def log0_def rb_write_def rb_zero_def rb_skip_def
  getReadSpace_def getWriteSpace_def getSize_def resized_def freshStretcher_def
  freshChannel_def ring_def onesInput_def halfFrame_def c_round_def Let_def

text \<open>
  The preparation is defined for the small engine with a key-frame map, also with one
  whose first entry has the input index 0 and a positive output index.
\<close>

lemma prepareOffline_keyframe_example:
  "returns (prepareOffline M (freshStretcher\<lparr>keyFrameMap := [(48000, 60000), (96000, 120000)]\<rparr>))"
proof -
  let ?s = "freshStretcher\<lparr>keyFrameMap := [(48000, 60000), (96000, 120000)]\<rparr>"
  have t: "setTargetDuration ?s = Inr ?s"
    by (simp add: setTargetDuration_def freshStretcher_def)
  have k: "keyFrameMap ?s \<noteq> []" by simp
  show ?thesis
    unfolding prepareOffline_def t
    by (simp add: updateRatioFromMap_first_example) (simp add: stream_defs)
qed

lemma prepareOffline_infinite_example:
  "returns (prepareOffline exampleLibm (freshStretcher\<lparr>keyFrameMap := [(0, 96000)]\<rparr>))"
proof -
  let ?s = "freshStretcher\<lparr>keyFrameMap := [(0, 96000)]\<rparr>"
  have t: "setTargetDuration ?s = Inr ?s"
    by (simp add: setTargetDuration_def freshStretcher_def)
  show ?thesis
    unfolding prepareOffline_def t
    by (simp add: updateRatioFromMap_infinite_example) (simp add: stream_defs)
qed

text \<open>
  The small engine, given eight samples as its only and final block, an output hop of 2
  and eleven frames: the four zeros of the prefill and the eight samples are consumed in
  six frames, five more drain the accumulator, and after the start skip of four samples
  sixteen samples wait in the output ring.
\<close>

lemma process_final_example:
  "map_sum id (\<lambda>s. (mode s, unread (inbuf (channel0 s)), length (unread (outbuf (channel0 s))),
                     accumulatorFill s, startSkip s, consumedInputDuration s, warnings s))
     (process exampleLibm onesInput 8 True 2 (replicate 11 halfFrame) freshStretcher)
   = Inr (Finished, [], 16, 0, 0, 12, [])"
  by (simp add: stream_defs eval_nat_numeral)

theorem process_final_spec_witness:
  "mode freshStretcher \<noteq> Finished \<and> returns (prepareOffline exampleLibm freshStretcher)
   \<and> 1 \<le> inhop freshStretcher \<and> 1 \<le> longestFftSize freshStretcher
   \<and> (\<exists>N. \<forall>frames. N \<le> length frames \<longrightarrow>
            (\<exists>s'. process exampleLibm onesInput 8 True 2 frames freshStretcher = Inr s' \<and> mode s' = Finished
                  \<and> processCalls exampleLibm [laterCall, laterCall] s'
                      = Inr (s'\<lparr>warnings := warnings s' @ [finishedWarning, finishedWarning]\<rparr>)))
   \<and> available (freshStretcher\<lparr>mode := Finished\<rparr>) = - 1
   \<and> available freshStretcher = 0"
proof -
  have h1: "mode freshStretcher \<noteq> Finished" by (simp add: freshStretcher_def)
  have h2: "returns (prepareOffline exampleLibm freshStretcher)"
    by (simp add: stream_defs)
  have h3: "1 \<le> inhop freshStretcher" by (simp add: freshStretcher_def)
  have h4: "1 \<le> longestFftSize freshStretcher" by (simp add: freshStretcher_def)
  have h2': "realTime freshStretcher \<or> returns (prepareOffline exampleLibm freshStretcher)"
    using h2 by simp
  have a: "available (freshStretcher\<lparr>mode := Finished\<rparr>) = - 1"
    "available freshStretcher = 0"
    by (simp_all add: available_def freshStretcher_def freshChannel_def ring_def
        getReadSpace_def)
  from process_final_spec [OF h1 h2' h3 h4, of onesInput 8 2 "[laterCall, laterCall]"]
  have "\<exists>N. \<forall>frames. N \<le> length frames \<longrightarrow>
            (\<exists>s'. process exampleLibm onesInput 8 True 2 frames freshStretcher = Inr s' \<and> mode s' = Finished
                  \<and> processCalls exampleLibm [laterCall, laterCall] s'
                      = Inr (s'\<lparr>warnings := warnings s' @ [finishedWarning, finishedWarning]\<rparr>))"
    by (simp add: numeral_2_eq_2)
  with h1 h2 h3 h4 a show ?thesis by blast
qed

lemma rb_skip_unread: "unread (rb_skip n rb) = drop (nat n) (unread rb)"
  by (simp add: rb_skip_def getReadSpace_def min_def)

lemma rb_zero_unread:
  "n \<le> getWriteSpace rb \<Longrightarrow> unread (rb_zero n rb) = unread rb @ replicate (nat n) 0"
  by (simp add: rb_zero_def min_def)

lemma startPadding_first:
  assumes "mode s = JustCreated \<or> mode s = Studying" and "startPadding s = Inr s'"
  shows "to_int (d_round (d_div (d_of_int (longestFftSize s div 2)) (pitchScale s)))
           = Inr (startSkip s')"
    and "c < length (channelData s) \<Longrightarrow>
           channelData s' ! c
             = (channelData s ! c)\<lparr>inbuf := rb_zero (longestFftSize s div 2) (inbuf (channelData s ! c))\<rparr>"
proof -
  let ?s1 = "if d_differs (pitchScale s) (Finite 1) \<and> \<not> haveResampler s
             then s\<lparr>haveResampler := True\<rparr> else s"
  let ?s2 = "forChannels (\<lambda>c cd. cd\<lparr>inbuf := rb_zero (longestFftSize s div 2) (inbuf cd)\<rparr>) ?s1"
  let ?skip = "to_int (d_round (d_div (d_of_int (longestFftSize s div 2)) (pitchScale s)))"
  have cd: "channelData ?s1 = channelData s" by (simp add: channelData_def)
  have sp: "startPadding s
      = (case ?skip of Inl e \<Rightarrow> Inl e | Inr skip \<Rightarrow> Inr (?s2\<lparr>startSkip := skip\<rparr>))"
    using assms(1) by (auto simp: startPadding_def Let_def split: sum.splits)
  with assms(2) obtain skip where k: "?skip = Inr skip" and s': "s' = ?s2\<lparr>startSkip := skip\<rparr>"
    by (auto split: sum.splits)
  show "?skip = Inr (startSkip s')" by (simp add: k s')
  assume c: "c < length (channelData s)"
  then have "c < length (channelData ?s1)" by (simp only: cd)
  from forChannels_nth [OF this, of "\<lambda>c cd. cd\<lparr>inbuf := rb_zero (longestFftSize s div 2) (inbuf cd)\<rparr>"]
  show "channelData s' ! c
             = (channelData s ! c)\<lparr>inbuf := rb_zero (longestFftSize s div 2) (inbuf (channelData s ! c))\<rparr>"
    by (simp add: s' cd channelData_def)
qed

lemma sameStreams_channelData: "sameStreams s s' \<Longrightarrow> channelData s' = channelData s"
  by (simp add: sameStreams_def channelData_def)

lemma prepareOffline_first:
  assumes p: "prepareOffline M s = Inr s1" and m: "mode s = JustCreated \<or> mode s = Studying"
    and room: "\<forall>cd \<in> set (channelData s). longestFftSize s div 2 \<le> getWriteSpace (inbuf cd)"
  shows "length (channelData s1) = length (channelData s)"
    and "\<forall>c < length (channelData s).
                 unread (inbuf (channelData s1 ! c))
                   = unread (inbuf (channelData s ! c)) @ replicate (nat (longestFftSize s div 2)) 0
               \<and> outbuf (channelData s1 ! c) = outbuf (channelData s ! c)"
    and "to_int (d_round (d_div (d_of_int (longestFftSize s div 2)) (pitchScale s)))
           = Inr (startSkip s1)"
proof -
  from prepareOffline_steps [OF p]
  obtain s2 where ss: "sameStreams s s2" and sp: "startPadding s2 = Inr s1" by blast
  have cd: "channelData s2 = channelData s" using ss by (rule sameStreams_channelData)
  have f: "mode s2 = mode s" "longestFftSize s2 = longestFftSize s" "pitchScale s2 = pitchScale s"
    using ss by (simp_all add: sameStreams_def)
  have m2: "mode s2 = JustCreated \<or> mode s2 = Studying" using m f by simp
  note st = startPadding_first [OF m2 sp]
  show "length (channelData s1) = length (channelData s)"
    using startPadding_Inr(7) [OF sp] cd by simp
  show "to_int (d_round (d_div (d_of_int (longestFftSize s div 2)) (pitchScale s)))
           = Inr (startSkip s1)"
    using st(1) f by simp
  show "\<forall>c < length (channelData s).
                 unread (inbuf (channelData s1 ! c))
                   = unread (inbuf (channelData s ! c)) @ replicate (nat (longestFftSize s div 2)) 0
               \<and> outbuf (channelData s1 ! c) = outbuf (channelData s ! c)"
  proof (intro allI impI)
    fix c assume c: "c < length (channelData s)"
    then have "channelData s ! c \<in> set (channelData s)" by simp
    with room have "longestFftSize s div 2 \<le> getWriteSpace (inbuf (channelData s ! c))" by blast
    from rb_zero_unread [OF this] st(2) [of c] c
    show "unread (inbuf (channelData s1 ! c))
                   = unread (inbuf (channelData s ! c)) @ replicate (nat (longestFftSize s div 2)) 0
               \<and> outbuf (channelData s1 ! c) = outbuf (channelData s ! c)"
      by (simp add: cd f)
  qed
qed

lemma emit_fields [simp]:
  "startSkip (emit outhop f s) = startSkip s"
  "length (channelData (emit outhop f s)) = length (channelData s)"
  "realTime (emit outhop f s) = realTime s"
  "totalTargetDuration (emit outhop f s) = totalTargetDuration s"
  "totalOutputDuration (emit outhop f s) = totalOutputDuration s + frameWriteCount outhop f s"
  by (simp_all add: emit_def Let_def channelData_def)

lemma synthesise_fields [simp]:
  "startSkip (synthesise outhop s) = startSkip s"
  "channelData (synthesise outhop s) = channelData s"
  "channel0 (synthesise outhop s) = channel0 s"
  "realTime (synthesise outhop s) = realTime s"
  "totalTargetDuration (synthesise outhop s) = totalTargetDuration s"
  "totalOutputDuration (synthesise outhop s) = totalOutputDuration s"
  "frameWriteCount outhop' f (synthesise outhop s) = frameWriteCount outhop' f s"
  by (simp_all add: synthesise_def Let_def channelData_def frameWriteCount_def
      proposedWriteCount_def resampling_def)

lemma skipStart_start:
  "startSkip (skipStart s)
     = startSkip s - (if startSkip s > 0 then min (startSkip s) (getReadSpace (outbuf (channel0 s))) else 0)"
  by (simp add: skipStart_def Let_def)

lemma skipStart_channels:
  assumes "c < length (channelData s)"
  shows "unread (outbuf (channelData (skipStart s) ! c))
     = drop (nat (if startSkip s > 0 then min (startSkip s) (getReadSpace (outbuf (channel0 s))) else 0))
            (unread (outbuf (channelData s ! c)))"
proof (cases "startSkip s > 0")
  case False
  then show ?thesis by (simp add: skipStart_def)
next
  case True
  let ?k = "min (startSkip s) (getReadSpace (outbuf (channel0 s)))"
  have "channelData (skipStart s) = channelData (forChannels (\<lambda>c cd. cd\<lparr>outbuf := rb_skip ?k (outbuf cd)\<rparr>) s)"
    using True by (simp add: skipStart_def Let_def channelData_def)
  with forChannels_nth [OF assms, of "\<lambda>c cd. cd\<lparr>outbuf := rb_skip ?k (outbuf cd)\<rparr>"] True
  show ?thesis by (simp add: rb_skip_unread)
qed

lemma processFrame_channelData:
  "channelData (processFrame outhop f s) = channelData (skipStart (emit outhop f (synthesise outhop s)))"
  by (simp add: processFrame_def channelData_def)

lemma processFrame_startSkip:
  "startSkip (processFrame outhop f s) = startSkip s - startDrop outhop f s"
  by (simp add: processFrame_def skipStart_start startDrop_def)

lemma processFrame_drop:
  assumes "c < length (channelData s)"
  shows "unread (outbuf (channelData (processFrame outhop f s) ! c))
     = drop (nat (startDrop outhop f s))
            (unread (outbuf (channelData (emit outhop f (synthesise outhop s)) ! c)))"
proof -
  have "c < length (channelData (emit outhop f (synthesise outhop s)))" using assms by simp
  from skipStart_channels [OF this] show ?thesis
    by (simp add: processFrame_channelData startDrop_def)
qed

text \<open>What a frame appends to the output rings, and what the start skip then drops.\<close>

lemma emit_outbuf:
  assumes "c < length (channelData s)"
  shows "unread (outbuf (channelData (emit outhop f s) ! c))
           = unread (outbuf (channelData s ! c)) @ frameChunk outhop f s c"
    and "capacity (outbuf (channelData (emit outhop f s) ! c)) = capacity (outbuf (channelData s ! c))"
proof -
  let ?s1 = "if inhop s > getReadSpace (inbuf (channel0 s)) \<and> mode s \<noteq> Finished
             then log0 shortReadWarning s else s"
  let ?g = "\<lambda>c cd. cd\<lparr>outbuf := rb_write (channelOutput f c) (frameWriteCount outhop f s) (outbuf cd),
                         inbuf := rb_skip (frameAdvanceCount s) (inbuf cd)\<rparr>"
  have cd1: "channelData ?s1 = channelData s" by simp
  have "channelData (emit outhop f s) = channelData (forChannels ?g ?s1)"
    by (simp add: emit_def Let_def channelData_def frameAdvanceCount_def)
  moreover have "c < length (channelData ?s1)" using assms by (simp only: cd1)
  ultimately have e: "channelData (emit outhop f s) ! c = ?g c (channelData s ! c)"
    using forChannels_nth [of c ?s1 ?g] by (simp only: cd1)
  show "unread (outbuf (channelData (emit outhop f s) ! c))
           = unread (outbuf (channelData s ! c)) @ frameChunk outhop f s c"
    by (simp add: e rb_write_def frameChunk_def)
  show "capacity (outbuf (channelData (emit outhop f s) ! c)) = capacity (outbuf (channelData s ! c))"
    by (simp add: e rb_write_def)
qed

lemma frameChunk_synthesise [simp]:
  "frameChunk outhop' f (synthesise outhop s) c = frameChunk outhop' f s c"
  by (simp add: frameChunk_def)

lemma channel0_nth: "channel0 s = channelData s ! 0"
  by (simp add: channelData_def)

lemma startDrop_chunk:
  "startDrop outhop f s
     = (if startSkip s > 0
        then min (startSkip s)
                 (int (length (unread (outbuf (channel0 s)) @ frameChunk outhop f s 0)))
        else 0)"
proof -
  have "0 < length (channelData (synthesise outhop s))" by (simp add: channelData_def)
  from emit_outbuf(1) [OF this, of outhop f]
  have "unread (outbuf (channel0 (emit outhop f (synthesise outhop s))))
          = unread (outbuf (channel0 s)) @ frameChunk outhop f s 0"
    by (simp add: channel0_nth)
  then show ?thesis by (simp add: startDrop_def getReadSpace_def)
qed

lemma processFrame_outbuf:
  assumes "c < length (channelData s)"
  shows "unread (outbuf (channelData (processFrame outhop f s) ! c))
           = drop (nat (startDrop outhop f s))
                  (unread (outbuf (channelData s ! c)) @ frameChunk outhop f s c)"
    and "capacity (outbuf (channelData (processFrame outhop f s) ! c))
           = capacity (outbuf (channelData s ! c))"
proof -
  have c': "c < length (channelData (synthesise outhop s))" using assms by simp
  from processFrame_drop [OF assms, of outhop f] emit_outbuf(1) [OF c', of outhop f]
  show "unread (outbuf (channelData (processFrame outhop f s) ! c))
           = drop (nat (startDrop outhop f s))
                  (unread (outbuf (channelData s ! c)) @ frameChunk outhop f s c)"
    by simp
  let ?e = "emit outhop f (synthesise outhop s)"
  have c'': "c < length (channelData ?e)" using assms by simp
  have "capacity (outbuf (channelData (skipStart ?e) ! c)) = capacity (outbuf (channelData ?e ! c))"
  proof (cases "startSkip ?e > 0")
    case False
    then show ?thesis by (simp add: skipStart_def)
  next
    case True
    let ?k = "min (startSkip ?e) (getReadSpace (outbuf (channel0 ?e)))"
    have "channelData (skipStart ?e)
            = channelData (forChannels (\<lambda>c cd. cd\<lparr>outbuf := rb_skip ?k (outbuf cd)\<rparr>) ?e)"
      using True by (simp add: skipStart_def Let_def channelData_def)
    with forChannels_nth [OF c'', of "\<lambda>c cd. cd\<lparr>outbuf := rb_skip ?k (outbuf cd)\<rparr>"]
    show ?thesis by (simp add: rb_skip_def)
  qed
  with emit_outbuf(2) [OF c', of outhop f]
  show "capacity (outbuf (channelData (processFrame outhop f s) ! c))
           = capacity (outbuf (channelData s ! c))"
    by (simp add: processFrame_channelData)
qed

text \<open>Aligned output rings take chunks of equal length and stay aligned.\<close>

lemma outputsAligned_nth:
  "outputsAligned s \<longleftrightarrow>
     (\<forall>c < length (channelData s).
         length (unread (outbuf (channelData s ! c))) = length (unread (outbuf (channel0 s)))
       \<and> capacity (outbuf (channelData s ! c)) = capacity (outbuf (channel0 s)))"
  by (simp add: outputsAligned_def all_set_conv_all_nth)

lemma frameChunk_aligned:
  assumes "outputsAligned s" and "c < length (channelData s)"
  shows "length (frameChunk outhop f s c) = length (frameChunk outhop f s 0)"
proof -
  from assms have "getWriteSpace (outbuf (channelData s ! c)) = getWriteSpace (outbuf (channel0 s))"
    by (simp add: outputsAligned_nth getWriteSpace_def)
  then show ?thesis by (simp add: frameChunk_def channel0_nth)
qed

lemma processFrame_aligned:
  assumes "outputsAligned s"
  shows "outputsAligned (processFrame outhop f s)"
proof -
  have z: "0 < length (channelData s)" by (simp add: channelData_def)
  have "length (unread (outbuf (channelData (processFrame outhop f s) ! c)))
          = length (unread (outbuf (channel0 (processFrame outhop f s))))
      \<and> capacity (outbuf (channelData (processFrame outhop f s) ! c))
          = capacity (outbuf (channel0 (processFrame outhop f s)))"
    if c: "c < length (channelData s)" for c
  proof -
    from assms c have a: "length (unread (outbuf (channelData s ! c)))
                            = length (unread (outbuf (channelData s ! 0)))"
      "capacity (outbuf (channelData s ! c)) = capacity (outbuf (channelData s ! 0))"
      by (simp_all add: outputsAligned_nth channel0_nth)
    from frameChunk_aligned [OF assms c, of outhop f] a
    show ?thesis
      by (simp add: channel0_nth processFrame_outbuf [OF c] processFrame_outbuf [OF z])
  qed
  then show ?thesis by (simp add: outputsAligned_nth)
qed

lemma processFrame_skipping:
  assumes "0 < startSkip (processFrame outhop f s)"
  shows "unread (outbuf (channel0 (processFrame outhop f s))) = []"
proof -
  let ?ring = "unread (outbuf (channel0 s)) @ frameChunk outhop f s 0"
  have z: "0 < length (channelData s)" by (simp add: channelData_def)
  from assms have "startDrop outhop f s < startSkip s \<and> 0 < startSkip s"
    by (auto simp: processFrame_startSkip startDrop_chunk split: if_splits)
  then have d: "startDrop outhop f s = int (length ?ring)"
    by (auto simp: startDrop_chunk)
  have n: "nat (startDrop outhop f s) = length ?ring" by (simp only: d nat_int)
  have eq: "unread (outbuf (channel0 (processFrame outhop f s)))
              = drop (nat (startDrop outhop f s)) ?ring"
    using processFrame_outbuf(1) [OF z, of outhop f] by (simp only: channel0_nth)
  show ?thesis unfolding eq n by (rule drop_all) simp
qed

text \<open>The arithmetic of one frame's drop followed by the drops of the later frames.\<close>

lemma drop_step:
  fixes S E :: int
  assumes "0 < S \<longrightarrow> old = []" and "0 \<le> E"
    and "k = (if 0 < S then min S (int (length (old @ chunk))) else 0)"
  shows "drop (nat (max 0 (min (S - k) E))) (drop (nat k) (old @ chunk) @ rest)
           = drop (nat (max 0 (min S (int (length chunk) + E)))) (old @ chunk @ rest)"
    and "S - k - max 0 (min (S - k) E) = S - max 0 (min S (int (length chunk) + E))"
proof -
  show "S - k - max 0 (min (S - k) E) = S - max 0 (min S (int (length chunk) + E))"
    using assms by (auto simp: min_def max_def)
  show "drop (nat (max 0 (min (S - k) E))) (drop (nat k) (old @ chunk) @ rest)
           = drop (nat (max 0 (min S (int (length chunk) + E)))) (old @ chunk @ rest)"
  proof (cases "0 < S")
    case False
    with assms show ?thesis by (simp add: min_def max_def)
  next
    case True
    with assms(1) have old: "old = []" by simp
    show ?thesis
    proof (cases "S \<le> int (length chunk)")
      case True
      with \<open>0 < S\<close> assms(2,3) old have k: "k = S" by simp
      have "max 0 (min S (int (length chunk) + E)) = S"
        using True \<open>0 < S\<close> assms(2) by (simp add: min_def max_def)
      moreover have "nat S \<le> length chunk" using True by simp
      ultimately show ?thesis using assms(2) by (simp add: k old min_def max_def)
    next
      case False
      with \<open>0 < S\<close> assms(3) old have k: "k = int (length chunk)" by simp
      have "max 0 (min S (int (length chunk) + E))
              = int (length chunk) + max 0 (min (S - int (length chunk)) E)"
        using False assms(2) by (simp add: min_def max_def)
      moreover have "nat (int (length chunk) + max 0 (min (S - int (length chunk)) E))
                       = length chunk + nat (max 0 (min (S - int (length chunk)) E))"
        by (simp add: nat_add_distrib)
      ultimately show ?thesis by (simp add: k old)
    qed
  qed
qed

text \<open>
  A run of the frame loop on aligned output rings, which are empty while the start skip
  is positive: the start skip goes down by the number of samples dropped, the smaller of
  the start skip and the number of samples emitted, and every output ring holds what was
  there and what was emitted, less the samples dropped from its head.
\<close>

lemma consumeLoop_skip:
  assumes "consumeLoop outhop frames s = Inr s'" and "outputsAligned s"
    and "0 < startSkip s \<longrightarrow> unread (outbuf (channel0 s)) = []"
  shows "startSkip s'
           = startSkip s - max 0 (min (startSkip s) (int (length (emittedLoop outhop frames s 0))))
       \<and> length (channelData s') = length (channelData s)
       \<and> (\<forall>c < length (channelData s).
             unread (outbuf (channelData s' ! c))
               = drop (nat (max 0 (min (startSkip s) (int (length (emittedLoop outhop frames s 0))))))
                      (unread (outbuf (channelData s ! c)) @ emittedLoop outhop frames s c))"
  using assms
proof (induction frames arbitrary: s)
  case Nil
  then have "s' = s" by (simp split: if_splits)
  then show ?case by (simp add: min_def max_def)
next
  case (Cons f fs)
  show ?case
  proof (cases "continues outhop s")
    case False
    with Cons.prems(1) have "s' = s" by simp
    with False show ?thesis by (simp add: min_def max_def)
  next
    case True
    let ?s1 = "processFrame outhop f s"
    let ?E = "\<lambda>c. emittedLoop outhop fs ?s1 c"
    let ?D1 = "max 0 (min (startSkip ?s1) (int (length (?E 0))))"
    let ?k = "startDrop outhop f s"
    let ?S = "startSkip s"
    let ?D = "max 0 (min ?S (int (length (frameChunk outhop f s 0)) + int (length (?E 0))))"
    have run: "consumeLoop outhop fs ?s1 = Inr s'" using Cons.prems(1) True by simp
    have al1: "outputsAligned ?s1" using Cons.prems(2) by (rule processFrame_aligned)
    have em1: "0 < startSkip ?s1 \<longrightarrow> unread (outbuf (channel0 ?s1)) = []"
      using processFrame_skipping [of outhop f s] by blast
    from Cons.IH [OF run al1 em1]
    have ih1: "startSkip s' = startSkip ?s1 - ?D1"
      and ih2: "length (channelData s') = length (channelData ?s1)"
      and ih3: "\<And>c. c < length (channelData ?s1) \<Longrightarrow>
                  unread (outbuf (channelData s' ! c))
                    = drop (nat ?D1) (unread (outbuf (channelData ?s1 ! c)) @ ?E c)"
      by blast+
    have z: "0 < length (channelData s)" by (simp add: channelData_def)
    have em: "emittedLoop outhop (f # fs) s c = frameChunk outhop f s c @ ?E c" for c
      using True by simp
    have k0: "?k = (if 0 < ?S then min ?S (int (length (unread (outbuf (channel0 s))
                                                       @ frameChunk outhop f s 0))) else 0)"
      by (rule startDrop_chunk)
    have s1: "startSkip ?s1 = ?S - ?k" by (rule processFrame_startSkip)
    have e0: "0 \<le> int (length (?E 0))" by simp
    note d0 = drop_step [OF Cons.prems(3) e0 k0]
    have skip: "startSkip s' = ?S - ?D"
      using ih1 d0(2) by (simp only: s1)
    have rings: "unread (outbuf (channelData s' ! c))
               = drop (nat ?D) (unread (outbuf (channelData s ! c)) @ emittedLoop outhop (f # fs) s c)"
      if c: "c < length (channelData s)" for c
    proof -
      let ?old = "unread (outbuf (channelData s ! c))"
      let ?chunk = "frameChunk outhop f s c"
      have lc: "length ?chunk = length (frameChunk outhop f s 0)"
        using Cons.prems(2) c by (rule frameChunk_aligned)
      have lo: "length ?old = length (unread (outbuf (channel0 s)))"
        using Cons.prems(2) c by (simp add: outputsAligned_nth)
      have old: "0 < ?S \<longrightarrow> ?old = []" using Cons.prems(3) lo by auto
      have kc: "?k = (if 0 < ?S then min ?S (int (length (?old @ ?chunk))) else 0)"
        using k0 lc lo by simp
      note dc = drop_step(1) [OF old e0 kc]
      have c1: "c < length (channelData ?s1)" using c by simp
      have "unread (outbuf (channelData s' ! c))
              = drop (nat ?D1) (drop (nat ?k) (?old @ ?chunk) @ ?E c)"
        using ih3 [OF c1] processFrame_outbuf(1) [OF c, of outhop f] by simp
      also have "\<dots> = drop (nat (max 0 (min (?S - ?k) (int (length (?E 0))))))
                          (drop (nat ?k) (?old @ ?chunk) @ ?E c)"
        by (simp only: s1)
      also have "\<dots> = drop (nat (max 0 (min ?S (int (length ?chunk) + int (length (?E 0))))))
                          (?old @ ?chunk @ ?E c)"
        by (rule dc)
      finally show ?thesis by (simp only: lc em)
    qed
    have len: "length (channelData s') = length (channelData s)" using ih2 by simp
    have D: "max 0 (min ?S (int (length (emittedLoop outhop (f # fs) s 0)))) = ?D"
      using True by simp
    show ?thesis using skip len rings unfolding D by blast
  qed
qed

lemma consume_skip:
  assumes "consume outhop frames s = Inr s'" and "outputsAligned s"
    and "0 < startSkip s \<longrightarrow> unread (outbuf (channel0 s)) = []"
  shows "startSkip s'
           = startSkip s - max 0 (min (startSkip s) (int (length (emitted outhop frames s 0))))"
    and "c < length (channelData s) \<Longrightarrow>
           unread (outbuf (channelData s' ! c))
             = drop (nat (max 0 (min (startSkip s) (int (length (emitted outhop frames s 0))))))
                    (unread (outbuf (channelData s ! c)) @ emitted outhop frames s c)"
proof -
  have "startSkip s'
           = startSkip s - max 0 (min (startSkip s) (int (length (emitted outhop frames s 0))))
       \<and> (\<forall>c < length (channelData s).
             unread (outbuf (channelData s' ! c))
               = drop (nat (max 0 (min (startSkip s) (int (length (emitted outhop frames s 0))))))
                      (unread (outbuf (channelData s ! c)) @ emitted outhop frames s c))"
  proof (cases "outhop < 1")
    case True
    let ?t = "log0 outhopWarning s"
    have run: "consumeLoop 1 frames ?t = Inr s'" using assms(1) True by (simp add: consume_def)
    have al: "outputsAligned ?t" using assms(2) by (simp add: outputsAligned_def)
    have em: "0 < startSkip ?t \<longrightarrow> unread (outbuf (channel0 ?t)) = []" using assms(3) by simp
    have e: "emittedLoop 1 frames ?t c = emitted outhop frames s c" for c
      using True by (simp add: emitted_def)
    from consumeLoop_skip [OF run al em] show ?thesis by (simp add: e)
  next
    case False
    have run: "consumeLoop outhop frames s = Inr s'" using assms(1) False by (simp add: consume_def)
    have e: "emittedLoop outhop frames s c = emitted outhop frames s c" for c
      using False by (simp add: emitted_def)
    from consumeLoop_skip [OF run assms(2,3)] show ?thesis by (simp add: e)
  qed
  then show "startSkip s'
           = startSkip s - max 0 (min (startSkip s) (int (length (emitted outhop frames s 0))))"
    and "c < length (channelData s) \<Longrightarrow>
           unread (outbuf (channelData s' ! c))
             = drop (nat (max 0 (min (startSkip s) (int (length (emitted outhop frames s 0))))))
                    (unread (outbuf (channelData s ! c)) @ emitted outhop frames s c)"
    by blast+
qed

lemma writeInput_outbuf:
  "startSkip (writeInput input n s) = startSkip s"
  "length (channelData (writeInput input n s)) = length (channelData s)"
  "c < length (channelData s) \<Longrightarrow>
     outbuf (channelData (writeInput input n s) ! c) = outbuf (channelData s ! c)"
proof -
  let ?s1 = "if n > getWriteSpace (inbuf (channel0 s)) then
               forChannels (\<lambda>c cd. cd\<lparr>inbuf := resized (getSize (inbuf (channel0 s))
                                 - getWriteSpace (inbuf (channel0 s)) + n) (inbuf cd)\<rparr>)
                 (log0 growWarning s)
             else s"
  have w: "writeInput input n s
             = forChannels (\<lambda>c cd. cd\<lparr>inbuf := rb_write (input c) n (inbuf cd)\<rparr>) ?s1"
    by (simp add: writeInput_def Let_def)
  show "startSkip (writeInput input n s) = startSkip s" by (simp add: w)
  have l1: "length (channelData ?s1) = length (channelData s)" by simp
  show "length (channelData (writeInput input n s)) = length (channelData s)"
    by (simp add: w)
  assume c: "c < length (channelData s)"
  then have c1: "c < length (channelData ?s1)" by (simp only: l1)
  have c2: "c < length (channelData (log0 growWarning s))" using c by simp
  have "outbuf (channelData ?s1 ! c) = outbuf (channelData s ! c)"
    using forChannels_nth [OF c2] by simp
  with forChannels_nth [OF c1, of "\<lambda>c cd. cd\<lparr>inbuf := rb_write (input c) n (inbuf cd)\<rparr>"]
  show "outbuf (channelData (writeInput input n s) ! c) = outbuf (channelData s ! c)"
    by (simp only: w) simp
qed


lemma prefill_example:
  "prepareOffline M freshStretcher
     = Inr (freshStretcher\<lparr>channel0 := \<lparr>inbuf = ring [0, 0, 0, 0] 16, outbuf = ring [] 128\<rparr>,
                          startSkip := 4\<rparr>)"
  by (simp add: stream_defs numeral_eq_Suc)


lemma proposedWriteCount_nonneg:
  "1 \<le> outhop \<Longrightarrow> 0 \<le> resampledCount f \<Longrightarrow> 0 \<le> proposedWriteCount outhop f s"
  by (simp add: proposedWriteCount_def)

lemma frameWriteCount_offline:
  assumes "outputWithinTarget s"
  shows "frameWriteCount outhop f s
           = (if totalOutputDuration s + proposedWriteCount outhop f s > totalTargetDuration s
              then totalTargetDuration s - totalOutputDuration s
              else proposedWriteCount outhop f s)"
  using assms by (simp add: frameWriteCount_def outputWithinTarget_def Let_def)

lemma frameWriteCount_within:
  assumes "outputWithinTarget s" and "0 \<le> proposedWriteCount outhop f s"
  shows "0 \<le> frameWriteCount outhop f s"
    and "totalOutputDuration s + frameWriteCount outhop f s \<le> totalTargetDuration s"
  using assms by (auto simp: frameWriteCount_offline outputWithinTarget_def)

lemma emit_outbuf0:
  "getReadSpace (outbuf (channel0 (emit outhop f s)))
     = getReadSpace (outbuf (channel0 s))
       + max 0 (min (frameWriteCount outhop f s) (getWriteSpace (outbuf (channel0 s))))"
  by (simp add: emit_def Let_def getReadSpace_write)

lemma synthesise_within: "outputWithinTarget (synthesise outhop s) = outputWithinTarget s"
  by (simp add: outputWithinTarget_def)

lemma proposedWriteCount_synthesise [simp]:
  "proposedWriteCount outhop' f (synthesise outhop s) = proposedWriteCount outhop' f s"
  by (simp add: proposedWriteCount_def resampling_def synthesise_def Let_def)

lemma emit_within:
  assumes inv: "outputWithinTarget s" and w: "0 \<le> proposedWriteCount outhop f s"
  shows "outputWithinTarget (emit outhop f s)"
proof -
  note fw = frameWriteCount_within [OF inv w]
  have "max 0 (min (frameWriteCount outhop f s) (getWriteSpace (outbuf (channel0 s))))
          \<le> frameWriteCount outhop f s"
    using fw(1) by simp
  moreover have "getReadSpace (outbuf (channel0 s)) \<le> totalOutputDuration s"
    using inv by (simp add: outputWithinTarget_def)
  ultimately have "getReadSpace (outbuf (channel0 (emit outhop f s)))
          \<le> totalOutputDuration s + frameWriteCount outhop f s"
    unfolding emit_outbuf0 by linarith
  with inv fw show ?thesis by (simp add: outputWithinTarget_def)
qed

lemma skipStart_within:
  assumes "outputWithinTarget s"
  shows "outputWithinTarget (skipStart s)"
proof (cases "startSkip s > 0")
  case False
  with assms show ?thesis by (simp add: skipStart_def)
next
  case True
  let ?rs = "getReadSpace (outbuf (channel0 s))"
  let ?k = "min (startSkip s) ?rs"
  have k: "0 \<le> ?k" "?k \<le> ?rs" using True by simp_all
  have rs': "getReadSpace (outbuf (channel0 (skipStart s))) = ?rs - ?k"
    using True k by (simp add: skipStart_def Let_def getReadSpace_skip)
  have t': "totalOutputDuration (skipStart s) = ?rs - ?k"
    "realTime (skipStart s) = realTime s"
    "totalTargetDuration (skipStart s) = totalTargetDuration s"
    using True by (simp_all add: skipStart_def Let_def)
  have "getReadSpace (outbuf (channel0 s)) \<le> totalOutputDuration s"
    "totalOutputDuration s \<le> totalTargetDuration s" "\<not> realTime s" "0 < totalTargetDuration s"
    using assms by (simp_all add: outputWithinTarget_def)
  with k have "0 \<le> ?rs - ?k" "?rs - ?k \<le> totalTargetDuration s" by linarith+
  with rs' t' \<open>\<not> realTime s\<close> \<open>0 < totalTargetDuration s\<close> show ?thesis
    unfolding outputWithinTarget_def by (simp only:) simp
qed

lemma processFrame_within:
  assumes "outputWithinTarget s" and "0 \<le> proposedWriteCount outhop f s"
  shows "outputWithinTarget (processFrame outhop f s)"
proof -
  have "outputWithinTarget (synthesise outhop s)" using assms(1) by (simp add: synthesise_within)
  moreover have "0 \<le> proposedWriteCount outhop f (synthesise outhop s)" using assms(2) by simp
  ultimately have "outputWithinTarget (emit outhop f (synthesise outhop s))" by (rule emit_within)
  then have "outputWithinTarget (skipStart (emit outhop f (synthesise outhop s)))"
    by (rule skipStart_within)
  then show ?thesis by (simp add: processFrame_def outputWithinTarget_def)
qed

lemma consumeLoop_within:
  assumes "\<forall>g \<in> set frames. 0 \<le> resampledCount g" and "1 \<le> outhop"
    and "outputWithinTarget s" and "consumeLoop outhop frames s = Inr s'"
  shows "outputWithinTarget s'"
  using assms
proof (induction frames arbitrary: s)
  case Nil
  then show ?case by (simp split: if_splits)
next
  case (Cons f fs)
  show ?case
  proof (cases "continues outhop s")
    case False
    with Cons.prems show ?thesis by simp
  next
    case True
    have "0 \<le> proposedWriteCount outhop f s"
      using Cons.prems(1,2) by (simp add: proposedWriteCount_nonneg)
    from processFrame_within [OF Cons.prems(3) this]
    have "outputWithinTarget (processFrame outhop f s)" .
    from Cons.IH [OF _ Cons.prems(2) this] Cons.prems(1,4) True show ?thesis by simp
  qed
qed

text \<open>
  C5, as stated, keeps \<open>totalOutputDuration\<close> within \<open>totalTargetDuration\<close> in offline
  mode without condition.  The small engine was given neither a study pass nor an
  expected duration, so its target is 0 and no write is truncated: after its first block
  of eight samples and three frames the counter stands at 2.
\<close>

theorem output_exceeds_zero_target_counterexample:
  "map_sum id (\<lambda>s. (realTime s, totalTargetDuration s, totalOutputDuration s))
     (process exampleLibm onesInput 8 False 2 [halfFrame, halfFrame, halfFrame] freshStretcher)
   = Inr (False, 0, 2)"
  by (simp add: stream_defs)

text \<open>
  C5 (amended): in offline mode with a positive \<open>totalTargetDuration\<close>,
  \<open>totalOutputDuration\<close> never exceeds \<open>totalTargetDuration\<close> during processing: if the
  counter is within the target (and channel 0's output ring holds no more than the
  counter), it is so again after every frame and at the end of every run of the frame
  loop.  Whenever emitting the frame's \<open>writeCount\<close> samples would take the counter past
  the target, the write count is truncated to exactly \<open>totalTargetDuration -
  totalOutputDuration\<close>, and it is \<open>writeCount\<close> otherwise; the counter advances by the
  write count.  The output hop is at least 1 and the resampler's counts are not negative.
\<close>

theorem output_within_target:
  assumes "outputWithinTarget s" and "1 \<le> outhop" and "0 \<le> resampledCount f"
    and "\<forall>g \<in> set frames. 0 \<le> resampledCount g"
  shows "outputWithinTarget (processFrame outhop f s)
       \<and> (totalOutputDuration s + proposedWriteCount outhop f s > totalTargetDuration s \<longrightarrow>
            frameWriteCount outhop f s = totalTargetDuration s - totalOutputDuration s)
       \<and> (totalOutputDuration s + proposedWriteCount outhop f s \<le> totalTargetDuration s \<longrightarrow>
            frameWriteCount outhop f s = proposedWriteCount outhop f s)
       \<and> totalOutputDuration (emit outhop f (synthesise outhop s))
            = totalOutputDuration s + frameWriteCount outhop f s
       \<and> (\<forall>s'. consumeLoop outhop frames s = Inr s' \<longrightarrow> outputWithinTarget s')"
proof -
  have w: "0 \<le> proposedWriteCount outhop f s"
    using assms(2,3) by (rule proposedWriteCount_nonneg)
  have "outputWithinTarget (processFrame outhop f s)"
    using assms(1) w by (rule processFrame_within)
  moreover have "\<forall>s'. consumeLoop outhop frames s = Inr s' \<longrightarrow> outputWithinTarget s'"
    using consumeLoop_within [OF assms(4,2,1)] by blast
  ultimately show ?thesis
    using frameWriteCount_offline [OF assms(1), of outhop f] by simp
qed

text \<open>
  The theorem at the engine with target 5 and four samples emitted: the frame's two
  samples would pass the target, one is written, and the counter stops at 5.
\<close>

theorem output_within_target_witness:
  "outputWithinTarget targetStretcher \<and> (1::int) \<le> 2 \<and> 0 \<le> resampledCount halfFrame
   \<and> outputWithinTarget (processFrame 2 halfFrame targetStretcher)
   \<and> totalOutputDuration targetStretcher + proposedWriteCount 2 halfFrame targetStretcher = 6
   \<and> frameWriteCount 2 halfFrame targetStretcher = 1
   \<and> totalOutputDuration (processFrame 2 halfFrame targetStretcher) = 5
   \<and> totalTargetDuration (processFrame 2 halfFrame targetStretcher) = 5"
proof -
  have h1: "outputWithinTarget targetStretcher"
    by (simp add: outputWithinTarget_def targetStretcher_def freshStretcher_def ring_def
        getReadSpace_def)
  have h2: "(1::int) \<le> 2" by simp
  have h3: "0 \<le> resampledCount halfFrame" by (simp add: halfFrame_def)
  have h4: "\<forall>g \<in> set [halfFrame]. 0 \<le> resampledCount g" by (simp add: halfFrame_def)
  have p: "totalOutputDuration targetStretcher + proposedWriteCount 2 halfFrame targetStretcher = 6"
    "totalTargetDuration targetStretcher = 5" "totalOutputDuration targetStretcher = 4"
    by (simp_all add: proposedWriteCount_def resampling_def targetStretcher_def freshStretcher_def)
  have t: "totalOutputDuration (processFrame 2 halfFrame targetStretcher) = 5"
    "totalTargetDuration (processFrame 2 halfFrame targetStretcher) = 5"
    by (simp_all add: targetStretcher_def stream_defs)
  from output_within_target [OF h1 h2 h3 h4] p
  have "outputWithinTarget (processFrame 2 halfFrame targetStretcher)
        \<and> frameWriteCount 2 halfFrame targetStretcher = 1"
    by simp
  with h1 h3 p t show ?thesis by simp
qed

section \<open>Properties of the spectral analysis\<close>

lemma map_of_map_unless:
  "map_of (map (\<lambda>(n, sc). if P n then (n, sc) else (n, f n sc)) al) k
     = map_option (\<lambda>sc. if P k then sc else f k sc) (map_of al k)"
  by (induction al) auto

lemma keys_map_unless:
  "map fst (map (\<lambda>(n, sc). if P n then (n, sc) else (n, f n sc)) al) = map fst al"
  by (induction al) auto

lemma keys_map_entry: "map fst (AList.map_entry k f al) = map fst al"
  by (induction al) auto

lemma map_of_map_entry_same:
  "map_of al k = Some v \<Longrightarrow> map_of (AList.map_entry k f al) k = Some (f v)"
  by (simp add: map_of_map_entry)

lemma map_of_map_entry_other:
  "k' \<noteq> k \<Longrightarrow> map_of (AList.map_entry k f al) k' = map_of al k'"
  by (simp add: map_of_map_entry)

lemma windowFrames_classify:
  assumes "classify \<noteq> longest" and "map_of (scales cd) classify = Some cs"
  shows "map_of (scales (windowFrames E longest classify ih valid input cd)) classify
           = Some (if valid then cs
                   else cs\<lparr>timeDomain := window_cut (analysisWindow E classify)
                                 (drop (nat ((longest - classify) div 2)) (peekFrame longest input))\<rparr>)"
    and "readahead (windowFrames E longest classify ih valid input cd)
           = (readahead cd)\<lparr>ClassificationReadaheadData.timeDomain :=
                 window_cut (analysisWindow E classify)
                   (drop (nat ((longest - classify) div 2 + ih)) (peekFrame longest input))\<rparr>"
    and "map fst (scales (windowFrames E longest classify ih valid input cd)) = map fst (scales cd)"
  using assms
  by (simp_all add: windowFrames_def Let_def map_of_map_entry map_of_map_unless
      keys_map_entry keys_map_unless del: map_map)

lemma reuseReadahead_classify:
  assumes "map_of (scales cd) classify = Some cs"
  shows "map_of (scales (reuseReadahead classify cd)) classify
           = Some (cs\<lparr>mag := v_copy (mag cs) (ClassificationReadaheadData.mag (readahead cd)) (bufSize cs),
                      phase := v_copy (phase cs) (ClassificationReadaheadData.phase (readahead cd))
                                 (bufSize cs)\<rparr>)"
    and "readahead (reuseReadahead classify cd) = readahead cd"
    and "map fst (scales (reuseReadahead classify cd)) = map fst (scales cd)"
  using assms by (simp_all add: reuseReadahead_def map_of_map_entry keys_map_entry)

lemma transformReadahead_classify:
  assumes "map_of (scales cd) classify = Some cs"
    and "filter (\<lambda>b. BandLimits.fftSize b = classify) bands = b # bs"
    and "td = v_fftshift classify (ClassificationReadaheadData.timeDomain (readahead cd))"
  shows "snd (transformReadahead E bands classify cd calls) = calls @ [(classify, td)]"
    and "map_of (scales (fst (transformReadahead E bands classify cd calls))) classify
           = Some (cs\<lparr>real_buf := fst (forward E classify td),
                      imag_buf := snd (forward E classify td),
                      mag := v_scale (mag cs) 0 (1 / real_of_int classify) (int (length (mag cs)))\<rparr>)"
    and "ClassificationReadaheadData.timeDomain (readahead (fst (transformReadahead E bands classify cd calls)))
           = td"
    and "(ClassificationReadaheadData.mag (readahead (fst (transformReadahead E bands classify cd calls))),
          ClassificationReadaheadData.phase (readahead (fst (transformReadahead E bands classify cd calls))))
           = convertToPolar E (classifySpec classify b)
               (ClassificationReadaheadData.mag (readahead cd))
               (ClassificationReadaheadData.phase (readahead cd))
               (fst (forward E classify td)) (snd (forward E classify td))"
    and "haveReadahead (fst (transformReadahead E bands classify cd calls))"
    and "map fst (scales (fst (transformReadahead E bands classify cd calls))) = map fst (scales cd)"
  using assms
  by (simp_all add: transformReadahead_def fftForward_def Let_def map_of_map_entry keys_map_entry
      split: prod.splits)

lemma v_scale_length [simp]: "length (v_scale xs from factor count) = length xs"
  by (simp add: v_scale_def)

lemma v_scale_nth:
  "i < length xs \<Longrightarrow>
     v_scale xs from factor count ! i
       = (if from \<le> int i \<and> int i < from + count then xs ! i * factor else xs ! i)"
  by (simp add: v_scale_def)

lemma convertToPolar_length [simp]:
  "length (fst (convertToPolar E spec m p re im)) = length m"
  "length (snd (convertToPolar E spec m p re im)) = length p"
  by (simp_all add: convertToPolar_def)

lemma convertToPolar_nth:
  "i < length m \<Longrightarrow>
     fst (convertToPolar E spec m p re im) ! i
       = (if inMagRange spec i then magnitude E (re ! i) (im ! i) else m ! i)"
  "i < length p \<Longrightarrow>
     snd (convertToPolar E spec m p re im) ! i
       = (if inPolarRange spec i then argument E (re ! i) (im ! i) else p ! i)"
  by (simp_all add: convertToPolar_def)

lemma transformScale_calls:
  "snd (transformScale E bands classify n sc calls) = calls @ [(n, v_fftshift n (timeDomain sc))]"
  "fst (transformScale E bands classify n sc calls) = fst (transformScale E bands classify n sc [])"
  by (simp_all add: transformScale_def fftForward_def Let_def split: prod.splits list.splits)

lemma transformScale_classify:
  assumes "filter (\<lambda>b. BandLimits.fftSize b = classify) bands = b # bs"
    and "sc' = fst (transformScale E bands classify classify sc calls)"
  shows "timeDomain sc' = v_fftshift classify (timeDomain sc)"
    and "real_buf sc' = fst (forward E classify (v_fftshift classify (timeDomain sc)))"
    and "imag_buf sc' = snd (forward E classify (v_fftshift classify (timeDomain sc)))"
    and "i < length (mag sc) \<Longrightarrow> int i < classify div 2 + 1 \<Longrightarrow>
           mag sc' ! i = magnitude E (real_buf sc' ! i) (imag_buf sc' ! i) * (1 / real_of_int classify)"
    and "i < length (phase sc) \<Longrightarrow> inPolarRange (classifySpec classify b) i \<Longrightarrow>
           phase sc' ! i = argument E (real_buf sc' ! i) (imag_buf sc' ! i)"
proof -
  obtain re im where f: "forward E classify (v_fftshift classify (timeDomain sc)) = (re, im)"
    by (cases "forward E classify (v_fftshift classify (timeDomain sc))")
  let ?spec = "classifySpec classify b"
  let ?conv = "convertToPolar E ?spec (mag sc) (phase sc) re im"
  have t: "sc' = sc\<lparr>timeDomain := v_fftshift classify (timeDomain sc), real_buf := re, imag_buf := im,
           mag := v_scale (fst ?conv) 0 (1 / real_of_int classify) (classify div 2 + 1),
           phase := snd ?conv\<rparr>"
    using assms f
    by (simp add: transformScale_def fftForward_def Let_def scaleSpec_def classifySpec_def
        split: prod.splits)
  show "timeDomain sc' = v_fftshift classify (timeDomain sc)"
    "real_buf sc' = fst (forward E classify (v_fftshift classify (timeDomain sc)))"
    "imag_buf sc' = snd (forward E classify (v_fftshift classify (timeDomain sc)))"
    by (simp_all add: t f)
  show "mag sc' ! i = magnitude E (real_buf sc' ! i) (imag_buf sc' ! i) * (1 / real_of_int classify)"
    if "i < length (mag sc)" "int i < classify div 2 + 1"
    using that by (simp add: t v_scale_nth convertToPolar_nth inMagRange_def classifySpec_def)
  show "phase sc' ! i = argument E (real_buf sc' ! i) (imag_buf sc' ! i)"
    if "i < length (phase sc)" "inPolarRange (classifySpec classify b) i"
    using that by (simp add: t convertToPolar_nth)
qed

text \<open>
  The loop over the scales: the scales it leaves, and the forward transforms it makes, one
  for every scale it does not pass over.
\<close>

lemma transformScale_pair:
  "transformScale E bands classify n sc calls
     = (fst (transformScale E bands classify n sc []), calls @ [(n, v_fftshift n (timeDomain sc))])"
  using transformScale_calls [of E bands classify n sc calls]
  by (cases "transformScale E bands classify n sc calls") simp

lemma transformScales_pair:
  "transformScales E bands classify valid al calls
     = (map (\<lambda>(n, sc). if n = classify \<and> valid then (n, sc)
                        else (n, fst (transformScale E bands classify n sc []))) al,
        calls @ map (\<lambda>(n, sc). (n, v_fftshift n (timeDomain sc)))
                  (filter (\<lambda>(n, sc). \<not> (n = classify \<and> valid)) al))"
proof (induction al arbitrary: calls)
  case Nil
  show ?case by simp
next
  case (Cons p al)
  obtain n sc where p: "p = (n, sc)" by (cases p)
  show ?case
    unfolding p transformScales.simps Cons.IH transformScale_pair [of _ _ _ _ _ calls]
    by simp
qed

lemma transformScales_char:
  "fst (transformScales E bands classify valid al calls)
     = map (\<lambda>(n, sc). if n = classify \<and> valid then (n, sc)
                       else (n, fst (transformScale E bands classify n sc []))) al"
  "snd (transformScales E bands classify valid al calls)
     = calls @ map (\<lambda>(n, sc). (n, v_fftshift n (timeDomain sc)))
                 (filter (\<lambda>(n, sc). \<not> (n = classify \<and> valid)) al)"
  by (simp_all add: transformScales_pair)

lemma filter_key_distinct:
  "distinct (map fst al) \<Longrightarrow> map_of al k = Some v \<Longrightarrow> filter (\<lambda>p. fst p = k) al = [(k, v)]"
proof (induction al)
  case Nil
  then show ?case by simp
next
  case (Cons p al)
  obtain a b where p: "p = (a, b)" by (cases p)
  show ?case
  proof (cases "a = k")
    case True
    with Cons.prems p have "k \<notin> fst ` set al" and "b = v" by auto
    then have "filter (\<lambda>p. fst p = k) al = []" by (auto simp: filter_empty_conv)
    with True p \<open>b = v\<close> show ?thesis by simp
  next
    case False
    with Cons p show ?thesis by simp
  qed
qed

lemma filter_calls_key:
  assumes "distinct (map fst al)" and "map_of al k = Some v"
  shows "filter (\<lambda>c. fst c = k)
           (map (\<lambda>(n, sc). (n, g n sc)) (filter (\<lambda>(n, sc). \<not> (n = k \<and> valid)) al))
         = (if valid then [] else [(k, g k v)])"
proof -
  have "filter (\<lambda>c. fst c = k)
           (map (\<lambda>(n, sc). (n, g n sc)) (filter (\<lambda>(n, sc). \<not> (n = k \<and> valid)) al))
        = map (\<lambda>(n, sc). (n, g n sc))
            (filter (\<lambda>p. \<not> valid) (filter (\<lambda>p. fst p = k) al))"
    by (induction al) auto
  also have "\<dots> = (if valid then [] else [(k, g k v)])"
    using filter_key_distinct [OF assms] by simp
  finally show ?thesis .
qed

lemma analyseSpectra_char:
  assumes L: "map_of (scales cd) longest = Some ls"
    and C: "map_of (scales cd) classify = Some cs"
    and ne: "classify \<noteq> longest"
    and band: "filter (\<lambda>b. BandLimits.fftSize b = classify) bands = b # bs"
    and dk: "distinct (map fst (scales cd))"
    and ra: "raFrame = v_fftshift classify
                 (window_cut (analysisWindow E classify)
                    (drop (nat ((longest - classify) div 2 + ih)) (peekFrame longest input)))"
    and cur: "curFrame = v_fftshift classify
                 (window_cut (analysisWindow E classify)
                    (drop (nat ((longest - classify) div 2)) (peekFrame longest input)))"
  shows "\<exists>cd' cs' calls.
           analyseSpectra E bands longest classify input ih pih cd = Inr (cd', calls)
         \<and> map_of (scales cd') classify = Some cs'
         \<and> haveReadahead cd'
         \<and> ClassificationReadaheadData.timeDomain (readahead cd') = raFrame
         \<and> (ClassificationReadaheadData.mag (readahead cd'),
            ClassificationReadaheadData.phase (readahead cd'))
             = convertToPolar E (classifySpec classify b)
                 (ClassificationReadaheadData.mag (readahead cd))
                 (ClassificationReadaheadData.phase (readahead cd))
                 (fst (forward E classify raFrame)) (snd (forward E classify raFrame))
         \<and> (haveReadahead cd \<and> ih = pih \<longrightarrow>
               mag cs' = v_scale (v_copy (mag cs) (ClassificationReadaheadData.mag (readahead cd)) (bufSize cs))
                           0 (1 / real_of_int classify)
                           (int (length (v_copy (mag cs) (ClassificationReadaheadData.mag (readahead cd))
                                           (bufSize cs))))
             \<and> phase cs' = v_copy (phase cs) (ClassificationReadaheadData.phase (readahead cd)) (bufSize cs)
             \<and> timeDomain cs' = timeDomain cs
             \<and> (real_buf cs', imag_buf cs') = forward E classify raFrame
             \<and> filter (\<lambda>c. fst c = classify) calls = [(classify, raFrame)])
         \<and> (\<not> (haveReadahead cd \<and> ih = pih) \<longrightarrow>
               timeDomain cs' = curFrame
             \<and> (real_buf cs', imag_buf cs') = forward E classify curFrame
             \<and> (\<forall>i < length (mag cs). int i < classify div 2 + 1 \<longrightarrow>
                    mag cs' ! i = magnitude E (real_buf cs' ! i) (imag_buf cs' ! i)
                                  * (1 / real_of_int classify))
             \<and> (\<forall>i < length (phase cs). inPolarRange (classifySpec classify b) i \<longrightarrow>
                    phase cs' ! i = argument E (real_buf cs' ! i) (imag_buf cs' ! i))
             \<and> filter (\<lambda>c. fst c = classify) calls = [(classify, raFrame), (classify, curFrame)])"
proof -
  define valid where "valid = (haveReadahead cd \<and> ih = pih)"
  define cd1 where "cd1 = windowFrames E longest classify ih valid input cd"
  define cd2 where "cd2 = (if valid then reuseReadahead classify cd1 else cd1)"
  define cd3 where "cd3 = fst (transformReadahead E bands classify cd2 [])"
  define calls3 where "calls3 = snd (transformReadahead E bands classify cd2 [])"
  define scales4 where "scales4 = fst (transformScales E bands classify valid (scales cd3) calls3)"
  define calls4 where "calls4 = snd (transformScales E bands classify valid (scales cd3) calls3)"
  define cd4 where "cd4 = cd3\<lparr>scales := scales4\<rparr>"
  have run: "analyseSpectra E bands longest classify input ih pih cd = Inr (cd4, calls4)"
    using L C
    by (simp add: analyseSpectra_def Let_def cd4_def scales4_def calls4_def cd3_def calls3_def
        cd2_def cd1_def valid_def split: prod.splits)
  define w0 where "w0 = window_cut (analysisWindow E classify)
                          (drop (nat ((longest - classify) div 2)) (peekFrame longest input))"
  have cur': "curFrame = v_fftshift classify w0" using cur by (simp add: w0_def)
  define cs1 where "cs1 = (if valid then cs else cs\<lparr>timeDomain := w0\<rparr>)"
  note wf = windowFrames_classify [OF ne C, of E ih valid input]
  have c1: "map_of (scales cd1) classify = Some cs1"
    using wf(1) by (simp add: cd1_def cs1_def w0_def)
  have r1: "readahead cd1 = (readahead cd)\<lparr>ClassificationReadaheadData.timeDomain :=
                 window_cut (analysisWindow E classify)
                   (drop (nat ((longest - classify) div 2 + ih)) (peekFrame longest input))\<rparr>"
    using wf(2) by (simp add: cd1_def)
  have k1: "map fst (scales cd1) = map fst (scales cd)" using wf(3) by (simp add: cd1_def)
  define cs2 where "cs2 = (if valid
      then cs1\<lparr>mag := v_copy (mag cs1) (ClassificationReadaheadData.mag (readahead cd1)) (bufSize cs1),
                phase := v_copy (phase cs1) (ClassificationReadaheadData.phase (readahead cd1)) (bufSize cs1)\<rparr>
      else cs1)"
  have c2: "map_of (scales cd2) classify = Some cs2"
    and r2: "readahead cd2 = readahead cd1"
    and k2: "map fst (scales cd2) = map fst (scales cd1)"
    using reuseReadahead_classify [OF c1] c1 by (simp_all add: cd2_def cs2_def)
  have td: "raFrame = v_fftshift classify (ClassificationReadaheadData.timeDomain (readahead cd2))"
    using ra by (simp add: r2 r1)
  define cs3 where "cs3 = cs2\<lparr>real_buf := fst (forward E classify raFrame),
                      imag_buf := snd (forward E classify raFrame),
                      mag := v_scale (mag cs2) 0 (1 / real_of_int classify) (int (length (mag cs2)))\<rparr>"
  note tr3 = transformReadahead_classify [OF c2 band td, of E "[]"]
  have l3: "calls3 = [(classify, raFrame)]" using tr3(1) by (simp add: calls3_def)
  have c3: "map_of (scales cd3) classify = Some cs3"
    using tr3(2) by (simp add: cd3_def cs3_def)
  have r3: "ClassificationReadaheadData.timeDomain (readahead cd3) = raFrame"
    using tr3(3) by (simp add: cd3_def)
  have p3: "(ClassificationReadaheadData.mag (readahead cd3),
             ClassificationReadaheadData.phase (readahead cd3))
             = convertToPolar E (classifySpec classify b)
                 (ClassificationReadaheadData.mag (readahead cd))
                 (ClassificationReadaheadData.phase (readahead cd))
                 (fst (forward E classify raFrame)) (snd (forward E classify raFrame))"
    using tr3(4) by (simp add: cd3_def r2 r1)
  have h3: "haveReadahead cd3" using tr3(5) by (simp add: cd3_def)
  have k3: "map fst (scales cd3) = map fst (scales cd)"
    using tr3(6) by (simp add: cd3_def k2 k1)
  have d3: "distinct (map fst (scales cd3))" using dk by (simp only: k3)
  define cs4 where "cs4 = (if valid then cs3 else fst (transformScale E bands classify classify cs3 []))"
  have c4: "map_of (scales cd4) classify = Some cs4"
    using c3 by (auto simp: cd4_def scales4_def transformScales_char cs4_def map_of_map_unless)
  have r4: "readahead cd4 = readahead cd3" "haveReadahead cd4 = haveReadahead cd3"
    by (simp_all add: cd4_def)
  have l4: "filter (\<lambda>c. fst c = classify) calls4
              = (classify, raFrame)
                # (if valid then [] else [(classify, v_fftshift classify (timeDomain cs3))])"
    unfolding calls4_def transformScales_char l3
    using filter_calls_key [OF d3 c3, of "\<lambda>n sc. v_fftshift n (timeDomain sc)" valid]
    by simp
  have valid_case: "mag cs4 = v_scale (v_copy (mag cs) (ClassificationReadaheadData.mag (readahead cd)) (bufSize cs))
                           0 (1 / real_of_int classify)
                           (int (length (v_copy (mag cs) (ClassificationReadaheadData.mag (readahead cd))
                                           (bufSize cs))))
             \<and> phase cs4 = v_copy (phase cs) (ClassificationReadaheadData.phase (readahead cd)) (bufSize cs)
             \<and> timeDomain cs4 = timeDomain cs
             \<and> (real_buf cs4, imag_buf cs4) = forward E classify raFrame
             \<and> filter (\<lambda>c. fst c = classify) calls4 = [(classify, raFrame)]"
    if valid
    using that l4 by (simp add: cs4_def cs3_def cs2_def cs1_def r1)
  have invalid_case: "timeDomain cs4 = curFrame
             \<and> (real_buf cs4, imag_buf cs4) = forward E classify curFrame
             \<and> (\<forall>i < length (mag cs). int i < classify div 2 + 1 \<longrightarrow>
                    mag cs4 ! i = magnitude E (real_buf cs4 ! i) (imag_buf cs4 ! i)
                                  * (1 / real_of_int classify))
             \<and> (\<forall>i < length (phase cs). inPolarRange (classifySpec classify b) i \<longrightarrow>
                    phase cs4 ! i = argument E (real_buf cs4 ! i) (imag_buf cs4 ! i))
             \<and> filter (\<lambda>c. fst c = classify) calls4 = [(classify, raFrame), (classify, curFrame)]"
    if nvalid: "\<not> valid"
  proof -
    have e: "cs4 = fst (transformScale E bands classify classify cs3 [])"
      using nvalid by (simp add: cs4_def)
    have f3: "timeDomain cs3 = w0" "length (mag cs3) = length (mag cs)"
      "length (phase cs3) = length (phase cs)"
      using nvalid by (simp_all add: cs3_def cs2_def cs1_def)
    note t = transformScale_classify [OF band e]
    have "timeDomain cs4 = curFrame" using t(1) by (simp add: f3 cur')
    moreover have "(real_buf cs4, imag_buf cs4) = forward E classify curFrame"
      using t(2,3) by (simp add: f3 cur')
    moreover have "mag cs4 ! i = magnitude E (real_buf cs4 ! i) (imag_buf cs4 ! i)
                                  * (1 / real_of_int classify)"
      if "i < length (mag cs)" "int i < classify div 2 + 1" for i
      using t(4) [where i = i] that by (simp add: f3)
    moreover have "phase cs4 ! i = argument E (real_buf cs4 ! i) (imag_buf cs4 ! i)"
      if "i < length (phase cs)" "inPolarRange (classifySpec classify b) i" for i
      using t(5) [where i = i] that by (simp add: f3)
    moreover have "filter (\<lambda>c. fst c = classify) calls4 = [(classify, raFrame), (classify, curFrame)]"
      using l4 nvalid by (simp add: f3 cur')
    ultimately show ?thesis by simp
  qed
  show ?thesis
    using run c4 h3 r3 p3 r4 valid_case invalid_case
    unfolding valid_def
    by (intro exI [of _ cd4] exI [of _ cs4] exI [of _ calls4]) simp
qed

text \<open>
  C9: the analysis of a channel always windows, shifts and forward-transforms the new
  readahead frame, one input hop beyond the current frame, and converts that transform
  into the readahead's magnitudes and phases.  If \<open>haveReadahead\<close> is true and the input
  hop equals the previous frame's, the previous readahead's magnitudes and phases are
  copied into the classification scale's \<open>mag\<close> and \<open>phase\<close> (the magnitudes then scaled
  by \<open>1 / classify\<close>, as every scale's are), its time-domain frame is left alone, its
  \<open>real\<close> and \<open>imag\<close> hold the transform of the readahead frame, and the only forward
  transform made at the classification size is that of the readahead frame.  If
  \<open>haveReadahead\<close> is false or the input hop has changed, the classification scale's
  current frame is windowed anew from the input, shifted and forward-transformed as well,
  after the readahead frame, and its magnitudes and phases are those of its own
  transform: nothing of the previous readahead is reused.  The classification scale is
  not the longest scale and has a band.
\<close>

theorem analyseSpectra_readahead:
  assumes "map_of (scales cd) longest = Some ls"
    and "map_of (scales cd) classify = Some cs"
    and "classify \<noteq> longest"
    and "filter (\<lambda>b. BandLimits.fftSize b = classify) bands = b # bs"
    and "distinct (map fst (scales cd))"
  shows "let raFrame = v_fftshift classify
                         (window_cut (analysisWindow E classify)
                            (drop (nat ((longest - classify) div 2 + ih)) (peekFrame longest input)));
             curFrame = v_fftshift classify
                          (window_cut (analysisWindow E classify)
                             (drop (nat ((longest - classify) div 2)) (peekFrame longest input)))
         in \<exists>cd' cs' calls.
           analyseSpectra E bands longest classify input ih pih cd = Inr (cd', calls)
         \<and> map_of (scales cd') classify = Some cs'
         \<and> haveReadahead cd'
         \<and> ClassificationReadaheadData.timeDomain (readahead cd') = raFrame
         \<and> (ClassificationReadaheadData.mag (readahead cd'),
            ClassificationReadaheadData.phase (readahead cd'))
             = convertToPolar E (classifySpec classify b)
                 (ClassificationReadaheadData.mag (readahead cd))
                 (ClassificationReadaheadData.phase (readahead cd))
                 (fst (forward E classify raFrame)) (snd (forward E classify raFrame))
         \<and> (haveReadahead cd \<and> ih = pih \<longrightarrow>
               mag cs' = v_scale (v_copy (mag cs) (ClassificationReadaheadData.mag (readahead cd)) (bufSize cs))
                           0 (1 / real_of_int classify)
                           (int (length (v_copy (mag cs) (ClassificationReadaheadData.mag (readahead cd))
                                           (bufSize cs))))
             \<and> phase cs' = v_copy (phase cs) (ClassificationReadaheadData.phase (readahead cd)) (bufSize cs)
             \<and> timeDomain cs' = timeDomain cs
             \<and> (real_buf cs', imag_buf cs') = forward E classify raFrame
             \<and> filter (\<lambda>c. fst c = classify) calls = [(classify, raFrame)])
         \<and> (\<not> (haveReadahead cd \<and> ih = pih) \<longrightarrow>
               timeDomain cs' = curFrame
             \<and> (real_buf cs', imag_buf cs') = forward E classify curFrame
             \<and> (\<forall>i < length (mag cs). int i < classify div 2 + 1 \<longrightarrow>
                    mag cs' ! i = magnitude E (real_buf cs' ! i) (imag_buf cs' ! i)
                                  * (1 / real_of_int classify))
             \<and> (\<forall>i < length (phase cs). inPolarRange (classifySpec classify b) i \<longrightarrow>
                    phase cs' ! i = argument E (real_buf cs' ! i) (imag_buf cs' ! i))
             \<and> filter (\<lambda>c. fst c = classify) calls = [(classify, raFrame), (classify, curFrame)])"
  unfolding Let_def by (rule analyseSpectra_char [OF assms refl refl])

text \<open>
  The theorem at the example channel, whose input ring holds 1 to 8; the readahead frame,
  one hop of 2 beyond the middle, is 5 to 8, shifted.  With an unchanged input hop of 2
  the classification scale takes over the previous readahead's magnitudes 8, 4, 12, scaled
  by a quarter, and its phases, keeps its time-domain frame, and the readahead frame alone
  is transformed.  With the input hop changed from 1 to 2 the classification scale's
  frame is cut anew from the middle of the input, 3 to 6, shifted and transformed too,
  and its magnitudes are those of that transform.
\<close>

theorem analyseSpectra_readahead_witness:
  "(\<exists>cd' cs' calls.
     analyseSpectra plainCollaborators analysisBandLimits 8 4 [1, 2, 3, 4, 5, 6, 7, 8] 2 2
        analysisChannel = Inr (cd', calls)
     \<and> map_of (scales cd') 4 = Some cs'
     \<and> haveReadahead cd'
     \<and> ClassificationReadaheadData.timeDomain (readahead cd') = [7, 8, 5, 6]
     \<and> ClassificationReadaheadData.mag (readahead cd') = [7, 8, 5]
     \<and> ClassificationReadaheadData.phase (readahead cd') = [0, 0, 0]
     \<and> mag cs' = [2, 1, 3] \<and> phase cs' = [1, 2, 3] \<and> timeDomain cs' = [5, 5, 5, 5]
     \<and> real_buf cs' = [7, 8, 5]
     \<and> filter (\<lambda>c. fst c = 4) calls = [(4, [7, 8, 5, 6])])
   \<and> (\<exists>cd' cs' calls.
     analyseSpectra plainCollaborators analysisBandLimits 8 4 [1, 2, 3, 4, 5, 6, 7, 8] 2 1
        analysisChannel = Inr (cd', calls)
     \<and> map_of (scales cd') 4 = Some cs'
     \<and> timeDomain cs' = [5, 6, 3, 4] \<and> real_buf cs' = [5, 6, 3]
     \<and> mag cs' ! 0 = 5/4 \<and> mag cs' ! 1 = 3/2 \<and> mag cs' ! 2 = 3/4
     \<and> filter (\<lambda>c. fst c = 4) calls = [(4, [7, 8, 5, 6]), (4, [5, 6, 3, 4])])"
proof -
  let ?b = "\<lparr>BandLimits.fftSize = 4, b0min = 0, b1max = 2\<rparr>"
  let ?input = "[1, 2, 3, 4, 5, 6, 7, 8] :: real list"
  have h1: "map_of (scales analysisChannel) 8 = Some analysisScale8"
    by (simp add: analysisChannel_def)
  have h2: "map_of (scales analysisChannel) 4 = Some analysisScale4"
    by (simp add: analysisChannel_def)
  have h3: "(4::int) \<noteq> 8" by simp
  have h4: "filter (\<lambda>b. BandLimits.fftSize b = 4) analysisBandLimits = ?b # []"
    by (simp add: analysisBandLimits_def)
  have h5: "distinct (map fst (scales analysisChannel))"
    by (simp add: analysisChannel_def)
  have ra: "v_fftshift 4 (window_cut (analysisWindow plainCollaborators 4)
                            (drop 4 (peekFrame 8 ?input))) = [7, 8, 5, 6]"
    by (simp add: v_fftshift_def window_cut_def peekFrame_def plainCollaborators_def
        numeral_eq_Suc)
  have cur: "v_fftshift 4 (window_cut (analysisWindow plainCollaborators 4)
                            (drop 2 (peekFrame 8 ?input))) = [5, 6, 3, 4]"
    by (simp add: v_fftshift_def window_cut_def peekFrame_def plainCollaborators_def
        numeral_eq_Suc)
  have fra: "forward plainCollaborators 4 [7, 8, 5, 6] = ([7, 8, 5], [0, 0, 0])"
    by (simp add: plainCollaborators_def numeral_eq_Suc)
  have fcur: "forward plainCollaborators 4 [5, 6, 3, 4] = ([5, 6, 3], [0, 0, 0])"
    by (simp add: plainCollaborators_def numeral_eq_Suc)
  have pol: "convertToPolar plainCollaborators (classifySpec 4 ?b)
               (ClassificationReadaheadData.mag (readahead analysisChannel))
               (ClassificationReadaheadData.phase (readahead analysisChannel))
               [7, 8, 5] [0, 0, 0] = ([7, 8, 5], [0, 0, 0])"
    by (simp add: convertToPolar_def classifySpec_def inMagRange_def inPolarRange_def
        analysisChannel_def plainCollaborators_def upt_rec)
  have v: "haveReadahead analysisChannel \<and> (2::int) = 2" by (simp add: analysisChannel_def)
  from analyseSpectra_readahead [OF h1 h2 h3 h4 h5, of plainCollaborators 2 ?input 2] v
  obtain cd' cs' calls where
    r: "analyseSpectra plainCollaborators analysisBandLimits 8 4 ?input 2 2
          analysisChannel = Inr (cd', calls)"
    and m: "map_of (scales cd') 4 = Some cs'" and h: "haveReadahead cd'"
    and t: "ClassificationReadaheadData.timeDomain (readahead cd') = [7, 8, 5, 6]"
    and p: "(ClassificationReadaheadData.mag (readahead cd'),
             ClassificationReadaheadData.phase (readahead cd')) = ([7, 8, 5], [0, 0, 0])"
    and c: "mag cs' = v_scale (v_copy (mag analysisScale4)
                                  (ClassificationReadaheadData.mag (readahead analysisChannel))
                                  (bufSize analysisScale4))
                           0 (1 / real_of_int 4)
                           (int (length (v_copy (mag analysisScale4)
                                  (ClassificationReadaheadData.mag (readahead analysisChannel))
                                  (bufSize analysisScale4))))"
       "phase cs' = v_copy (phase analysisScale4)
                      (ClassificationReadaheadData.phase (readahead analysisChannel))
                      (bufSize analysisScale4)"
       "timeDomain cs' = timeDomain analysisScale4"
    and f: "(real_buf cs', imag_buf cs') = ([7, 8, 5], [0, 0, 0])"
    and l: "filter (\<lambda>c. fst c = 4) calls = [(4, [7, 8, 5, 6])]"
    by (auto simp: Let_def ra cur fra fcur pol)
  have "mag cs' = [2, 1, 3]" "phase cs' = [1, 2, 3]" "timeDomain cs' = [5, 5, 5, 5]"
    using c
    by (simp_all add: analysisChannel_def analysisScale4_def v_scale_def v_copy_def
        numeral_eq_Suc upt_rec)
  with r m h t p f l have first: "\<exists>cd' cs' calls.
     analyseSpectra plainCollaborators analysisBandLimits 8 4 ?input 2 2
        analysisChannel = Inr (cd', calls)
     \<and> map_of (scales cd') 4 = Some cs'
     \<and> haveReadahead cd'
     \<and> ClassificationReadaheadData.timeDomain (readahead cd') = [7, 8, 5, 6]
     \<and> ClassificationReadaheadData.mag (readahead cd') = [7, 8, 5]
     \<and> ClassificationReadaheadData.phase (readahead cd') = [0, 0, 0]
     \<and> mag cs' = [2, 1, 3] \<and> phase cs' = [1, 2, 3] \<and> timeDomain cs' = [5, 5, 5, 5]
     \<and> real_buf cs' = [7, 8, 5]
     \<and> filter (\<lambda>c. fst c = 4) calls = [(4, [7, 8, 5, 6])]"
    by auto
  have nv: "\<not> (haveReadahead analysisChannel \<and> (2::int) = 1)" by simp
  from analyseSpectra_readahead [OF h1 h2 h3 h4 h5, of plainCollaborators 2 ?input 1] nv
  obtain cd2 cs2 calls2 where
    r2: "analyseSpectra plainCollaborators analysisBandLimits 8 4 ?input 2 1
          analysisChannel = Inr (cd2, calls2)"
    and m2: "map_of (scales cd2) 4 = Some cs2"
    and t2: "timeDomain cs2 = [5, 6, 3, 4]"
    and f2: "(real_buf cs2, imag_buf cs2) = ([5, 6, 3], [0, 0, 0])"
    and g2: "\<And>i. i < length (mag analysisScale4) \<Longrightarrow> int i < 4 div 2 + 1 \<Longrightarrow>
                    mag cs2 ! i = magnitude plainCollaborators (real_buf cs2 ! i) (imag_buf cs2 ! i)
                                  * (1 / real_of_int 4)"
    and l2: "filter (\<lambda>c. fst c = 4) calls2 = [(4, [7, 8, 5, 6]), (4, [5, 6, 3, 4])]"
    by (auto simp: Let_def ra cur fra fcur pol)
  have f2': "real_buf cs2 = [5, 6, 3]" using f2 by simp
  have "mag cs2 ! 0 = 5/4 \<and> mag cs2 ! 1 = 3/2 \<and> mag cs2 ! 2 = 3/4"
    using g2 [of 0] g2 [of 1] g2 [of 2] f2'
    by (simp add: analysisScale4_def plainCollaborators_def)
  with r2 m2 t2 f2' l2 have second: "\<exists>cd' cs' calls.
     analyseSpectra plainCollaborators analysisBandLimits 8 4 ?input 2 1
        analysisChannel = Inr (cd', calls)
     \<and> map_of (scales cd') 4 = Some cs'
     \<and> timeDomain cs' = [5, 6, 3, 4] \<and> real_buf cs' = [5, 6, 3]
     \<and> mag cs' ! 0 = 5/4 \<and> mag cs' ! 1 = 3/2 \<and> mag cs' ! 2 = 3/4
     \<and> filter (\<lambda>c. fst c = 4) calls = [(4, [7, 8, 5, 6]), (4, [5, 6, 3, 4])]"
    by blast
  from first second show ?thesis by blast
qed

end
